(* ===== verification/Relay_Prelude.thy ===== *)
theory Relay_Prelude
  imports Main "HOL-Library.Word"
begin

section \<open>Prelude: machine words, byte buffers, results\<close>

text \<open>
  What every component of the relay shares.

  \<^item> Integers keep their Rust width: \<open>u8\<close>, \<open>u16\<close>, \<open>u32\<close> and \<open>u64\<close> are words, so \<open>+\<close> wraps
    as \<open>fetch_add\<close> does and \<open>as u16\<close> truncates; \<open>usize\<close> lengths are natural numbers.
  \<^item> \<open>&[u8]\<close>, \<open>[u8; N]\<close>, \<open>Vec<u8>\<close>, \<open>Bytes\<close> and \<open>BytesMut\<close> are byte lists. A read cursor is the
    list of bytes still to be read; a write buffer is the list of bytes written so far.
  \<^item> \<open>result\<close> is a computation of the Rust program: it returns a value (\<open>Ok\<close>), leaves the function
    early with \<open>return\<close> or \<open>?\<close> (\<open>Err\<close>), or panics (\<open>Panic\<close>: an index or a cursor read out of range).
    The decoders below are written with the panicking reads the source uses, so that the absence of
    panics is a theorem about them.
\<close>

unbundle bit_operations_syntax

type_synonym u8 = "8 word"
type_synonym u16 = "16 word"
type_synonym u32 = "32 word"
type_synonym u64 = "64 word"
type_synonym bytes = "u8 list"

named_theorems result_simps \<open>evaluation of result computations\<close>
named_theorems buf_simps \<open>reads from a buffer whose front is known\<close>
named_theorems post_simps \<open>weakest preconditions of result computations\<close>
named_theorems frame_sizes \<open>unfolding of the protocol's size constants\<close>

subsection \<open>Results\<close>

datatype ('e, 'a) result = Panic | Err 'e | Ok 'a

text \<open>\<open>and_then r f\<close> is \<open>f(r?)\<close>: the rest of the function runs only after a value.\<close>

fun and_then :: "('e, 'a) result \<Rightarrow> ('a \<Rightarrow> ('e, 'b) result) \<Rightarrow> ('e, 'b) result" where
  "and_then Panic f = Panic"
| "and_then (Err e) f = Err e"
| "and_then (Ok x) f = f x"

fun map_err :: "('e \<Rightarrow> 'f) \<Rightarrow> ('e, 'a) result \<Rightarrow> ('f, 'a) result" where
  "map_err g Panic = Panic"
| "map_err g (Err e) = Err (g e)"
| "map_err g (Ok x) = Ok x"

fun map_ok :: "('a \<Rightarrow> 'b) \<Rightarrow> ('e, 'a) result \<Rightarrow> ('e, 'b) result" where
  "map_ok g Panic = Panic"
| "map_ok g (Err e) = Err e"
| "map_ok g (Ok x) = Ok (g x)"

subsection \<open>Big-endian integers\<close>

text \<open>\<open>to_be_bytes\<close> and \<open>from_be_bytes\<close> of the standard library, for a width of \<open>n\<close> bytes.\<close>

fun nat_to_be :: "nat \<Rightarrow> nat \<Rightarrow> bytes" where
  "nat_to_be 0 v = []"
| "nat_to_be (Suc n) v = nat_to_be n (v div 256) @ [of_nat v]"

fun nat_from_be_acc :: "nat \<Rightarrow> bytes \<Rightarrow> nat" where
  "nat_from_be_acc acc [] = acc"
| "nat_from_be_acc acc (b # bs) = nat_from_be_acc (acc * 256 + unat b) bs"

definition nat_from_be :: "bytes \<Rightarrow> nat" where
  "nat_from_be bs = nat_from_be_acc 0 bs"

definition put_u8 :: "u8 \<Rightarrow> bytes" where
  "put_u8 v = [v]"

definition put_u16 :: "u16 \<Rightarrow> bytes" where
  "put_u16 v = nat_to_be 2 (unat v)"

definition put_u32 :: "u32 \<Rightarrow> bytes" where
  "put_u32 v = nat_to_be 4 (unat v)"

definition put_u64 :: "u64 \<Rightarrow> bytes" where
  "put_u64 v = nat_to_be 8 (unat v)"

subsection \<open>Reading a buffer\<close>

text \<open>\<open>&s[..n]\<close>, \<open>&s[n..]\<close>, \<open>advance(n)\<close>, \<open>split_to(n)\<close> and the \<open>get_*\<close> reads panic when fewer
  than \<open>n\<close> bytes remain.\<close>

definition slice_to :: "nat \<Rightarrow> bytes \<Rightarrow> ('e, bytes) result" where
  "slice_to n bs = (if length bs < n then Panic else Ok (take n bs))"

definition slice_from :: "nat \<Rightarrow> bytes \<Rightarrow> ('e, bytes) result" where
  "slice_from n bs = (if length bs < n then Panic else Ok (drop n bs))"

definition advance :: "nat \<Rightarrow> bytes \<Rightarrow> ('e, bytes) result" where
  "advance n bs = (if length bs < n then Panic else Ok (drop n bs))"

definition split_to :: "nat \<Rightarrow> bytes \<Rightarrow> ('e, bytes \<times> bytes) result" where
  "split_to n bs = (if length bs < n then Panic else Ok (take n bs, drop n bs))"

definition get_u8 :: "bytes \<Rightarrow> ('e, u8 \<times> bytes) result" where
  "get_u8 bs = (case bs of [] \<Rightarrow> Panic | b # rest \<Rightarrow> Ok (b, rest))"

definition get_u16 :: "bytes \<Rightarrow> ('e, u16 \<times> bytes) result" where
  "get_u16 bs = (if length bs < 2 then Panic
     else Ok (of_nat (nat_from_be (take 2 bs)), drop 2 bs))"

definition get_u32 :: "bytes \<Rightarrow> ('e, u32 \<times> bytes) result" where
  "get_u32 bs = (if length bs < 4 then Panic
     else Ok (of_nat (nat_from_be (take 4 bs)), drop 4 bs))"

definition get_u64 :: "bytes \<Rightarrow> ('e, u64 \<times> bytes) result" where
  "get_u64 bs = (if length bs < 8 then Panic
     else Ok (of_nat (nat_from_be (take 8 bs)), drop 8 bs))"

text \<open>\<open>s[i]\<close>.\<close>

definition index_u8 :: "bytes \<Rightarrow> nat \<Rightarrow> ('e, u8) result" where
  "index_u8 bs i = (if i < length bs then Ok (bs ! i) else Panic)"

subsection \<open>Laws of results\<close>

declare and_then.simps [result_simps] map_err.simps [result_simps] map_ok.simps [result_simps]

lemma and_then_Ok_iff: "and_then r f = Ok y \<longleftrightarrow> (\<exists>x. r = Ok x \<and> f x = Ok y)"
  by (cases r) auto

lemma and_then_Panic_iff: "and_then r f = Panic \<longleftrightarrow> r = Panic \<or> (\<exists>x. r = Ok x \<and> f x = Panic)"
  by (cases r) auto

lemma and_then_Err_iff: "and_then r f = Err e \<longleftrightarrow> r = Err e \<or> (\<exists>x. r = Ok x \<and> f x = Err e)"
  by (cases r) auto

lemma map_err_Ok_iff [simp]: "map_err g r = Ok y \<longleftrightarrow> r = Ok y"
  by (cases r) auto

lemma map_err_Panic_iff [simp]: "map_err g r = Panic \<longleftrightarrow> r = Panic"
  by (cases r) auto

text \<open>\<open>result_post E P r\<close>: the computation does not panic, its early exits satisfy \<open>E\<close> and its value
  satisfies \<open>P\<close>. The collection \<open>post_simps\<close> computes it backwards through a computation, as a
  weakest precondition.\<close>

definition result_post :: "('e \<Rightarrow> bool) \<Rightarrow> ('a \<Rightarrow> bool) \<Rightarrow> ('e, 'a) result \<Rightarrow> bool" where
  "result_post E P r = (case r of Panic \<Rightarrow> False | Err e \<Rightarrow> E e | Ok x \<Rightarrow> P x)"

lemma result_post_simps [post_simps]:
  "result_post E P Panic = False"
  "result_post E P (Err e) = E e"
  "result_post E P (Ok x) = P x"
  by (simp_all add: result_post_def)

lemma result_post_and_then [post_simps]:
  "result_post E P (and_then r f) = result_post E (\<lambda>x. result_post E P (f x)) r"
  by (cases r) (simp_all add: result_post_def)

lemma result_post_if [post_simps]:
  "result_post E P (if c then r else s) = (if c then result_post E P r else result_post E P s)"
  by simp

lemma result_post_case_prod [post_simps]:
  "result_post E P (case p of (x, y) \<Rightarrow> f x y) = (case p of (x, y) \<Rightarrow> result_post E P (f x y))"
  by (cases p) simp

lemma result_post_mono:
  "result_post E P r \<Longrightarrow> (\<And>e. E e \<Longrightarrow> E' e) \<Longrightarrow> (\<And>x. P x \<Longrightarrow> P' x) \<Longrightarrow> result_post E' P' r"
  by (cases r) (simp_all add: result_post_def)

lemma result_post_reads [post_simps]:
  "result_post E P1 (slice_to n bs) \<longleftrightarrow> n \<le> length bs \<and> P1 (take n bs)"
  "result_post E P1 (slice_from n bs) \<longleftrightarrow> n \<le> length bs \<and> P1 (drop n bs)"
  "result_post E P1 (advance n bs) \<longleftrightarrow> n \<le> length bs \<and> P1 (drop n bs)"
  "result_post E P2 (split_to n bs) \<longleftrightarrow> n \<le> length bs \<and> P2 (take n bs, drop n bs)"
  "result_post E P3 (get_u8 bs) \<longleftrightarrow> bs \<noteq> [] \<and> P3 (hd bs, tl bs)"
  "result_post E P4 (get_u16 bs) \<longleftrightarrow> 2 \<le> length bs \<and> P4 (of_nat (nat_from_be (take 2 bs)), drop 2 bs)"
  "result_post E P5 (get_u32 bs) \<longleftrightarrow> 4 \<le> length bs \<and> P5 (of_nat (nat_from_be (take 4 bs)), drop 4 bs)"
  "result_post E P6 (get_u64 bs) \<longleftrightarrow> 8 \<le> length bs \<and> P6 (of_nat (nat_from_be (take 8 bs)), drop 8 bs)"
  "result_post E P7 (index_u8 bs i) \<longleftrightarrow> i < length bs \<and> P7 (bs ! i)"
  by (auto simp: result_post_def slice_to_def slice_from_def advance_def split_to_def get_u8_def get_u16_def
      get_u32_def get_u64_def index_u8_def split: list.splits)

lemma result_post_no_panic: "result_post E P r \<Longrightarrow> r \<noteq> Panic"
  by (cases r) (simp_all add: result_post_def)

lemma result_post_Ok: "result_post E P r \<Longrightarrow> r = Ok x \<Longrightarrow> P x"
  by (simp add: result_post_def)

lemma result_post_Err: "result_post E P r \<Longrightarrow> r = Err e \<Longrightarrow> E e"
  by (simp add: result_post_def)

lemma map_ok_Ok_iff: "map_ok g r = Ok y \<longleftrightarrow> (\<exists>x. r = Ok x \<and> y = g x)"
  "Ok y = map_ok g r \<longleftrightarrow> (\<exists>x. r = Ok x \<and> y = g x)"
  by (cases r; auto)+

subsection \<open>Computations with a state\<close>

text \<open>\<open>io_then m f\<close> is \<open>f(m.await?).await\<close> on a state that both change.\<close>

definition io_then ::
    "('s \<Rightarrow> ('e, 'a) result \<times> 's) \<Rightarrow> ('a \<Rightarrow> 's \<Rightarrow> ('e, 'b) result \<times> 's) \<Rightarrow> 's \<Rightarrow> ('e, 'b) result \<times> 's" where
  "io_then m f s = (case m s of (Ok x, s1) \<Rightarrow> f x s1 | (Err e, s1) \<Rightarrow> (Err e, s1) | (Panic, s1) \<Rightarrow> (Panic, s1))"

definition io_err :: "('e \<Rightarrow> 'f) \<Rightarrow> ('s \<Rightarrow> ('e, 'a) result \<times> 's) \<Rightarrow> 's \<Rightarrow> ('f, 'a) result \<times> 's" where
  "io_err g m s = (case m s of (r, s1) \<Rightarrow> (map_err g r, s1))"

definition io_lift :: "('e, 'a) result \<Rightarrow> 's \<Rightarrow> ('e, 'a) result \<times> 's" where
  "io_lift r s = (r, s)"

lemma io_simps [result_simps]:
  "m s = (Ok x, s1) \<Longrightarrow> io_then m f s = f x s1"
  "m s = (Err e, s1) \<Longrightarrow> io_then m f s = (Err e, s1)"
  "m s = (Panic, s1) \<Longrightarrow> io_then m f s = (Panic, s1)"
  "m s = (r, s1) \<Longrightarrow> io_err g m s = (map_err g r, s1)"
  "io_lift r s = (r, s)"
  by (simp_all add: io_then_def io_err_def io_lift_def)

subsection \<open>Laws of big-endian integers\<close>

lemma length_nat_to_be [simp]: "length (nat_to_be n v) = n"
  by (induction n arbitrary: v) auto

lemma nat_from_be_acc_append:
  "nat_from_be_acc acc (xs @ ys) = nat_from_be_acc (nat_from_be_acc acc xs) ys"
  by (induction xs arbitrary: acc) auto

lemma nat_from_be_snoc: "nat_from_be (bs @ [b]) = nat_from_be bs * 256 + unat b"
  by (simp add: nat_from_be_def nat_from_be_acc_append)

lemma unat_less_width:
  "unat (a :: u8) < 256" "unat (b :: u16) < 65536" "unat (c :: u32) < 4294967296"
  "unat (d :: u64) < 18446744073709551616"
  using unsigned_less [of a, where ?'a = nat] unsigned_less [of b, where ?'a = nat]
    unsigned_less [of c, where ?'a = nat] unsigned_less [of d, where ?'a = nat]
  by simp_all

lemma unat_of_nat_u8: "unat (of_nat v :: u8) = v mod 256"
  by (simp add: unat_of_nat)

lemma nat_from_be_to_be: "v < 256 ^ n \<Longrightarrow> nat_from_be (nat_to_be n v) = v"
proof (induction n arbitrary: v)
  case 0
  then show ?case by (simp add: nat_from_be_def)
next
  case (Suc n)
  then have "v div 256 < 256 ^ n"
    by (simp add: less_mult_imp_div_less mult.commute)
  then show ?case
    by (simp add: nat_from_be_snoc Suc.IH unat_of_nat_u8)
qed

lemma nat_from_be_less: "nat_from_be bs < 256 ^ length bs"
proof (induction bs rule: rev_induct)
  case Nil
  then show ?case by (simp add: nat_from_be_def)
next
  case (snoc b bs)
  have "unat b < 256" by (rule unat_less_width)
  with snoc show ?case by (simp add: nat_from_be_snoc)
qed

lemma nat_to_be_from_be: "nat_to_be (length bs) (nat_from_be bs) = bs"
proof (induction bs rule: rev_induct)
  case Nil
  then show ?case by simp
next
  case (snoc b bs)
  have b: "unat b < 256" by (rule unat_less_width)
  have "(of_nat (nat_from_be bs * 256 + unat b) :: u8) = b"
    by (rule word_unat_eq_iff [THEN iffD2]) (simp only: unat_of_nat_u8, simp add: b)
  with snoc b show ?case by (simp add: nat_from_be_snoc)
qed

lemma length_put [simp]:
  "length (put_u8 a) = 1" "length (put_u16 b) = 2" "length (put_u32 c) = 4" "length (put_u64 d) = 8"
  by (simp_all add: put_u8_def put_u16_def put_u32_def put_u64_def)

lemma put_nonempty [simp]: "put_u8 a \<noteq> []" "put_u16 b \<noteq> []" "put_u32 c \<noteq> []" "put_u64 d \<noteq> []"
  using length_put(1) [of a] length_put(2) [of b] length_put(3) [of c] length_put(4) [of d]
  by (auto simp del: length_put)

lemma get_u8_put [buf_simps]: "get_u8 (put_u8 v @ rest) = Ok (v, rest)"
  by (simp add: get_u8_def put_u8_def)

lemma get_u16_put [buf_simps]: "get_u16 (put_u16 v @ rest) = Ok (v, rest)"
  by (simp add: get_u16_def put_u16_def nat_from_be_to_be unat_less_width)

lemma get_u32_put [buf_simps]: "get_u32 (put_u32 v @ rest) = Ok (v, rest)"
  by (simp add: get_u32_def put_u32_def nat_from_be_to_be unat_less_width)

lemma get_u64_put [buf_simps]: "get_u64 (put_u64 v @ rest) = Ok (v, rest)"
  by (simp add: get_u64_def put_u64_def nat_from_be_to_be unat_less_width)

text \<open>Every run of bytes of the right length is the encoding of one integer, so a read is undone by a write.\<close>

lemma put_u16_surj: "length bs = 2 \<Longrightarrow> put_u16 (of_nat (nat_from_be bs)) = bs"
  using nat_from_be_less [of bs] nat_to_be_from_be [of bs]
  by (simp add: put_u16_def unat_of_nat)

lemma put_u32_surj: "length bs = 4 \<Longrightarrow> put_u32 (of_nat (nat_from_be bs)) = bs"
  using nat_from_be_less [of bs] nat_to_be_from_be [of bs]
  by (simp add: put_u32_def unat_of_nat)

lemma put_u64_surj: "length bs = 8 \<Longrightarrow> put_u64 (of_nat (nat_from_be bs)) = bs"
  using nat_from_be_less [of bs] nat_to_be_from_be [of bs]
  by (simp add: put_u64_def unat_of_nat)

lemma get_u8_inv: "get_u8 bs = Ok (v, rest) \<Longrightarrow> bs = put_u8 v @ rest"
  by (auto simp: get_u8_def put_u8_def split: list.splits)

lemma get_u16_inv: "get_u16 bs = Ok (v, rest) \<Longrightarrow> bs = put_u16 v @ rest"
  using put_u16_surj [of "take 2 bs"] append_take_drop_id [of 2 bs]
  by (auto simp: get_u16_def split: if_splits)

lemma get_u32_inv: "get_u32 bs = Ok (v, rest) \<Longrightarrow> bs = put_u32 v @ rest"
  using put_u32_surj [of "take 4 bs"] append_take_drop_id [of 4 bs]
  by (auto simp: get_u32_def split: if_splits)

lemma get_u64_inv: "get_u64 bs = Ok (v, rest) \<Longrightarrow> bs = put_u64 v @ rest"
  using put_u64_surj [of "take 8 bs"] append_take_drop_id [of 8 bs]
  by (auto simp: get_u64_def split: if_splits)

lemma slice_to_inv: "slice_to n bs = Ok xs \<Longrightarrow> length xs = n \<and> (\<exists>ys. bs = xs @ ys)"
  by (auto simp: slice_to_def split: if_splits intro!: exI [of _ "drop n bs"])

lemmas get_inv = get_u8_inv get_u16_inv get_u32_inv get_u64_inv

lemma xor_zero_iff: "(x :: u8) XOR y = 0 \<longleftrightarrow> x = y"
proof
  assume "x XOR y = 0"
  then have "(x XOR y) XOR y = y" by simp
  then show "x = y" by (simp add: xor.assoc)
qed simp

text \<open>Casts between \<open>usize\<close> and \<open>u16\<close> lose nothing below the width.\<close>

lemma unat_of_nat_u16 [simp]: "n < 65536 \<Longrightarrow> unat (of_nat n :: u16) = n"
  by (simp add: unat_of_nat)

subsection \<open>Laws of buffer reads\<close>

lemma slice_to_append [buf_simps]: "length xs = n \<Longrightarrow> slice_to n (xs @ ys) = Ok xs"
  by (simp add: slice_to_def)

lemma slice_to_all [buf_simps]: "length xs = n \<Longrightarrow> slice_to n xs = Ok xs"
  by (simp add: slice_to_def)

lemma slice_from_append [buf_simps]: "length xs = n \<Longrightarrow> slice_from n (xs @ ys) = Ok ys"
  by (simp add: slice_from_def)

lemma advance_append [buf_simps]: "length xs = n \<Longrightarrow> advance n (xs @ ys) = Ok ys"
  by (simp add: advance_def)

lemma split_to_append [buf_simps]: "length xs = n \<Longrightarrow> split_to n (xs @ ys) = Ok (xs, ys)"
  by (simp add: split_to_def)

text \<open>A read guarded by the check of its length returns the bytes asked for.\<close>

lemma slice_to_Ok [result_simps]: "n \<le> length bs \<Longrightarrow> slice_to n bs = Ok (take n bs)"
  by (simp add: slice_to_def)

lemma slice_from_Ok [result_simps]: "n \<le> length bs \<Longrightarrow> slice_from n bs = Ok (drop n bs)"
  by (simp add: slice_from_def)

lemma advance_Ok [result_simps]: "n \<le> length bs \<Longrightarrow> advance n bs = Ok (drop n bs)"
  by (simp add: advance_def)

lemma split_to_Ok [result_simps]: "n \<le> length bs \<Longrightarrow> split_to n bs = Ok (take n bs, drop n bs)"
  by (simp add: split_to_def)

lemma get_u8_Ok [result_simps]: "1 \<le> length bs \<Longrightarrow> get_u8 bs = Ok (hd bs, drop 1 bs)"
  by (cases bs) (simp_all add: get_u8_def)

lemma get_u16_Ok [result_simps]:
  "2 \<le> length bs \<Longrightarrow> get_u16 bs = Ok (of_nat (nat_from_be (take 2 bs)), drop 2 bs)"
  by (simp add: get_u16_def)

lemma get_u32_Ok [result_simps]:
  "4 \<le> length bs \<Longrightarrow> get_u32 bs = Ok (of_nat (nat_from_be (take 4 bs)), drop 4 bs)"
  by (simp add: get_u32_def)

lemma get_u64_Ok [result_simps]:
  "8 \<le> length bs \<Longrightarrow> get_u64 bs = Ok (of_nat (nat_from_be (take 8 bs)), drop 8 bs)"
  by (simp add: get_u64_def)

lemma index_u8_Ok [result_simps]: "i < length bs \<Longrightarrow> index_u8 bs i = Ok (bs ! i)"
  by (simp add: index_u8_def)

end
