(* ===== verification/Rust_Strings.thy ===== *)
theory Rust_Strings
  imports Relay_Prelude
begin

section \<open>Strings of the standard library, and the hex codec\<close>

text \<open>
  A Rust \<open>str\<close> or \<open>String\<close> is its UTF-8 byte list. This theory holds the operations of the standard
  library's strings that the relay calls (\<open>from_utf8\<close>, \<open>from_utf8_lossy\<close>, \<open>trim\<close>,
  \<open>to_ascii_lowercase\<close>, \<open>u8::from_str_radix\<close>, decimal display) and the relay's own
  \<open>hex_encode\<close> and \<open>hex_decode\<close> (\<open>src/transport/obfuscation.rs\<close>). Slicing a \<open>str\<close> off a
  character boundary panics, and \<open>hex_decode\<close> does slice its input, so it is a \<open>result\<close>.
\<close>

subsection \<open>Literals and decimal numbers\<close>

definition lit :: "string \<Rightarrow> bytes" where
  "lit s = map of_char s"

fun decimal :: "nat \<Rightarrow> bytes" where
  "decimal n = (if n < 10 then [48 + of_nat n] else decimal (n div 10) @ [48 + of_nat (n mod 10)])"

declare decimal.simps [simp del]

subsection \<open>UTF-8\<close>

definition is_cont :: "u8 \<Rightarrow> bool" where
  "is_cont b \<longleftrightarrow> 0x80 \<le> b \<and> b \<le> 0xBF"

definition safe_get :: "bytes \<Rightarrow> nat \<Rightarrow> u8" where
  "safe_get bs i = (if i < length bs then bs ! i else 0)"

definition second_of_three :: "u8 \<Rightarrow> u8 \<Rightarrow> bool" where
  "second_of_three a b \<longleftrightarrow>
     (a = 0xE0 \<and> 0xA0 \<le> b \<and> b \<le> 0xBF) \<or> (0xE1 \<le> a \<and> a \<le> 0xEC \<and> is_cont b)
   \<or> (a = 0xED \<and> 0x80 \<le> b \<and> b \<le> 0x9F) \<or> (0xEE \<le> a \<and> a \<le> 0xEF \<and> is_cont b)"

definition second_of_four :: "u8 \<Rightarrow> u8 \<Rightarrow> bool" where
  "second_of_four a b \<longleftrightarrow>
     (a = 0xF0 \<and> 0x90 \<le> b \<and> b \<le> 0xBF) \<or> (0xF1 \<le> a \<and> a \<le> 0xF3 \<and> is_cont b)
   \<or> (a = 0xF4 \<and> 0x80 \<le> b \<and> b \<le> 0x8F)"

text \<open>The first chunk of a nonempty string: a well-formed character and its width, or the width of
  the ill-formed bytes that the lossy conversion replaces by one replacement character.\<close>

definition utf8_width :: "u8 \<Rightarrow> nat" where
  "utf8_width a =
     (if a < 0x80 then 1 else if 0xC2 \<le> a \<and> a \<le> 0xDF then 2
      else if 0xE0 \<le> a \<and> a \<le> 0xEF then 3 else if 0xF0 \<le> a \<and> a \<le> 0xF4 then 4 else 0)"

definition utf8_second :: "u8 \<Rightarrow> u8 \<Rightarrow> bool" where
  "utf8_second a b =
     (if utf8_width a = 2 then is_cont b
      else if utf8_width a = 3 then second_of_three a b else second_of_four a b)"

definition utf8_scan :: "bytes \<Rightarrow> bool \<times> nat" where
  "utf8_scan bs = (let a = safe_get bs 0; w = utf8_width a in
     if w = 1 then (True, 1)
     else if w = 0 then (False, 1)
     else if \<not> utf8_second a (safe_get bs 1) then (False, 1)
     else if w = 2 then (True, 2)
     else if \<not> is_cont (safe_get bs 2) then (False, 2)
     else if w = 3 then (True, 3)
     else if \<not> is_cont (safe_get bs 3) then (False, 3)
     else (True, 4))"

lemma utf8_scan_pos: "0 < snd (utf8_scan bs)"
  by (simp add: utf8_scan_def Let_def)

function utf8_valid :: "bytes \<Rightarrow> bool" where
  "utf8_valid bs = (if bs = [] then True
     else if fst (utf8_scan bs) then utf8_valid (drop (snd (utf8_scan bs)) bs) else False)"
  by pat_completeness auto
termination
  by (relation "measure length") (auto simp: utf8_scan_pos)

definition replacement_char :: bytes where
  "replacement_char = [0xEF, 0xBF, 0xBD]"

function from_utf8_lossy :: "bytes \<Rightarrow> bytes" where
  "from_utf8_lossy bs =
     (if bs = [] then []
      else (if fst (utf8_scan bs) then take (snd (utf8_scan bs)) bs else replacement_char)
           @ from_utf8_lossy (drop (snd (utf8_scan bs)) bs))"
  by pat_completeness auto
termination
  by (relation "measure length") (auto simp: utf8_scan_pos)

declare utf8_valid.simps [simp del] from_utf8_lossy.simps [simp del]

definition ascii_lower :: "u8 \<Rightarrow> u8" where
  "ascii_lower b = (if 0x41 \<le> b \<and> b \<le> 0x5A then b + 32 else b)"

definition to_ascii_lowercase :: "bytes \<Rightarrow> bytes" where
  "to_ascii_lowercase s = map ascii_lower s"

definition eq_ignore_ascii_case :: "bytes \<Rightarrow> bytes \<Rightarrow> bool" where
  "eq_ignore_ascii_case a b \<longleftrightarrow> to_ascii_lowercase a = to_ascii_lowercase b"

subsection \<open>Trimming white space\<close>

text \<open>The UTF-8 encodings of the characters with the Unicode property \<open>White_Space\<close>.\<close>

fun is_ws_char :: "bytes \<Rightarrow> bool" where
  "is_ws_char [a] = ((9 \<le> a \<and> a \<le> 13) \<or> a = 32)"
| "is_ws_char [a, b] = (a = 0xC2 \<and> (b = 0x85 \<or> b = 0xA0))"
| "is_ws_char [a, b, c] =
     ((a = 0xE1 \<and> b = 0x9A \<and> c = 0x80)
    \<or> (a = 0xE2 \<and> b = 0x80 \<and> ((0x80 \<le> c \<and> c \<le> 0x8A) \<or> c = 0xA8 \<or> c = 0xA9 \<or> c = 0xAF))
    \<or> (a = 0xE2 \<and> b = 0x81 \<and> c = 0x9F)
    \<or> (a = 0xE3 \<and> b = 0x80 \<and> c = 0x80))"
| "is_ws_char _ = False"

fun trim_start :: "bytes \<Rightarrow> bytes" where
  "trim_start s =
     (if s = [] then []
      else if is_ws_char (take 1 s) then trim_start (drop 1 s)
      else if is_ws_char (take 2 s) then trim_start (drop 2 s)
      else if is_ws_char (take 3 s) then trim_start (drop 3 s)
      else s)"

definition lastn :: "nat \<Rightarrow> 'a list \<Rightarrow> 'a list" where
  "lastn n xs = drop (length xs - n) xs"

definition butlastn :: "nat \<Rightarrow> 'a list \<Rightarrow> 'a list" where
  "butlastn n xs = take (length xs - n) xs"

lemma length_butlastn [simp]: "length (butlastn n xs) = length xs - n"
  by (simp add: butlastn_def)

function trim_end :: "bytes \<Rightarrow> bytes" where
  "trim_end s =
     (if s = [] then []
      else if is_ws_char (lastn 1 s) then trim_end (butlastn 1 s)
      else if is_ws_char (lastn 2 s) then trim_end (butlastn 2 s)
      else if is_ws_char (lastn 3 s) then trim_end (butlastn 3 s)
      else s)"
  by pat_completeness auto
termination
  by (relation "measure length") auto

declare trim_start.simps [simp del] trim_end.simps [simp del]

definition trim :: "bytes \<Rightarrow> bytes" where
  "trim s = trim_end (trim_start s)"

subsection \<open>Hexadecimal\<close>

definition hex_digit :: "nat \<Rightarrow> u8" where
  "hex_digit d = (if d < 10 then 48 + of_nat d else 87 + of_nat d)"

definition hex_encode :: "bytes \<Rightarrow> bytes" where
  "hex_encode bs = concat (map (\<lambda>b. [hex_digit (unat b div 16), hex_digit (unat b mod 16)]) bs)"

definition to_digit16 :: "u8 \<Rightarrow> nat option" where
  "to_digit16 c =
     (if 48 \<le> c \<and> c \<le> 57 then Some (unat c - 48)
      else if 97 \<le> c \<and> c \<le> 102 then Some (unat c - 87)
      else if 65 \<le> c \<and> c \<le> 70 then Some (unat c - 55)
      else None)"

text \<open>\<open>u8::from_str_radix(s, 16)\<close>: an optional \<open>+\<close>, then digits; overflow is an error.\<close>

fun radix16_digits :: "nat \<Rightarrow> bytes \<Rightarrow> u8 option" where
  "radix16_digits acc [] = Some (of_nat acc)"
| "radix16_digits acc (c # cs) =
     (case to_digit16 c of
        None \<Rightarrow> None
      | Some d \<Rightarrow> if 255 < acc * 16 + d then None else radix16_digits (acc * 16 + d) cs)"

definition u8_from_str_radix16 :: "bytes \<Rightarrow> u8 option" where
  "u8_from_str_radix16 s =
     (case s of
        [] \<Rightarrow> None
      | c # cs \<Rightarrow>
          if cs = [] \<and> (c = 43 \<or> c = 45) then None
          else if c = 43 then radix16_digits 0 cs
          else radix16_digits 0 s)"

text \<open>The loop over \<open>(0..s.len()).step_by(2)\<close>. The slice \<open>&s[i..i + 2]\<close> panics when it runs past the end or when
  its end is inside a character; its start is the previous slice's end.\<close>

fun hex_pairs :: "bytes \<Rightarrow> (unit, bytes) result" where
  "hex_pairs [] = Ok []"
| "hex_pairs [_] = Panic"
| "hex_pairs (a # b # rest) =
     (if rest \<noteq> [] \<and> is_cont (hd rest) then Panic
      else (case u8_from_str_radix16 [a, b] of
              None \<Rightarrow> Err ()
            | Some byte \<Rightarrow> and_then (hex_pairs rest) (\<lambda>bytes. Ok (byte # bytes))))"

text \<open>\<open>Err ()\<close> is the function's \<open>None\<close>.\<close>

definition hex_decode :: "bytes \<Rightarrow> (unit, bytes) result" where
  "hex_decode input = (let s = trim input in
     if length s mod 2 \<noteq> 0 then Err () else hex_pairs s)"

subsection \<open>UTF-8 laws\<close>

lemma safe_get_append: "i < length xs \<Longrightarrow> safe_get (xs @ ys) i = safe_get xs i"
  by (simp add: safe_get_def nth_append)

lemma safe_get_out: "length bs \<le> i \<Longrightarrow> safe_get bs i = 0"
  by (simp add: safe_get_def)

lemma not_cont_zero [simp]: "\<not> is_cont 0" "\<not> utf8_second a 0"
  by (simp_all add: utf8_second_def is_cont_def second_of_three_def second_of_four_def)

lemma safe_get_in_range:
  "is_cont (safe_get bs i) \<Longrightarrow> i < length bs" "utf8_second a (safe_get bs i) \<Longrightarrow> i < length bs"
  using not_cont_zero safe_get_out [of bs i] by (metis not_less)+

text \<open>A scan never claims more bytes than there are, and a well-formed character is recognised from
  its own bytes, whatever follows.\<close>

lemma utf8_scan_le: "bs \<noteq> [] \<Longrightarrow> snd (utf8_scan bs) \<le> length bs"
  using safe_get_in_range(1) [of bs 2] safe_get_in_range(1) [of bs 3]
    safe_get_in_range(2) [of "safe_get bs 0" bs 1]
  by (cases bs) (auto simp: utf8_scan_def Let_def Suc_le_eq)

lemma utf8_scan_cong:
  assumes "fst (utf8_scan bs)" and "\<And>i. i < snd (utf8_scan bs) \<Longrightarrow> safe_get bs' i = safe_get bs i"
  shows "utf8_scan bs' = utf8_scan bs"
  using assms by (auto simp: utf8_scan_def Let_def split: if_splits)

lemma utf8_scan_take:
  assumes "fst (utf8_scan bs)" and "bs \<noteq> []"
  shows "utf8_scan (take (snd (utf8_scan bs)) bs @ rest) = utf8_scan bs"
  using assms utf8_scan_le [OF assms(2)]
  by (intro utf8_scan_cong) (auto simp: safe_get_def nth_append)

lemma utf8_valid_Nil [simp]: "utf8_valid []"
  by (simp add: utf8_valid.simps)

lemma utf8_valid_step:
  "bs \<noteq> [] \<Longrightarrow> fst (utf8_scan bs) \<Longrightarrow> utf8_valid bs = utf8_valid (drop (snd (utf8_scan bs)) bs)"
  by (simp add: utf8_valid.simps [of bs])

lemma utf8_valid_replacement: "utf8_valid (replacement_char @ rest) = utf8_valid rest"
proof -
  have "utf8_scan (replacement_char @ rest) = (True, 3)"
    by (simp add: utf8_scan_def Let_def replacement_char_def safe_get_def utf8_width_def
        utf8_second_def second_of_three_def is_cont_def)
  then show ?thesis
    by (subst utf8_valid_step) (simp_all add: replacement_char_def)
qed

text \<open>Lossy conversion always yields well-formed UTF-8, and leaves well-formed text alone.\<close>

lemma utf8_valid_lossy: "utf8_valid (from_utf8_lossy bs)"
proof (induction bs rule: from_utf8_lossy.induct)
  case (1 bs)
  show ?case
  proof (cases "bs = []")
    case True
    then show ?thesis by (simp add: from_utf8_lossy.simps)
  next
    case False
    let ?n = "snd (utf8_scan bs)" and ?rest = "from_utf8_lossy (drop (snd (utf8_scan bs)) bs)"
    have IH: "utf8_valid ?rest" using "1.IH" False by simp
    show ?thesis
    proof (cases "fst (utf8_scan bs)")
      case True
      have "utf8_scan (take ?n bs @ ?rest) = utf8_scan bs" by (rule utf8_scan_take [OF True False])
      moreover have "take ?n bs @ ?rest \<noteq> []" using False utf8_scan_pos [of bs] by simp
      ultimately have "utf8_valid (take ?n bs @ ?rest)"
        using True IH utf8_scan_le [OF False] by (subst utf8_valid_step) simp_all
      with False True show ?thesis by (simp add: from_utf8_lossy.simps [of bs])
    next
      case scan: False
      with False IH show ?thesis
        by (simp add: from_utf8_lossy.simps [of bs] utf8_valid_replacement)
    qed
  qed
qed

lemma from_utf8_lossy_Nil [simp]: "from_utf8_lossy [] = []"
  by (simp add: from_utf8_lossy.simps)

lemma from_utf8_lossy_valid: "utf8_valid bs \<Longrightarrow> from_utf8_lossy bs = bs"
proof (induction bs rule: from_utf8_lossy.induct)
  case (1 bs)
  then show ?case
    by (cases "bs = []") (auto simp: from_utf8_lossy.simps [of bs] utf8_valid.simps [of bs] split: if_splits)
qed

lemma length_from_utf8_lossy: "length (from_utf8_lossy bs) \<le> 3 * length bs"
proof (induction bs rule: from_utf8_lossy.induct)
  case (1 bs)
  show ?case
  proof (cases "bs = []")
    case False
    then have "length (from_utf8_lossy (drop (snd (utf8_scan bs)) bs)) \<le> 3 * (length bs - snd (utf8_scan bs))"
      using 1 by simp
    then show ?thesis
      using False utf8_scan_pos [of bs] utf8_scan_le [OF False]
      by (auto simp: from_utf8_lossy.simps [of bs] replacement_char_def)
  qed simp
qed

text \<open>ASCII text is well-formed.\<close>

lemma utf8_scan_ascii: "a < 0x80 \<Longrightarrow> utf8_scan (a # bs) = (True, 1)"
  by (simp add: utf8_scan_def Let_def safe_get_def utf8_width_def)

lemma utf8_valid_ascii: "\<forall>a \<in> set bs. a < 0x80 \<Longrightarrow> utf8_valid bs"
  by (induction bs) (auto simp: utf8_valid_step utf8_scan_ascii)

text \<open>Lower-casing keeps a string well-formed.\<close>

lemma ascii_lower_idem: "ascii_lower (ascii_lower c) = ascii_lower c"
  by (simp add: ascii_lower_def word_le_nat_alt unat_word_ariths)

lemma safe_get_lower: "safe_get (to_ascii_lowercase s) i = ascii_lower (safe_get s i)"
  by (simp add: safe_get_def to_ascii_lowercase_def ascii_lower_def)

lemma ascii_lower_high: "0x80 \<le> b \<Longrightarrow> ascii_lower b = b"
  by (auto simp: ascii_lower_def word_le_nat_alt)

lemma ascii_lower_low: "b < 0x80 \<Longrightarrow> ascii_lower b < 0x80"
  by (auto simp: ascii_lower_def word_le_nat_alt word_less_nat_alt unat_word_ariths)

lemma utf8_width_lower: "utf8_width (ascii_lower a) = utf8_width a"
  by (cases "a < 0x80") (simp_all add: utf8_width_def ascii_lower_low ascii_lower_high not_less)

lemma is_cont_lower: "is_cont (ascii_lower b) = is_cont b"
  using ascii_lower_low [of b]
  by (cases "b < 0x80") (auto simp: is_cont_def ascii_lower_high not_less)

lemma utf8_second_high: "utf8_second a b \<Longrightarrow> 0x80 \<le> a \<and> 0x80 \<le> b"
  by (auto simp: utf8_second_def utf8_width_def second_of_three_def second_of_four_def is_cont_def
      word_le_nat_alt word_less_nat_alt split: if_splits)

lemma utf8_second_lower: "utf8_second (ascii_lower a) (ascii_lower b) = utf8_second a b"
  using utf8_second_high [of a b] utf8_second_high [of "ascii_lower a" "ascii_lower b"]
    ascii_lower_high [of a] ascii_lower_high [of b] ascii_lower_low [of a] ascii_lower_low [of b]
  by (metis not_less)

lemma utf8_scan_lower: "utf8_scan (to_ascii_lowercase s) = utf8_scan s"
  by (simp add: utf8_scan_def Let_def safe_get_lower utf8_width_lower is_cont_lower utf8_second_lower)

lemma utf8_valid_lower: "utf8_valid (to_ascii_lowercase s) = utf8_valid s"
proof (induction s rule: utf8_valid.induct)
  case (1 s)
  show ?case
  proof (cases "s = []")
    case True
    then show ?thesis by (simp add: to_ascii_lowercase_def)
  next
    case False
    then have "to_ascii_lowercase s \<noteq> []" by (simp add: to_ascii_lowercase_def)
    with False 1 show ?thesis
      by (simp add: utf8_valid.simps [of s] utf8_valid.simps [of "to_ascii_lowercase s"] utf8_scan_lower)
        (simp add: to_ascii_lowercase_def drop_map)
  qed
qed

subsection \<open>Laws of trimming\<close>

definition graphic :: "u8 \<Rightarrow> bool" where
  "graphic b \<longleftrightarrow> 33 \<le> b \<and> b < 0x80"

lemma ws_char_not_graphic: "is_ws_char cs \<Longrightarrow> \<exists>b \<in> set cs. \<not> graphic b"
  by (induction cs rule: is_ws_char.induct) (auto simp: graphic_def word_le_nat_alt word_less_nat_alt)

lemma trim_graphic: "\<forall>b \<in> set s. graphic b \<Longrightarrow> trim s = s"
proof -
  assume s: "\<forall>b \<in> set s. graphic b"
  have "\<not> is_ws_char cs" if "set cs \<subseteq> set s" for cs
    using ws_char_not_graphic [of cs] s that by blast
  then have *: "\<not> is_ws_char (take n s)" "\<not> is_ws_char (lastn n s)" for n
    by (simp_all add: lastn_def set_take_subset set_drop_subset)
  then show ?thesis
    by (simp add: trim_def trim_start.simps [of s] trim_end.simps [of s] trim_end.simps [of "[]"])
qed

lemma ws_char_ends: "is_ws_char cs \<Longrightarrow> cs \<noteq> [] \<and> \<not> graphic (hd cs) \<and> \<not> graphic (last cs)"
  by (induction cs rule: is_ws_char.induct) (auto simp: graphic_def word_le_nat_alt word_less_nat_alt)

lemma trim_start_graphic: "s \<noteq> [] \<Longrightarrow> graphic (hd s) \<Longrightarrow> trim_start s = s"
  using ws_char_ends [of "take 1 s"] ws_char_ends [of "take 2 s"] ws_char_ends [of "take 3 s"]
  by (auto simp: trim_start.simps [of s])

lemma trim_end_graphic: "s \<noteq> [] \<Longrightarrow> graphic (last s) \<Longrightarrow> trim_end s = s"
  using ws_char_ends [of "lastn 1 s"] ws_char_ends [of "lastn 2 s"] ws_char_ends [of "lastn 3 s"]
  by (auto simp: trim_end.simps [of s] lastn_def)

lemma trim_surrounded:
  assumes "\<forall>b \<in> set s. graphic b" "is_ws_char [c]" "is_ws_char [d]"
  shows "trim (c # s @ [d]) = s"
proof (cases "s = []")
  case True
  with assms show ?thesis
    by (simp add: trim_def trim_start.simps [of "[c, d]"] trim_start.simps [of "[d]"] trim_start.simps [of "[]"]
        trim_end.simps [of "[]"] del: is_ws_char.simps)
next
  case False
  have "trim_start (c # s @ [d]) = s @ [d]"
    using assms False by (simp add: trim_start.simps [of "c # s @ [d]"] trim_start_graphic del: is_ws_char.simps)
  moreover have "trim_end (s @ [d]) = s"
    using assms False by (simp add: trim_end.simps [of "s @ [d]"] trim_end_graphic lastn_def butlastn_def
        del: is_ws_char.simps)
  ultimately show ?thesis by (simp add: trim_def)
qed

lemma trim_newline:
  assumes "\<forall>b \<in> set s. graphic b"
  shows "trim (s @ [10]) = s"
proof (cases "s = []")
  case True
  have "trim [10] = []" by code_simp
  with True show ?thesis by simp
next
  case False
  then have start: "trim_start (s @ [10]) = s @ [10]" using assms by (intro trim_start_graphic) auto
  have "trim_end (s @ [10]) = trim_end s"
    by (subst trim_end.simps) (simp add: lastn_def butlastn_def)
  then show ?thesis using start trim_end_graphic [of s] assms False by (simp add: trim_def)
qed

lemma set_trim_start: "set (trim_start s) \<subseteq> set s"
  by (induction s rule: trim_start.induct) (subst trim_start.simps, auto dest: in_set_dropD)

lemma set_trim_end: "set (trim_end s) \<subseteq> set s"
  by (induction s rule: trim_end.induct) (subst trim_end.simps, auto simp: butlastn_def dest: in_set_takeD)

lemma set_trim: "set (trim s) \<subseteq> set s"
  using set_trim_start set_trim_end unfolding trim_def by blast

subsection \<open>Hex laws\<close>

lemma hex_digit_cases: "\<forall>d \<in> set [0..<16]. to_digit16 (hex_digit d) = Some d \<and> graphic (hex_digit d)"
  by code_simp

lemma hex_digit_inverse: "d < 16 \<Longrightarrow> to_digit16 (hex_digit d) = Some d"
  and hex_digit_graphic: "d < 16 \<Longrightarrow> graphic (hex_digit d)"
  using hex_digit_cases by auto

lemma hex_digit_not_plus: "d < 16 \<Longrightarrow> hex_digit d \<noteq> 43"
  using hex_digit_inverse [of d] by (auto simp: to_digit16_def)

lemma radix16_byte:
  "u8_from_str_radix16 [hex_digit (unat b div 16), hex_digit (unat b mod 16)] = Some b"
proof -
  have b: "unat b < 256" by (rule unat_less_width)
  then have "unat b div 16 < 16" by simp
  with b show ?thesis
    by (simp add: u8_from_str_radix16_def hex_digit_inverse hex_digit_not_plus)
qed

lemma hex_encode_graphic: "\<forall>c \<in> set (hex_encode bs). graphic c"
proof -
  have "unat b div 16 < 16" for b :: u8 using unat_less_width(1) [of b] by simp
  then show ?thesis by (auto simp: hex_encode_def hex_digit_graphic)
qed

lemma graphic_not_cont: "graphic b \<Longrightarrow> \<not> is_cont b"
  by (auto simp: graphic_def is_cont_def)

lemma length_hex_encode [simp]: "length (hex_encode bs) = 2 * length bs"
  by (induction bs) (simp_all add: hex_encode_def)

lemma hex_encode_Cons:
  "hex_encode (b # bs) = hex_digit (unat b div 16) # hex_digit (unat b mod 16) # hex_encode bs"
  by (simp add: hex_encode_def)

lemma hex_pairs_encode: "hex_pairs (hex_encode bs) = Ok bs"
proof (induction bs)
  case Nil
  then show ?case by (simp add: hex_encode_def)
next
  case (Cons b bs)
  have "hex_encode bs \<noteq> [] \<Longrightarrow> \<not> is_cont (hd (hex_encode bs))"
    using hex_encode_graphic [of bs] by (simp add: graphic_not_cont)
  with Cons show ?case by (auto simp: hex_encode_Cons radix16_byte)
qed

text \<open>Only a byte of a non-ASCII character makes the decoder panic.\<close>

lemma hex_pairs_ascii_no_panic:
  "even (length s) \<Longrightarrow> \<forall>b \<in> set s. b < 0x80 \<Longrightarrow> hex_pairs s \<noteq> Panic"
proof (induction s rule: hex_pairs.induct)
  case (3 a b rest)
  then have "rest \<noteq> [] \<Longrightarrow> \<not> is_cont (hd rest)"
    by (cases rest) (auto simp: is_cont_def word_le_nat_alt word_less_nat_alt)
  with 3 show ?case
    by (auto simp: and_then_Panic_iff split: option.splits)
qed auto

subsection \<open>Properties\<close>

text \<open>Decoding a hexadecimal encoding returns the bytes encoded, also when white space surrounds it.\<close>

theorem hex_roundtrip:
  "hex_decode (hex_encode bs) = Ok bs \<and> hex_decode (32 # hex_encode bs @ [10]) = Ok bs"
  by (simp add: hex_decode_def trim_graphic trim_surrounded hex_encode_graphic hex_pairs_encode)

text \<open>On ASCII text the hexadecimal decoder returns bytes or \<open>None\<close> and never panics; the guard matters, since
  it panics on the text \<open>a\<close>, \<open>e\<close> with an acute accent, \<open>b\<close>, whose second pair starts inside a character.\<close>

theorem hex_decode_safe_on_ascii:
  "((\<forall>b \<in> set s. b < 0x80) \<longrightarrow> hex_decode s \<noteq> Panic)
    \<and> utf8_valid [0x61, 0xC3, 0xA9, 0x62] \<and> hex_decode [0x61, 0xC3, 0xA9, 0x62] = Panic"
proof (intro conjI impI)
  assume "\<forall>b \<in> set s. b < 0x80"
  then have "\<forall>b \<in> set (trim s). b < 0x80" using set_trim by blast
  then show "hex_decode s \<noteq> Panic"
    using hex_pairs_ascii_no_panic [of "trim s"] by (auto simp: hex_decode_def Let_def even_iff_mod_2_eq_zero)
qed code_simp+

theorem hex_decode_safe_on_ascii_witness: "hex_decode (lit ''+f0z'') \<noteq> Panic"
  using hex_decode_safe_on_ascii [of "lit ''+f0z''"] by (simp add: lit_def)

end
