(* ===== verification/Base64.thy ===== *)
theory Base64
  imports Rust_Strings
begin

section \<open>Base64\<close>

text \<open>
  \<open>base64_encode\<close> and \<open>base64_decode\<close> of \<open>src/crypto/keys.rs\<close>: the encoder works on chunks of three bytes, the decoder
  collects six bits per character in a 32-bit buffer. The lemmas show that decoding undoes encoding.
\<close>

definition BASE64_ALPHABET :: bytes where
  "BASE64_ALPHABET = lit ''ABCDEFGHIJKLMNOPQRSTUVWXYZabcdefghijklmnopqrstuvwxyz0123456789+/''"

abbreviation base64_char :: "u8 \<Rightarrow> u8" where
  "base64_char v \<equiv> BASE64_ALPHABET ! unat v"

definition base64_chunk :: "bytes \<Rightarrow> bytes" where
  "base64_chunk chunk =
     (let b0 = chunk ! 0;
          b1 = (if length chunk > 1 then chunk ! 1 else 0);
          b2 = (if length chunk > 2 then chunk ! 2 else 0) in
      [base64_char (drop_bit 2 b0), base64_char (push_bit 4 (b0 AND 0x03) OR drop_bit 4 b1),
       if length chunk > 1 then base64_char (push_bit 2 (b1 AND 0x0f) OR drop_bit 6 b2) else 61,
       if length chunk > 2 then base64_char (b2 AND 0x3f) else 61])"

fun base64_encode :: "bytes \<Rightarrow> bytes" where
  "base64_encode data = (if data = [] then [] else base64_chunk (take 3 data) @ base64_encode (drop 3 data))"

declare base64_encode.simps [simp del]

definition base64_value :: "u8 \<Rightarrow> u8 option" where
  "base64_value b =
     (if 65 \<le> b \<and> b \<le> 90 then Some (b - 65)
      else if 97 \<le> b \<and> b \<le> 122 then Some (b - 97 + 26)
      else if 48 \<le> b \<and> b \<le> 57 then Some (b - 48 + 52)
      else if b = 43 then Some 62
      else if b = 47 then Some 63
      else None)"

text \<open>The loop of the decoder; the output is what the rest of the input adds.\<close>

fun base64_loop :: "u32 \<Rightarrow> nat \<Rightarrow> bytes \<Rightarrow> bytes option" where
  "base64_loop buffer bits [] = Some []"
| "base64_loop buffer bits (b # bs) =
     (if b = 61 then Some []
      else if b = 32 \<or> b = 13 \<or> b = 10 \<or> b = 9 then base64_loop buffer bits bs
      else (case base64_value b of
          None \<Rightarrow> None
        | Some val \<Rightarrow>
            let buffer = push_bit 6 buffer OR ucast val; bits = bits + 6 in
            if bits \<ge> 8 then
              map_option (Cons (ucast (drop_bit (bits - 8) buffer)))
                (base64_loop (buffer AND (push_bit (bits - 8) 1 - 1)) (bits - 8) bs)
            else base64_loop buffer bits bs))"

definition base64_decode :: "bytes \<Rightarrow> bytes option" where
  "base64_decode input = (let trimmed = trim input in if trimmed = [] then Some [] else base64_loop 0 0 trimmed)"

subsection \<open>Characters\<close>

lemma base64_alphabet_values: "map base64_value BASE64_ALPHABET = map (\<lambda>i. Some (of_nat i)) [0..<64]"
  by code_simp

lemma base64_alphabet_graphic: "\<forall>c \<in> set BASE64_ALPHABET. graphic c \<and> c \<notin> {61, 32, 13, 10, 9, 34, 95}"
  by code_simp

lemma length_base64_alphabet: "length BASE64_ALPHABET = 64"
  using arg_cong [OF base64_alphabet_values, of length] by simp

lemma base64_char:
  assumes "unat (v :: u8) < 64"
  shows "base64_value (base64_char v) = Some v" "graphic (base64_char v)" "base64_char v \<notin> {61, 32, 13, 10, 9, 34, 95}"
proof -
  have "map base64_value BASE64_ALPHABET ! unat v = Some v" using assms by (simp add: base64_alphabet_values)
  then show "base64_value (base64_char v) = Some v" using assms length_base64_alphabet by simp
  have "base64_char v \<in> set BASE64_ALPHABET" using assms length_base64_alphabet by simp
  with base64_alphabet_graphic show "graphic (base64_char v)" "base64_char v \<notin> {61, 32, 13, 10, 9, 34, 95}" by blast+
qed

lemma bit_u8_out [simp]: "8 \<le> n \<Longrightarrow> \<not> bit (w :: u8) n"
  using bit_imp_le_length [of w n] by auto

lemma bit_u8_eqI:
  fixes v w :: u8
  assumes "\<And>n. n \<in> {0, 1, 2, 3, 4, 5, 6, 7} \<Longrightarrow> bit v n = bit w n"
  shows "v = w"
proof (rule bit_word_eqI)
  fix n assume "n < LENGTH(8)"
  then have "n = 0 \<or> n = 1 \<or> n = 2 \<or> n = 3 \<or> n = 4 \<or> n = 5 \<or> n = 6 \<or> n = 7" by (simp, arith)
  then show "bit v n = bit w n" by (intro assms) blast
qed

text \<open>The four indices of a chunk are below 64, so that no index into the alphabet is out of range.\<close>

lemma base64_index:
  "unat (drop_bit 2 b0 :: u8) < 64" "unat (push_bit 4 (b0 AND 0x03) OR drop_bit 4 b1 :: u8) < 64"
  "unat (push_bit 2 (b1 AND 0x0f) OR drop_bit 6 b2 :: u8) < 64" "unat (b2 AND 0x3f :: u8) < 64"
proof -
  have *: "unat (w :: u8) < 64 \<longleftrightarrow> take_bit 6 w = w" for w
    using unat_less_width(1) [of w] by (auto simp: take_bit_eq_mod word_unat_eq_iff unat_mod mod_eq_self_iff_div_eq_0)
  have three: "0x03 = (mask 2 :: u8)" "0x0f = (mask 4 :: u8)" "0x3f = (mask 6 :: u8)" by (simp_all add: mask_eq_exp_minus_1)
  show "unat (drop_bit 2 b0 :: u8) < 64" "unat (push_bit 4 (b0 AND 0x03) OR drop_bit 4 b1 :: u8) < 64"
    "unat (push_bit 2 (b1 AND 0x0f) OR drop_bit 6 b2 :: u8) < 64" "unat (b2 AND 0x3f :: u8) < 64"
    unfolding * three by (auto intro!: bit_u8_eqI simp: bit_simps)
qed

subsection \<open>Decoding a chunk\<close>

lemma base64_loop_char:
  assumes "unat (v :: u8) < 64"
  shows "base64_loop buffer bits (base64_char v # bs) =
    (let buffer = push_bit 6 buffer OR ucast v in
     if bits + 6 \<ge> 8 then map_option (Cons (ucast (drop_bit (bits + 6 - 8) buffer)))
       (base64_loop (buffer AND (push_bit (bits + 6 - 8) 1 - 1)) (bits + 6 - 8) bs)
     else base64_loop buffer (bits + 6) bs)"
  using base64_char [OF assms] by (simp add: Let_def)

lemma base64_bits:
  fixes b0 b1 b2 :: u8
  defines "buf1 \<equiv> push_bit 6 (ucast (drop_bit 2 b0)) OR ucast (push_bit 4 (b0 AND 0x03) OR drop_bit 4 b1) :: u32"
  defines "buf2 \<equiv> push_bit 6 (ucast (drop_bit 4 b1)) OR ucast (push_bit 2 (b1 AND 0x0f) OR drop_bit 6 b2) :: u32"
  defines "buf3 \<equiv> push_bit 6 (ucast (drop_bit 6 b2)) OR ucast (b2 AND 0x3f) :: u32"
  shows "ucast (drop_bit 4 buf1) = b0" "buf1 AND (push_bit 4 1 - 1) = ucast (drop_bit 4 b1)"
    "ucast (drop_bit 2 buf2) = b1" "buf2 AND (push_bit 2 1 - 1) = ucast (drop_bit 6 b2)"
    "ucast buf3 = b2"
proof -
  have m: "0x03 = (mask 2 :: u8)" "0x0f = (mask 4 :: u8)" "0x3f = (mask 6 :: u8)" "push_bit 4 1 - 1 = (mask 4 :: u32)"
    "push_bit 2 1 - 1 = (mask 2 :: u32)"
    by (simp_all add: mask_eq_exp_minus_1 push_bit_eq_mult)
  show "ucast (drop_bit 4 buf1) = b0" "ucast (drop_bit 2 buf2) = b1" "ucast buf3 = b2"
    unfolding buf1_def buf2_def buf3_def m by (auto intro!: bit_u8_eqI simp: bit_simps)
  have nibble: "bit b1 (4 + n) \<Longrightarrow> n < 4" "bit b2 (6 + n) \<Longrightarrow> n < 2" for n
    using bit_imp_le_length [of b1 "4 + n"] bit_imp_le_length [of b2 "6 + n"] by auto
  show "buf1 AND (push_bit 4 1 - 1) = ucast (drop_bit 4 b1)" "buf2 AND (push_bit 2 1 - 1) = ucast (drop_bit 6 b2)"
    unfolding buf1_def buf2_def m by (auto intro!: bit_word_eqI simp: bit_simps nibble)
qed

text \<open>Four characters whose bits make up three bytes, and the two shorter groups.\<close>

lemma base64_loop_four:
  fixes v0 v1 v2 v3 b0 b1 b2 :: u8
  assumes "unat v0 < 64" "unat v1 < 64" "unat v2 < 64" "unat v3 < 64"
    and "ucast (drop_bit 4 (push_bit 6 (ucast v0) OR ucast v1 :: u32)) = b0"
      "(push_bit 6 (ucast v0) OR ucast v1) AND (push_bit 4 1 - 1) = (x :: u32)"
    and "ucast (drop_bit 2 (push_bit 6 x OR ucast v2)) = b1" "(push_bit 6 x OR ucast v2) AND (push_bit 2 1 - 1) = (y :: u32)"
    and "ucast (push_bit 6 y OR ucast v3) = b2"
  shows "base64_loop 0 0 ([base64_char v0, base64_char v1, base64_char v2, base64_char v3] @ rest)
      = map_option (\<lambda>out. b0 # b1 # b2 # out) (base64_loop 0 0 rest)"
    and "base64_loop 0 0 [base64_char v0, base64_char v1, base64_char v2, 61] = Some [b0, b1]"
    and "base64_loop 0 0 [base64_char v0, base64_char v1, 61, 61] = Some [b0]"
proof -
  note chars = base64_loop_char [OF assms(1)] base64_loop_char [OF assms(2)]
    base64_loop_char [OF assms(3)] base64_loop_char [OF assms(4)]
  have stop: "base64_loop buf n (61 # bs) = Some []" for buf n bs by simp
  have one: "base64_loop 0 0 (base64_char v0 # base64_char v1 # bs) = map_option (Cons b0) (base64_loop x 4 bs)" for bs
    unfolding chars Let_def using assms(5,6) by simp
  have two: "base64_loop x 4 (base64_char v2 # bs) = map_option (Cons b1) (base64_loop y 2 bs)" for bs
    unfolding chars Let_def using assms(7,8) by simp
  have three: "base64_loop y 2 (base64_char v3 # bs) = map_option (Cons b2) (base64_loop 0 0 bs)" for bs
    unfolding chars Let_def using assms(9) by simp
  show "base64_loop 0 0 ([base64_char v0, base64_char v1, base64_char v2, base64_char v3] @ rest)
      = map_option (\<lambda>out. b0 # b1 # b2 # out) (base64_loop 0 0 rest)"
    by (simp only: append_Cons append_Nil one two three option.map_comp comp_def)
  show "base64_loop 0 0 [base64_char v0, base64_char v1, base64_char v2, 61] = Some [b0, b1]"
    by (simp only: one two stop option.map)
  show "base64_loop 0 0 [base64_char v0, base64_char v1, 61, 61] = Some [b0]"
    by (simp only: one stop option.map)
qed

lemma base64_chunk_decoded:
  "base64_loop 0 0 (base64_chunk [b0, b1, b2] @ rest) = map_option (\<lambda>out. b0 # b1 # b2 # out) (base64_loop 0 0 rest)"
  "base64_loop 0 0 (base64_chunk [b0, b1]) = Some [b0, b1]"
  "base64_loop 0 0 (base64_chunk [b0]) = Some [b0]"
proof -
  have chunks: "base64_chunk [b0, b1, b2] = [base64_char (drop_bit 2 b0), base64_char (push_bit 4 (b0 AND 0x03) OR drop_bit 4 b1),
      base64_char (push_bit 2 (b1 AND 0x0f) OR drop_bit 6 b2), base64_char (b2 AND 0x3f)]"
    "base64_chunk [b0, b1] = [base64_char (drop_bit 2 b0), base64_char (push_bit 4 (b0 AND 0x03) OR drop_bit 4 b1),
      base64_char (push_bit 2 (b1 AND 0x0f) OR drop_bit 6 0), 61]"
    "base64_chunk [b0] = [base64_char (drop_bit 2 b0), base64_char (push_bit 4 (b0 AND 0x03) OR drop_bit 4 0), 61, 61]"
    for b0 b1 b2 by (simp_all only: base64_chunk_def Let_def list.size nth_Cons_0 nth_Cons_Suc if_True if_False) simp_all
  show "base64_loop 0 0 (base64_chunk [b0, b1, b2] @ rest) = map_option (\<lambda>out. b0 # b1 # b2 # out) (base64_loop 0 0 rest)"
    unfolding chunks by (rule base64_loop_four(1) [OF base64_index base64_bits])
  show "base64_loop 0 0 (base64_chunk [b0, b1]) = Some [b0, b1]"
    unfolding chunks by (rule base64_loop_four(2) [OF base64_index base64_bits])
  show "base64_loop 0 0 (base64_chunk [b0]) = Some [b0]"
    unfolding chunks by (rule base64_loop_four(3) [OF base64_index base64_bits])
qed

lemma base64_loop_encode: "base64_loop 0 0 (base64_encode bs) = Some bs"
proof (induction bs rule: base64_encode.induct)
  case (1 bs)
  consider "bs = []" | b0 where "bs = [b0]" | b0 b1 where "bs = [b0, b1]" | b0 b1 b2 rest where "bs = b0 # b1 # b2 # rest"
    by (metis list.exhaust)
  then show ?case
  proof cases
    case 4
    then have "base64_encode bs = base64_chunk [b0, b1, b2] @ base64_encode rest"
      by (simp add: base64_encode.simps [of "b0 # b1 # b2 # rest"])
    then show ?thesis using 1 4 by (simp add: base64_chunk_decoded)
  qed (simp_all add: base64_encode.simps base64_chunk_decoded)
qed

lemma base64_encode_graphic: "\<forall>c \<in> set (base64_encode bs). graphic c \<and> c \<noteq> 34 \<and> c \<noteq> 95"
proof (induction bs rule: base64_encode.induct)
  case (1 bs)
  have "\<forall>c \<in> set (base64_chunk (take 3 bs)). graphic c \<and> c \<noteq> 34 \<and> c \<noteq> 95"
    using base64_char(2,3) [OF base64_index(1)] base64_char(2,3) [OF base64_index(2)]
      base64_char(2,3) [OF base64_index(3)] base64_char(2,3) [OF base64_index(4)]
    by (auto simp: base64_chunk_def Let_def graphic_def)
  with 1 show ?case by (auto simp: base64_encode.simps [of bs])
qed

lemma base64_encode_empty: "base64_encode bs = [] \<longleftrightarrow> bs = []"
  by (auto simp: base64_encode.simps [of bs] base64_chunk_def Let_def)

lemma length_base64_encode: "length (base64_encode bs) = 4 * ((length bs + 2) div 3)"
proof (induction bs rule: base64_encode.induct)
  case (1 bs)
  have "length (base64_chunk chunk) = 4" for chunk by (simp add: base64_chunk_def Let_def)
  moreover have "(length bs + 2) div 3 = Suc ((length bs - 3 + 2) div 3)" if "bs \<noteq> []"
    using that by (cases bs; cases "tl bs"; cases "tl (tl bs)") auto
  ultimately show ?case using 1 by (simp add: base64_encode.simps [of bs])
qed

lemma base64_decode_encode: "base64_decode (base64_encode bs) = Some bs" "base64_decode (base64_encode bs @ [10]) = Some bs"
proof -
  have "trim (base64_encode bs) = base64_encode bs" "trim (base64_encode bs @ [10]) = base64_encode bs"
    using base64_encode_graphic [of bs] by (simp_all add: trim_graphic trim_newline)
  then show "base64_decode (base64_encode bs) = Some bs" "base64_decode (base64_encode bs @ [10]) = Some bs"
    by (auto simp: base64_decode_def Let_def base64_loop_encode base64_encode_empty)
qed

end
