(* ===== verification/Relay_Errors.thy ===== *)
theory Relay_Errors
  imports Rust_Strings
begin

section \<open>The error hierarchy\<close>

text \<open>
  \<open>src/error.rs\<close>: one datatype per error enum, with the source's variants and fields. The payload
  of \<open>CryptoError::Snow\<close> is an error of the \<open>snow\<close> crate, a type parameter here; an I/O error is
  its \<open>ErrorKind\<close>. \<open>protocol_error_display\<close> is the \<open>Display\<close> text of \<open>ProtocolError\<close>, which the routers
  copy into \<open>RoutingError::HandlerFailed\<close>.
\<close>

datatype io_error_kind = UnexpectedEof | TimedOut | InvalidData | OtherIo nat

datatype TransportError =
    TransportIo io_error_kind
  | ConnectionClosed
  | Timeout
  | Oversized (oversized_actual: nat) (oversized_max: nat)
  | MalformedHeader bytes
  | NotConnected

datatype ProtocolError =
    FrameTooShort (short_expected: nat) (short_actual: nat)
  | PayloadTooLarge (too_large_actual: nat) (too_large_max: nat)
  | UnsupportedVersion u8 u8
  | UnknownMessageType u8
  | MalformedEnvelope bytes
  | UnexpectedDirection
  | ProtocolIo

definition protocol_error_from_io :: "io_error_kind \<Rightarrow> ProtocolError" where
  "protocol_error_from_io _ = ProtocolIo"

datatype ValidationError =
    InvalidField bytes bytes
  | ValidationPayloadTooLarge nat nat
  | TimestampSkew (skew_timestamp: u64) (skew_now: u64)
  | DuplicateMessageId u64
  | MissingCorrelationId

datatype AuthenticationError = InvalidToken | Unauthenticated | HandshakeTimeout | SessionExpired

datatype AuthorizationError = PermissionDenied bytes bytes | UnauthorizedPeer

datatype RoutingError =
    DestinationNotFound bytes
  | UnhandledMessageType u8
  | CorrelationNotFound u64
  | HandlerFailed bytes
  | ChannelClosed

datatype 'snow CryptoError =
    CryptoSnow 'snow
  | CryptoKey bytes
  | MacMismatch
  | DecryptionFailed

datatype ApplicationError =
    ServiceUnavailable bytes
  | Internal bytes
  | Custom (custom_code: u32) (custom_message: bytes)

datatype 'snow EchoMeshError =
    Transport TransportError
  | Protocol ProtocolError
  | Validation ValidationError
  | Authentication AuthenticationError
  | Authorization AuthorizationError
  | Routing RoutingError
  | Crypto "'snow CryptoError"
  | Application ApplicationError

record ErrorResponsePayload =
  err_code :: u32
  err_correlation_id :: u64
  err_message :: bytes

definition error_response_payload_new :: "u32 \<Rightarrow> u64 \<Rightarrow> bytes \<Rightarrow> ErrorResponsePayload" where
  "error_response_payload_new code correlation_id message =
     \<lparr>err_code = code, err_correlation_id = correlation_id, err_message = message\<rparr>"

fun protocol_error_display :: "ProtocolError \<Rightarrow> bytes" where
  "protocol_error_display (FrameTooShort e a) =
     lit ''frame too short: expected '' @ decimal e @ lit '' bytes, got '' @ decimal a"
| "protocol_error_display (PayloadTooLarge a m) =
     lit ''payload length '' @ decimal a @ lit '' exceeds maximum allowed size of '' @ decimal m
       @ lit '' bytes''"
| "protocol_error_display (UnsupportedVersion e a) =
     lit ''unsupported protocol version: expected '' @ decimal (unat e) @ lit '', got '' @ decimal (unat a)"
| "protocol_error_display (UnknownMessageType t) =
     lit ''unknown or invalid message type ID: '' @ decimal (unat t)"
| "protocol_error_display (MalformedEnvelope m) = lit ''malformed message envelope: '' @ m"
| "protocol_error_display UnexpectedDirection = lit ''unexpected message direction or role''"
| "protocol_error_display ProtocolIo = lit ''general I/O protocol error''"

end
