(* ===== verification/Key_Files.thy ===== *)
theory Key_Files
  imports Base64 Relay_Errors
begin

section \<open>Keys and their files\<close>

text \<open>
  \<open>src/crypto/keys.rs\<close>: which file holds the relay's private key, how its contents are understood, and how a key pair
  is loaded or generated. The file system is explicit: files with their contents and permissions, directories, and the
  operations that the environment makes fail. Paths are lists of components, as \<open>std::path\<close> compares them, and name
  the same file only if they are equal: links and \<open>..\<close> are not resolved. An operation that fails changes nothing. The
  Diffie-Hellman function and the fresh key pairs come from the crate \<open>snow\<close> and are arguments. The lemmas show that
  a key is read back from every format, that a generated key pair is the one loaded afterwards, and that a key file
  with the name of the public key's file is lost.
\<close>

subsection \<open>Paths\<close>

text \<open>An absolute path has its root; a relative path may start with the component \<open>.\<close>, which is dropped elsewhere.\<close>

datatype path = Path (is_absolute: bool) (parts: "bytes list")

fun split_on :: "u8 \<Rightarrow> bytes \<Rightarrow> bytes list" where
  "split_on c [] = [[]]"
| "split_on c (b # bs) =
     (if b = c then [] # split_on c bs else (case split_on c bs of p # ps \<Rightarrow> (b # p) # ps | [] \<Rightarrow> [[b]]))"

definition path_from :: "bytes \<Rightarrow> path" where
  "path_from s =
     (let comps = filter (\<lambda>c. c \<noteq> []) (split_on 47 s); absolute = (s \<noteq> [] \<and> hd s = 47);
          rest = filter (\<lambda>c. c \<noteq> [46]) comps in
      Path absolute (if \<not> absolute \<and> comps \<noteq> [] \<and> hd comps = [46] then [46] # rest else rest))"

definition path_parent :: "path \<Rightarrow> path option" where
  "path_parent p = (if parts p = [] then None else Some (Path (is_absolute p) (butlast (parts p))))"

abbreviation empty_path :: path where "empty_path \<equiv> Path False []"

definition path_join :: "path \<Rightarrow> bytes \<Rightarrow> path" where
  "path_join p name = Path (is_absolute p) (parts p @ [name])"

definition file_name :: "path \<Rightarrow> bytes option" where
  "file_name p = (if parts p = [] \<or> last (parts p) \<in> {[46], [46, 46]} then None else Some (last (parts p)))"

text \<open>The part of a file name before its last dot, unless that is empty.\<close>

definition file_stem :: "bytes \<Rightarrow> bytes" where
  "file_stem f =
     (let n = length (takeWhile (\<lambda>b. b \<noteq> 46) (rev f)); before = take (length f - n - 1) f in
      if n = length f \<or> before = [] then f else before)"

definition with_extension :: "bytes \<Rightarrow> path \<Rightarrow> path" where
  "with_extension ext p =
     (case file_name p of
        None \<Rightarrow> p
      | Some f \<Rightarrow> Path (is_absolute p) (butlast (parts p) @ [file_stem f @ [46] @ ext]))"

subsection \<open>The file system\<close>

record fs =
  files :: "path \<Rightarrow> (bytes \<times> nat) option"
  dirs :: "path \<Rightarrow> bool"
  umask_mode :: nat
  fault :: "path \<Rightarrow> io_error_kind option"

abbreviation NotFound :: io_error_kind where "NotFound \<equiv> OtherIo 2"
abbreviation NotADirectory :: io_error_kind where "NotADirectory \<equiv> OtherIo 20"
abbreviation IsADirectory :: io_error_kind where "IsADirectory \<equiv> OtherIo 21"

definition fs_exists :: "path \<Rightarrow> fs \<Rightarrow> bool" where
  "fs_exists p s = (files s p \<noteq> None \<or> dirs s p)"

definition fs_read :: "path \<Rightarrow> fs \<Rightarrow> (io_error_kind, bytes) result \<times> fs" where
  "fs_read p s =
     (case fault s p of
        Some e \<Rightarrow> (Err e, s)
      | None \<Rightarrow> (case files s p of
          Some (content, _) \<Rightarrow> (Ok content, s)
        | None \<Rightarrow> (Err (if dirs s p then IsADirectory else NotFound), s)))"

text \<open>Creating or truncating a file and writing it; the permissions \<open>mode\<close> only apply to a new file.\<close>

definition fs_write :: "nat \<Rightarrow> path \<Rightarrow> bytes \<Rightarrow> fs \<Rightarrow> (io_error_kind, unit) result \<times> fs" where
  "fs_write mode p data s =
     (case fault s p of
        Some e \<Rightarrow> (Err e, s)
      | None \<Rightarrow>
          if dirs s p then (Err IsADirectory, s)
          else if (case path_parent p of None \<Rightarrow> True | Some q \<Rightarrow> q \<noteq> empty_path \<and> \<not> dirs s q) then (Err NotFound, s)
          else (Ok (), s\<lparr>files := (files s)(p \<mapsto> (data, case files s p of Some (_, m) \<Rightarrow> m | None \<Rightarrow> mode))\<rparr>))"

definition set_permissions :: "nat \<Rightarrow> path \<Rightarrow> fs \<Rightarrow> (io_error_kind, unit) result \<times> fs" where
  "set_permissions mode p s =
     (case fault s p of
        Some e \<Rightarrow> (Err e, s)
      | None \<Rightarrow> (case files s p of
          Some (content, _) \<Rightarrow> (Ok (), s\<lparr>files := (files s)(p \<mapsto> (content, mode))\<rparr>)
        | None \<Rightarrow> (if dirs s p then Ok () else Err NotFound, s)))"

definition prefixes_of :: "path \<Rightarrow> path list" where
  "prefixes_of p = map (\<lambda>n. Path (is_absolute p) (take n (parts p))) [1..<Suc (length (parts p))]"

definition create_dir_all :: "path \<Rightarrow> fs \<Rightarrow> (io_error_kind, unit) result \<times> fs" where
  "create_dir_all p s =
     (case fault s p of
        Some e \<Rightarrow> (Err e, s)
      | None \<Rightarrow>
          if list_ex (\<lambda>q. files s q \<noteq> None) (prefixes_of p) then (Err NotADirectory, s)
          else (Ok (), s\<lparr>dirs := (\<lambda>q. dirs s q \<or> q \<in> set (prefixes_of p))\<rparr>))"

text \<open>\<open>let _ = \<dots>\<close>: the result of an operation is ignored.\<close>

definition io_ignore :: "('s \<Rightarrow> ('e, 'a) result \<times> 's) \<Rightarrow> 's \<Rightarrow> ('f, unit) result \<times> 's" where
  "io_ignore m s = (case m s of (Panic, s1) \<Rightarrow> (Panic, s1) | (_, s1) \<Rightarrow> (Ok (), s1))"

subsection \<open>Key material\<close>

datatype 's KeyError = KeyIo io_error_kind | KeySnow 's | InvalidKey bytes

text \<open>\<open>snow\<close>'s X25519 implementation, if the resolver has one, and the error for its absence.\<close>

record 's resolver =
  curve25519 :: "(bytes \<Rightarrow> bytes) option"
  get_dh_impl :: 's

definition derive_public_key :: "'s resolver \<Rightarrow> bytes \<Rightarrow> ('s, bytes) result" where
  "derive_public_key R private_key =
     (if length private_key \<noteq> 32 then Err (get_dh_impl R)
      else (case curve25519 R of None \<Rightarrow> Err (get_dh_impl R) | Some pubkey \<Rightarrow> Ok (pubkey private_key)))"

record KeyPair =
  kp_private_key :: bytes
  kp_public_key :: bytes
  kp_public_key_base64 :: bytes
  kp_key_path :: path
  kp_pub_path :: path

definition is_ascii_hexdigit :: "u8 \<Rightarrow> bool" where
  "is_ascii_hexdigit b \<longleftrightarrow> (48 \<le> b \<and> b \<le> 57) \<or> (65 \<le> b \<and> b \<le> 70) \<or> (97 \<le> b \<and> b \<le> 102)"

definition parse_private_key_bytes :: "bytes \<Rightarrow> ('s KeyError, bytes) result" where
  "parse_private_key_bytes raw =
     (if length raw = 32 then Ok raw
      else
        let text = trim (from_utf8_lossy raw);
            try_base64 = (case base64_decode text of
                Some decoded \<Rightarrow> if length decoded = 32 then Ok decoded else Err ()
              | None \<Rightarrow> Err ());
            invalid = Err (InvalidKey (lit ''expected 32 bytes (raw, 64-char hex, or base64), got ''
              @ decimal (length raw) @ lit '' bytes'')) in
        case (if length text = 64 \<and> list_all is_ascii_hexdigit text
              then (case hex_decode text of
                  Panic \<Rightarrow> Panic
                | Ok decoded \<Rightarrow> if length decoded = 32 then Ok decoded else try_base64
                | Err _ \<Rightarrow> try_base64)
              else try_base64) of
          Panic \<Rightarrow> Panic
        | Ok decoded \<Rightarrow> Ok decoded
        | Err _ \<Rightarrow> invalid)"

subsection \<open>Which files\<close>

definition DEFAULT_KEY_FILE :: bytes where "DEFAULT_KEY_FILE = lit ''/etc/echomesh/relay.key''"
definition FALLBACK_KEY_FILE :: bytes where "FALLBACK_KEY_FILE = lit ''./relay.key''"

definition default_key_path :: "fs \<Rightarrow> path" where
  "default_key_path s =
     (let etc_key = path_from DEFAULT_KEY_FILE in
      if fs_exists etc_key s then etc_key
      else (case path_parent etc_key of
          Some parent \<Rightarrow> if dirs s parent then etc_key else path_from FALLBACK_KEY_FILE
        | None \<Rightarrow> path_from FALLBACK_KEY_FILE))"

definition strip_prefix :: "bytes \<Rightarrow> bytes \<Rightarrow> bytes option" where
  "strip_prefix pre s = (if take (length pre) s = pre then Some (drop (length pre) s) else None)"

fun parse_key_file_arg :: "bytes list \<Rightarrow> path option" where
  "parse_key_file_arg [] = None"
| "parse_key_file_arg (a # args) =
     (if a = lit ''--key-file'' \<and> args \<noteq> [] then Some (path_from (hd args))
      else (case strip_prefix (lit ''--key-file='') a of
          Some p \<Rightarrow> Some (path_from p)
        | None \<Rightarrow> parse_key_file_arg args))"

text \<open>\<open>env\<close> is the variable \<open>ECHOMESH_KEY_FILE\<close>.\<close>

definition resolve_key_file_path :: "bytes list \<Rightarrow> bytes option \<Rightarrow> fs \<Rightarrow> path" where
  "resolve_key_file_path args env s =
     (case parse_key_file_arg args of
        Some cli_path \<Rightarrow> cli_path
      | None \<Rightarrow>
          (case env of
             Some v \<Rightarrow> if trim v \<noteq> [] then path_from (trim v) else default_key_path s
           | None \<Rightarrow> default_key_path s))"

definition beside :: "path \<Rightarrow> bytes \<Rightarrow> path" where
  "beside key_path name =
     (let parent = (case path_parent key_path of Some q \<Rightarrow> q | None \<Rightarrow> empty_path) in
      if parent = empty_path then Path False [name] else path_join parent name)"

definition derive_pubkey_path :: "path \<Rightarrow> path" where
  "derive_pubkey_path key_path = beside key_path (lit ''relay.pub'')"

definition derive_token_path :: "path \<Rightarrow> path" where
  "derive_token_path key_path =
     (let stem_token = with_extension (lit ''token'') key_path in
      if stem_token \<noteq> key_path then stem_token else beside key_path (lit ''relay.token''))"

definition derive_relay_json_path :: "path \<Rightarrow> path" where
  "derive_relay_json_path key_path =
     (let stem_json = with_extension (lit ''json'') key_path in
      if stem_json \<noteq> key_path then stem_json else beside key_path (lit ''relay.json''))"

subsection \<open>Loading and generating\<close>

text \<open>\<open>0o600\<close> is 384.\<close>

definition write_private_key_file :: "path \<Rightarrow> bytes \<Rightarrow> fs \<Rightarrow> ('s KeyError, unit) result \<times> fs" where
  "write_private_key_file key_path private_key =
     io_then (\<lambda>s. (case path_parent key_path of
         Some parent \<Rightarrow> if parent \<noteq> empty_path \<and> \<not> fs_exists parent s then io_err KeyIo (create_dir_all parent) s else (Ok (), s)
       | None \<Rightarrow> (Ok (), s))) (\<lambda>_.
     io_then (io_err KeyIo (fs_write 384 key_path private_key)) (\<lambda>_.
     io_ignore (set_permissions 384 key_path)))"

definition write_public_key_file :: "path \<Rightarrow> path \<Rightarrow> bytes \<Rightarrow> fs \<Rightarrow> ('s KeyError, unit) result \<times> fs" where
  "write_public_key_file key_path pub_path public_key_base64 s =
     (let content = public_key_base64 @ [10]; stem_pub = with_extension (lit ''pub'') key_path in
      io_then (io_err KeyIo (fs_write (umask_mode s) pub_path content)) (\<lambda>_ s.
        if stem_pub \<noteq> pub_path then io_ignore (fs_write (umask_mode s) stem_pub content) s else (Ok (), s)) s)"

definition key_pair :: "path \<Rightarrow> bytes \<Rightarrow> bytes \<Rightarrow> KeyPair" where
  "key_pair key_path private_key public_key =
     \<lparr>kp_private_key = private_key, kp_public_key = public_key, kp_public_key_base64 = base64_encode public_key,
      kp_key_path = key_path, kp_pub_path = derive_pubkey_path key_path\<rparr>"

text \<open>\<open>generated\<close> is the result of \<open>generate_keypair()\<close>, the private and the public key.\<close>

definition load_or_generate_keypair ::
    "'s resolver \<Rightarrow> ('s, bytes \<times> bytes) result \<Rightarrow> path \<Rightarrow> fs \<Rightarrow> ('s KeyError, KeyPair) result \<times> fs" where
  "load_or_generate_keypair R generated key_path s =
     (let pub_path = derive_pubkey_path key_path in
      if fs_exists key_path s then
        io_then (io_err KeyIo (fs_read key_path)) (\<lambda>raw.
        io_then (io_lift (parse_private_key_bytes raw)) (\<lambda>private_key.
        io_then (io_lift (map_err KeySnow (derive_public_key R private_key))) (\<lambda>public_key.
        io_then (io_ignore (write_public_key_file key_path pub_path (base64_encode public_key) :: fs \<Rightarrow> ('s KeyError, unit) result \<times> fs)) (\<lambda>_.
        io_lift (Ok (key_pair key_path private_key public_key)))))) s
      else
        io_then (io_lift (map_err KeySnow generated)) (\<lambda>(private_key, public_key).
        io_then (write_private_key_file key_path private_key) (\<lambda>_.
        io_then (write_public_key_file key_path pub_path (base64_encode public_key)) (\<lambda>_.
        io_lift (Ok (key_pair key_path private_key public_key))))) s)"

subsection \<open>Siblings\<close>

lemma beside_parent: "parts p \<noteq> [] \<Longrightarrow> path_parent (beside p name) = path_parent p"
  by (auto simp: beside_def path_parent_def path_join_def Let_def)

lemma with_extension_parent [simp]: "path_parent (with_extension ext p) = path_parent p"
  by (cases p) (auto simp: with_extension_def path_parent_def file_name_def split: option.splits)

lemma derive_pubkey_parent: "parts p \<noteq> [] \<Longrightarrow> path_parent (derive_pubkey_path p) = path_parent p"
  by (simp add: derive_pubkey_path_def beside_parent)

lemma derive_token_parent: "parts p \<noteq> [] \<Longrightarrow> path_parent (derive_token_path p) = path_parent p"
  by (simp add: derive_token_path_def beside_parent Let_def)

lemma derive_json_parent: "parts p \<noteq> [] \<Longrightarrow> path_parent (derive_relay_json_path p) = path_parent p"
  by (simp add: derive_relay_json_path_def beside_parent Let_def)

subsection \<open>Writing\<close>

text \<open>The directory of a path is there, or the path is relative to the current directory.\<close>

definition dir_ready :: "path \<Rightarrow> fs \<Rightarrow> bool" where
  "dir_ready p s \<longleftrightarrow> (case path_parent p of None \<Rightarrow> False | Some q \<Rightarrow> q = empty_path \<or> dirs s q)"

lemma dir_ready_files [simp]: "dir_ready p (s\<lparr>files := f\<rparr>) = dir_ready p s"
  by (simp add: dir_ready_def split: option.split)

definition put_file :: "nat \<Rightarrow> path \<Rightarrow> bytes \<Rightarrow> fs \<Rightarrow> fs" where
  "put_file mode p data s = s\<lparr>files := (files s)(p \<mapsto> (data, case files s p of Some (_, m) \<Rightarrow> m | None \<Rightarrow> mode))\<rparr>"

lemma put_file_simps [simp]:
  "dirs (put_file m p d s) = dirs s" "fault (put_file m p d s) = fault s" "umask_mode (put_file m p d s) = umask_mode s"
  "files (put_file m p d s) q = (if q = p then Some (d, case files s p of Some (_, m') \<Rightarrow> m' | None \<Rightarrow> m) else files s q)"
  "dir_ready q (put_file m p d s) = dir_ready q s"
  by (simp_all add: put_file_def dir_ready_def split: option.split)

lemma fs_write_Ok:
  "fault s p = None \<Longrightarrow> \<not> dirs s p \<Longrightarrow> dir_ready p s \<Longrightarrow> fs_write m p d s = (Ok (), put_file m p d s)"
  by (auto simp: fs_write_def put_file_def dir_ready_def split: option.splits)

text \<open>Writing what a file already holds changes nothing.\<close>

lemma put_file_same: "files s p = Some (d, m') \<Longrightarrow> put_file m p d s = s"
  by (cases s) (auto simp: put_file_def fun_upd_idem)

lemma write_public_key_file_Ok:
  assumes "\<forall>p. fault s p = None" "parts key \<noteq> []" "dir_ready key s" "pub_path = derive_pubkey_path key"
    and "\<not> dirs s pub_path" "\<not> dirs s (with_extension (lit ''pub'') key)"
  shows "write_public_key_file key pub_path b64 s = (Ok (),
    (let s1 = put_file (umask_mode s) pub_path (b64 @ [10]) s; stem = with_extension (lit ''pub'') key in
     if stem \<noteq> pub_path then put_file (umask_mode s) stem (b64 @ [10]) s1 else s1))"
proof -
  have "dir_ready pub_path s" "dir_ready (with_extension (lit ''pub'') key) s"
    using assms(2-4) derive_pubkey_parent [OF assms(2)] by (simp_all add: dir_ready_def)
  then show ?thesis
    using assms(1,5,6) by (simp add: write_public_key_file_def Let_def io_then_def io_err_def io_ignore_def fs_write_Ok)
qed

text \<open>The key file is created, or its directories are, with permissions for the owner only.\<close>

definition can_create :: "path \<Rightarrow> fs \<Rightarrow> bool" where
  "can_create p s \<longleftrightarrow> (\<forall>q. fault s q = None) \<and> \<not> fs_exists p s \<and> dirs s (Path True [])
     \<and> (case path_parent p of
          None \<Rightarrow> False
        | Some q \<Rightarrow> q = empty_path \<or> dirs s q \<or> (\<not> fs_exists q s \<and> (\<forall>r \<in> set (prefixes_of q). files s r = None \<and> r \<noteq> p)))"

lemma prefixes_of_self: "parts p \<noteq> [] \<Longrightarrow> p \<in> set (prefixes_of p)"
  by (cases p) (auto simp: prefixes_of_def Suc_le_eq intro!: image_eqI [of _ _ "length (parts p)"])

lemma prefixes_of_length: "r \<in> set (prefixes_of q) \<Longrightarrow> length (parts r) \<le> length (parts q)"
  by (auto simp: prefixes_of_def)

lemma parent_length: "path_parent r = Some q \<Longrightarrow> length (parts r) = Suc (length (parts q))"
  by (auto simp: path_parent_def split: if_splits)

lemma write_private_key_file_Ok:
  assumes "can_create key s"
  obtains s1 where "write_private_key_file key priv s = ((Ok () :: ('s KeyError, unit) result), s1)"
    "files s1 = (files s)(key \<mapsto> (priv, 384))" "fault s1 = fault s" "umask_mode s1 = umask_mode s" "dir_ready key s1" "\<not> dirs s1 key"
    "\<forall>q. path_parent q = path_parent key \<longrightarrow> dirs s1 q = dirs s q"
proof -
  obtain q where q: "path_parent key = Some q" using assms(1) by (auto simp: can_create_def split: option.splits)
  have new: "files s key = None" "\<not> dirs s key" "\<And>p. fault s p = None"
    using assms(1) by (cases "files s key"; simp add: can_create_def fs_exists_def)+
  show thesis
  proof (cases "q = empty_path \<or> fs_exists q s")
    case True
    then have ready: "dir_ready key s" using assms(1) q by (auto simp: can_create_def dir_ready_def)
    then have "write_private_key_file key priv s = (Ok (), s\<lparr>files := (files s)(key \<mapsto> (priv, 384))\<rparr>)"
      using True q new by (auto simp: write_private_key_file_def io_then_def io_err_def io_ignore_def fs_write_Ok set_permissions_def put_file_def)
    then show thesis using that [of "s\<lparr>files := (files s)(key \<mapsto> (priv, 384))\<rparr>"] new ready by simp
  next
    case False
    let ?s = "s\<lparr>dirs := (\<lambda>r. dirs s r \<or> r \<in> set (prefixes_of q))\<rparr>"
    have pre: "\<forall>r \<in> set (prefixes_of q). files s r = None \<and> r \<noteq> key" using False assms(1) q by (auto simp: can_create_def fs_exists_def)
    then have create: "create_dir_all q s = (Ok (), ?s)"
      using new by (auto simp: create_dir_all_def list_ex_iff)
    have "q \<in> set (prefixes_of q) \<or> dirs s q"
    proof (cases "parts q = []")
      case True
      with q assms False show ?thesis by (cases q) (auto simp: can_create_def)
    qed (simp add: prefixes_of_self)
    then have ready: "dir_ready key ?s" using q by (auto simp: dir_ready_def)
    have nk: "\<not> dirs ?s key" using new pre by auto
    have sib: "r \<notin> set (prefixes_of q)" if "path_parent r = Some q" for r
      using prefixes_of_length [of r q] parent_length [OF that] by auto
    have "write_private_key_file key priv s = (Ok (), ?s\<lparr>files := (files s)(key \<mapsto> (priv, 384))\<rparr>)"
      using False q new create ready nk
      by (simp add: write_private_key_file_def io_then_def io_err_def io_ignore_def fs_write_Ok set_permissions_def put_file_def)
    then show thesis using that [of "?s\<lparr>files := (files s)(key \<mapsto> (priv, 384))\<rparr>"] new nk ready q sib by simp
  qed
qed


subsection \<open>Loading what was generated\<close>

text \<open>The private key's file is none of the files for the public key.\<close>

definition key_kept :: "path \<Rightarrow> bool" where
  "key_kept key \<longleftrightarrow> parts key \<noteq> [] \<and> key \<noteq> derive_pubkey_path key \<and> key \<noteq> with_extension (lit ''pub'') key"

lemma parse_private_key_raw: "length raw = 32 \<Longrightarrow> parse_private_key_bytes raw = Ok raw"
  by (simp add: parse_private_key_bytes_def)

definition public_files :: "path \<Rightarrow> bytes \<Rightarrow> fs \<Rightarrow> fs" where
  "public_files key public_key s =
    (let content = base64_encode public_key @ [10]; s1 = put_file (umask_mode s) (derive_pubkey_path key) content s;
         stem = with_extension (lit ''pub'') key in
     if stem \<noteq> derive_pubkey_path key then put_file (umask_mode s) stem content s1 else s1)"

lemma public_files_simps [simp]:
  "dirs (public_files key pk s) = dirs s" "fault (public_files key pk s) = fault s" "umask_mode (public_files key pk s) = umask_mode s"
  "dir_ready q (public_files key pk s) = dir_ready q s"
  "q \<noteq> derive_pubkey_path key \<Longrightarrow> q \<noteq> with_extension (lit ''pub'') key \<Longrightarrow> files (public_files key pk s) q = files s q"
  by (simp_all add: public_files_def Let_def)

lemma public_files_twice: "public_files key pk (public_files key pk s) = public_files key pk s"
  by (auto simp: public_files_def Let_def put_file_def fun_eq_iff split: option.split)

lemma load_keypair:
  assumes "\<forall>p. fault s p = None" "key_kept key" "dir_ready key s" "\<not> dirs s (derive_pubkey_path key)"
    "\<not> dirs s (with_extension (lit ''pub'') key)"
    and "files s key = Some (raw, mode)" "parse_private_key_bytes raw = (Ok priv :: ('s KeyError, bytes) result)"
    and "derive_public_key R priv = Ok pub"
  shows "load_or_generate_keypair (R :: 's resolver) generated key s = (Ok (key_pair key priv pub), public_files key pub s)"
  using assms(6-) write_public_key_file_Ok [OF assms(1) _ assms(3) refl assms(4,5), of "base64_encode pub", where ?'a = 's] assms(1,2)
  by (simp add: load_or_generate_keypair_def fs_exists_def fs_read_def io_then_def io_err_def io_lift_def io_ignore_def key_kept_def
      public_files_def Let_def)

lemma generate_keypair_files:
  assumes "can_create key s" "key_kept key" "\<not> dirs s (derive_pubkey_path key)" "\<not> dirs s (with_extension (lit ''pub'') key)"
  obtains s1 where "load_or_generate_keypair (R :: 's resolver) (Ok (priv, pub)) key s = (Ok (key_pair key priv pub), public_files key pub s1)"
    "files s1 = (files s)(key \<mapsto> (priv, 384))" "fault s1 = fault s" "umask_mode s1 = umask_mode s" "dir_ready key s1" "\<not> dirs s1 key"
    "\<forall>q. path_parent q = path_parent key \<longrightarrow> dirs s1 q = dirs s q"
proof -
  obtain s1 where s1: "write_private_key_file key priv s = ((Ok () :: ('s KeyError, unit) result), s1)"
    "files s1 = (files s)(key \<mapsto> (priv, 384))" "fault s1 = fault s" "umask_mode s1 = umask_mode s" "dir_ready key s1" "\<not> dirs s1 key"
    "\<forall>q. path_parent q = path_parent key \<longrightarrow> dirs s1 q = dirs s q"
    by (rule write_private_key_file_Ok [OF assms(1), of priv, where ?'s = 's])
  have "parts key \<noteq> []" using assms(2) by (simp add: key_kept_def)
  then have nd: "\<not> dirs s1 (derive_pubkey_path key)" "\<not> dirs s1 (with_extension (lit ''pub'') key)"
    using assms(3,4) s1(7) derive_pubkey_parent by simp_all
  have "\<forall>p. fault s1 p = None" "\<not> fs_exists key s" using assms(1) s1(3) by (simp_all add: can_create_def)
  then have "load_or_generate_keypair R (Ok (priv, pub)) key s = (Ok (key_pair key priv pub), public_files key pub s1)"
    using s1(1) write_public_key_file_Ok [OF _ \<open>parts key \<noteq> []\<close> s1(5) refl nd, of "base64_encode pub", where ?'a = 's]
    by (simp add: load_or_generate_keypair_def io_then_def io_lift_def public_files_def Let_def)
  then show thesis using that s1(2-7) by blast
qed


subsection \<open>Formats\<close>

lemma graphic_lossy: "\<forall>b \<in> set bs. graphic b \<or> b = 10 \<Longrightarrow> from_utf8_lossy bs = bs"
  by (intro from_utf8_lossy_valid utf8_valid_ascii) (auto simp: graphic_def)

lemma hex_digit_is_hexdigit: "d < 16 \<Longrightarrow> is_ascii_hexdigit (hex_digit d)"
proof -
  have "\<forall>d \<in> set [0..<16]. is_ascii_hexdigit (hex_digit d)" by code_simp
  then show "d < 16 \<Longrightarrow> is_ascii_hexdigit (hex_digit d)" by simp
qed

lemma hex_encode_hexdigits: "list_all is_ascii_hexdigit (hex_encode bs)"
proof -
  have "unat b div 16 < 16" for b :: u8 using unat_less_width(1) [of b] by simp
  then show ?thesis by (induction bs) (auto simp: hex_encode_def hex_digit_is_hexdigit)
qed

lemma parse_private_key_text:
  assumes "length k = 32" "t = hex_encode k \<or> t = base64_encode k" "raw = t \<or> raw = t @ [10]"
  shows "parse_private_key_bytes raw = Ok k"
proof -
  have g: "\<forall>b \<in> set t. graphic b"
    using assms(2) hex_encode_graphic [of k] base64_encode_graphic [of k] by auto
  then have t: "trim (from_utf8_lossy raw) = t"
    using assms(3) graphic_lossy [of raw] by (auto simp: trim_graphic trim_newline)
  have len: "length (hex_encode k) = 64" "length (base64_encode k) = 44" using assms(1) by (simp_all add: length_base64_encode)
  then have "length raw \<noteq> 32" using assms(2,3) by auto
  moreover have "hex_decode (hex_encode k) = Ok k" by (simp add: hex_decode_def trim_graphic hex_encode_graphic hex_pairs_encode)
  ultimately show ?thesis
    using assms(1,2) t len hex_encode_hexdigits [of k] base64_decode_encode(1) [of k]
    by (elim disjE) (simp_all add: parse_private_key_bytes_def Let_def)
qed

subsection \<open>Properties\<close>

text \<open>Every format a key may be stored in is read back: the 32 raw bytes, their hexadecimal and their base64 form,
  with or without a final newline.\<close>

theorem private_key_formats:
  assumes "length k = 32" "raw \<in> {k, hex_encode k, hex_encode k @ [10], base64_encode k, base64_encode k @ [10]}"
  shows "parse_private_key_bytes raw = Ok k"
  using parse_private_key_raw [OF assms(1)] parse_private_key_text [OF assms(1)] assms(2) by auto

theorem private_key_formats_witness: "parse_private_key_bytes (base64_encode (replicate 32 200) @ [10]) = Ok (replicate 32 200)"
  by (rule private_key_formats) simp_all

text \<open>A generated key is the relay's key from then on. If the key file does not exist and is not one of the files
  for the public key, generation stores the private key with permissions for the owner only, and every later start loads
  the same key pair and changes nothing.\<close>

theorem key_file_stable:
  assumes "can_create key s" "key_kept key" "\<not> dirs s (derive_pubkey_path key)" "\<not> dirs s (with_extension (lit ''pub'') key)"
    and "derive_public_key R priv = Ok pub"
  shows "\<exists>s1. load_or_generate_keypair R (Ok (priv, pub)) key s = (Ok (key_pair key priv pub), s1)
    \<and> files s1 key = Some (priv, 384)
    \<and> (\<forall>generated. load_or_generate_keypair R generated key s1 = (Ok (key_pair key priv pub), s1))"
proof -
  obtain s1 where s1: "load_or_generate_keypair R (Ok (priv, pub)) key s = (Ok (key_pair key priv pub), public_files key pub s1)"
    "files s1 = (files s)(key \<mapsto> (priv, 384))" "fault s1 = fault s" "umask_mode s1 = umask_mode s" "dir_ready key s1" "\<not> dirs s1 key"
    "\<forall>q. path_parent q = path_parent key \<longrightarrow> dirs s1 q = dirs s q"
    by (rule generate_keypair_files [OF assms(1-4)])
  have kept: "parts key \<noteq> []" "files (public_files key pub s1) key = Some (priv, 384)"
    using assms(2) s1(2) by (simp_all add: key_kept_def)
  have "length priv = 32" using assms(5) by (auto simp: derive_public_key_def split: if_splits)
  then have "load_or_generate_keypair R generated key (public_files key pub s1)
      = (Ok (key_pair key priv pub), public_files key pub (public_files key pub s1))" for generated
    using load_keypair [OF _ assms(2) _ _ _ kept(2) parse_private_key_raw assms(5)] assms(1,3,4) s1(3,5,7) derive_pubkey_parent [OF kept(1)]
    by (simp add: can_create_def)
  then show ?thesis using s1(1) kept(2) by (intro exI [of _ "public_files key pub s1"]) (simp add: public_files_twice)
qed

definition sample_fs :: fs where
  "sample_fs = \<lparr>files = Map.empty, dirs = (\<lambda>p. p = Path True []), umask_mode = 420, fault = (\<lambda>_. None)\<rparr>"

definition sample_resolver :: "unit resolver" where
  "sample_resolver = \<lparr>curve25519 = Some (map (\<lambda>b. b + 1)), get_dh_impl = ()\<rparr>"

lemma sample_can_create:
  assumes "key = Path True [lit ''etc'', f]" shows "can_create key sample_fs"
  unfolding assms by (auto simp: can_create_def sample_fs_def fs_exists_def path_parent_def prefixes_of_def)

theorem key_file_stable_witness:
  "\<exists>s1. load_or_generate_keypair sample_resolver (Ok (replicate 32 7, replicate 32 8)) (Path True [lit ''etc'', lit ''relay.key'']) sample_fs
      = (Ok (key_pair (Path True [lit ''etc'', lit ''relay.key'']) (replicate 32 7) (replicate 32 8)), s1)
    \<and> files s1 (Path True [lit ''etc'', lit ''relay.key'']) = Some (replicate 32 7, 384)"
proof -
  let ?key = "Path True [lit ''etc'', lit ''relay.key'']"
  have "key_kept ?key" by code_simp
  moreover have "\<not> dirs sample_fs (derive_pubkey_path ?key)" "\<not> dirs sample_fs (with_extension (lit ''pub'') ?key)" by code_simp+
  moreover have "derive_public_key sample_resolver (replicate 32 7) = Ok (replicate 32 8)"
    by (simp add: derive_public_key_def sample_resolver_def)
  ultimately show ?thesis using key_file_stable [OF sample_can_create [OF refl]] by blast
qed

text \<open>A key file with the name of the public key's file is lost. If the private key's path is \<open>relay.pub\<close> in its
  directory, the freshly generated private key is overwritten with the public key, and the next start takes the public
  key, which every client knows, as its private key.\<close>

theorem public_key_replaces_private:
  assumes "can_create key s" "file_name key = Some (lit ''relay.pub'')" "curve25519 (R :: 's resolver) = Some dh" "length (dh priv) = 32"
  shows "\<exists>s1 s2. load_or_generate_keypair (R :: 's resolver) (Ok (priv, dh priv)) key s = (Ok (key_pair key priv (dh priv)), s1)
    \<and> load_or_generate_keypair R generated key s1 = (Ok (key_pair key (dh priv) (dh (dh priv))), s2)"
proof -
  obtain a ps where ps: "key = Path a ps" "ps \<noteq> []" "last ps = lit ''relay.pub''"
    using assms(2) by (cases key) (auto simp: file_name_def split: if_splits)
  obtain dir where key: "key = Path a (dir @ [lit ''relay.pub''])"
    using append_butlast_last_id [OF ps(2)] ps(1,3) by metis
  then have parts: "parts key \<noteq> []" by simp
  have stem: "file_stem (lit ''relay.pub'') @ [46] @ lit ''pub'' = lit ''relay.pub''" by code_simp
  have same: "derive_pubkey_path key = key" "with_extension (lit ''pub'') key = key"
    unfolding with_extension_def assms(2) option.case stem
    by (auto simp: derive_pubkey_path_def beside_def path_parent_def path_join_def Let_def key)
  obtain s1 where s1: "write_private_key_file key priv s = ((Ok () :: ('s KeyError, unit) result), s1)"
    "files s1 = (files s)(key \<mapsto> (priv, 384))" "fault s1 = fault s" "dir_ready key s1" "\<not> dirs s1 key"
    by (rule write_private_key_file_Ok [OF assms(1), of priv, where ?'s = 's])
  have nofault: "\<forall>p. fault s1 p = None" "\<not> fs_exists key s" using assms(1) s1(3) by (simp_all add: can_create_def)
  let ?pk = "base64_encode (dh priv)"
  let ?s2 = "put_file (umask_mode s1) key (?pk @ [10]) s1"
  have w: "write_public_key_file key (derive_pubkey_path key) b t = ((Ok () :: ('s KeyError, unit) result), put_file (umask_mode t) key (b @ [10]) t)"
    if "fault t = fault s1" "dir_ready key t" "dirs t = dirs s1" for b t
    using write_public_key_file_Ok [OF _ parts that(2) refl, of b] that s1(5) nofault same by simp
  have one: "load_or_generate_keypair R (Ok (priv, dh priv)) key s = (Ok (key_pair key priv (dh priv)), ?s2)"
    using nofault(2) s1(1) w [OF refl s1(4) refl]
    by (simp add: load_or_generate_keypair_def io_then_def io_lift_def)
  have "files ?s2 key = Some (?pk @ [10], 384)" using s1(2) by simp
  moreover have "parse_private_key_bytes (?pk @ [10]) = (Ok (dh priv) :: ('s KeyError, bytes) result)"
    using parse_private_key_text [OF assms(4)] by blast
  moreover have "derive_public_key R (dh priv) = Ok (dh (dh priv))" using assms(3,4) by (simp add: derive_public_key_def)
  ultimately have "\<exists>s2. load_or_generate_keypair R generated key ?s2 = (Ok (key_pair key (dh priv) (dh (dh priv))), s2)"
    using nofault(1) w [of ?s2] s1(4)
    by (simp add: load_or_generate_keypair_def fs_exists_def fs_read_def io_then_def io_err_def io_lift_def io_ignore_def)
  with one show ?thesis by blast
qed

theorem public_key_replaces_private_witness:
  "\<exists>s1 s2. load_or_generate_keypair sample_resolver (Ok (replicate 32 7, map (\<lambda>b. b + 1) (replicate 32 7))) (Path True [lit ''etc'', lit ''relay.pub'']) sample_fs
      = (Ok (key_pair (Path True [lit ''etc'', lit ''relay.pub'']) (replicate 32 7) (map (\<lambda>b. b + 1) (replicate 32 7))), s1)
    \<and> load_or_generate_keypair sample_resolver (Err ()) (Path True [lit ''etc'', lit ''relay.pub'']) s1
      = (Ok (key_pair (Path True [lit ''etc'', lit ''relay.pub'']) (map (\<lambda>b. b + 1) (replicate 32 7)) (map (\<lambda>b. b + 1) (map (\<lambda>b. b + 1) (replicate 32 7)))), s2)"
proof (rule public_key_replaces_private [OF sample_can_create [OF refl]])
  show "file_name (Path True [lit ''etc'', lit ''relay.pub'']) = Some (lit ''relay.pub'')" by code_simp
qed (simp_all add: sample_resolver_def)

end
