(* ===== verification/Wire_Codec.thy ===== *)
theory Wire_Codec
  imports Relay_Prelude
begin

section \<open>The contract of a wire codec\<close>

text \<open>
  What the layers of the protocol rely on when they call the encoder and the decoder of the layer below
  (frames, envelopes, typed messages, framed transports). \<open>wire_codec\<close> is the sender's half of the contract:
  every admissible value has an encoding, and the encoding decodes to the value. \<open>total_codec\<close> adds the
  receiver's half, for bytes that come from anybody: decoding never panics and returns admissible values only.
\<close>

locale wire_codec =
  fixes encode :: "'a \<Rightarrow> ('e, bytes) result"
    and decode :: "bytes \<Rightarrow> ('f, 'a) result"
    and valid :: "'a \<Rightarrow> bool"
  assumes encode_defined: "valid x \<Longrightarrow> \<exists>bs. encode x = Ok bs"
    and decode_encode: "valid x \<Longrightarrow> encode x = Ok bs \<Longrightarrow> decode bs = Ok x"
begin

lemma roundtrip: "valid x \<Longrightarrow> and_then (map_err (\<lambda>_. e) (encode x)) (\<lambda>bs. map_err (\<lambda>_. e) (decode bs)) = Ok x"
  using encode_defined [of x] decode_encode [of x] by auto

lemma encode_injective: "valid x \<Longrightarrow> valid y \<Longrightarrow> encode x = encode y \<Longrightarrow> x = y"
  using encode_defined [of x] decode_encode [of x] decode_encode [of y] by auto

end

locale total_codec = wire_codec +
  assumes decode_no_panic: "decode bs \<noteq> Panic"
    and decode_valid: "decode bs = Ok x \<Longrightarrow> valid x"
begin

lemma decode_cases:
  obtains (accepted) x where "decode bs = Ok x" "valid x" | (rejected) e where "decode bs = Err e"
  using decode_no_panic [of bs] decode_valid [of bs] by (cases "decode bs") auto

text \<open>Re-encoding an accepted input gives a canonical encoding of the same value.\<close>

lemma decode_canonical: "decode bs = Ok x \<Longrightarrow> \<exists>cs. encode x = Ok cs \<and> decode cs = Ok x"
  using decode_valid [of bs x] encode_defined [of x] decode_encode [of x] by blast

end

end
