(* ===== verification/Frame.thy ===== *)
theory Frame
  imports Wire_Codec Relay_Errors
begin

section \<open>Fixed-size frames\<close>

text \<open>
  \<open>src/protocol/frame.rs\<close>: the 1420-byte wire frame, its constructor, the three parsers
  (\<open>Frame::from_slice\<close>, \<open>Frame::parse\<close>, \<open>FrameCodec::decode\<close> with \<open>decode_exact\<close> and \<open>decode_eof\<close>), the
  encoder, and the constant-time comparison. A function that takes \<open>&mut BytesMut\<close> returns the buffer it
  leaves behind next to its result. The lemmas show that the parsers agree and never panic, that an encoded
  frame has the fixed size whatever its payload, and that a stream of encoded frames decodes to the frames
  sent, however it is fragmented.
\<close>

subsection \<open>Constants and data\<close>

definition FRAME_SIZE :: nat where [frame_sizes]: "FRAME_SIZE = 1420"

definition SESSION_ID_SIZE :: nat where [frame_sizes]: "SESSION_ID_SIZE = 16"

definition NONCE_SIZE :: nat where [frame_sizes]: "NONCE_SIZE = 8"

definition PAYLOAD_LEN_SIZE :: nat where [frame_sizes]: "PAYLOAD_LEN_SIZE = 2"

definition HEADER_SIZE :: nat where
  [frame_sizes]: "HEADER_SIZE = SESSION_ID_SIZE + NONCE_SIZE + PAYLOAD_LEN_SIZE"

definition MAX_PAYLOAD_SIZE :: nat where [frame_sizes]: "MAX_PAYLOAD_SIZE = FRAME_SIZE - HEADER_SIZE"

record Frame =
  session_id :: bytes
  nonce :: bytes
  payload :: bytes

text \<open>The array types \<open>[u8; 16]\<close> and \<open>[u8; 8]\<close> of the fields, and the bound that \<open>Frame::new\<close> checks.\<close>

definition frame_typed :: "Frame \<Rightarrow> bool" where
  "frame_typed f \<longleftrightarrow> length (session_id f) = SESSION_ID_SIZE \<and> length (nonce f) = NONCE_SIZE"

definition wf_frame :: "Frame \<Rightarrow> bool" where
  "wf_frame f \<longleftrightarrow> frame_typed f \<and> length (payload f) \<le> MAX_PAYLOAD_SIZE"

subsection \<open>Construction and parsing\<close>

definition frame_new :: "bytes \<Rightarrow> bytes \<Rightarrow> bytes \<Rightarrow> (ProtocolError, Frame) result" where
  "frame_new sid n p =
     (if length p > MAX_PAYLOAD_SIZE then Err (PayloadTooLarge (length p) MAX_PAYLOAD_SIZE)
      else Ok \<lparr>session_id = sid, nonce = n, payload = p\<rparr>)"

text \<open>The reads the three parsers share: session id, nonce, checked payload length, rest of the frame.\<close>

definition read_header :: "bytes \<Rightarrow> (ProtocolError, bytes \<times> bytes \<times> nat \<times> bytes) result" where
  "read_header buf0 =
     and_then (slice_to SESSION_ID_SIZE buf0) (\<lambda>sid.
     and_then (advance SESSION_ID_SIZE buf0) (\<lambda>buf1.
     and_then (slice_to NONCE_SIZE buf1) (\<lambda>n.
     and_then (advance NONCE_SIZE buf1) (\<lambda>buf2.
     and_then (get_u16 buf2) (\<lambda>(w, buf3).
       let payload_len = unat w in
       if payload_len > MAX_PAYLOAD_SIZE then Err (PayloadTooLarge payload_len MAX_PAYLOAD_SIZE)
       else Ok (sid, n, payload_len, buf3))))))"

definition from_slice :: "bytes \<Rightarrow> (ProtocolError, Frame) result" where
  "from_slice src =
     (if length src < FRAME_SIZE then Err (FrameTooShort FRAME_SIZE (length src))
      else and_then (slice_to FRAME_SIZE src) (\<lambda>buf0.
           and_then (read_header buf0) (\<lambda>(sid, n, payload_len, buf).
           and_then (slice_to payload_len buf) (\<lambda>p.
             Ok \<lparr>session_id = sid, nonce = n, payload = p\<rparr>))))"

definition parse :: "bytes \<Rightarrow> (ProtocolError, Frame) result \<times> bytes" where
  "parse src =
     (if length src < FRAME_SIZE then (Err (FrameTooShort FRAME_SIZE (length src)), src)
      else (case split_to FRAME_SIZE src :: (unit, bytes \<times> bytes) result of
              Ok (frame_bytes, src') \<Rightarrow>
                (and_then (read_header frame_bytes) (\<lambda>(sid, n, payload_len, buf).
                 and_then (split_to payload_len buf) (\<lambda>(p, _).
                   Ok \<lparr>session_id = sid, nonce = n, payload = p\<rparr>)), src')
            | _ \<Rightarrow> (Panic, src)))"

fun ct_accumulate :: "u8 \<Rightarrow> (u8 \<times> u8) list \<Rightarrow> u8" where
  "ct_accumulate res [] = res"
| "ct_accumulate res ((x, y) # ps) = ct_accumulate (res OR (x XOR y)) ps"

definition constant_time_eq :: "bytes \<Rightarrow> bytes \<Rightarrow> bool" where
  "constant_time_eq a b = (if length a \<noteq> length b then False else ct_accumulate 0 (zip a b) = 0)"

definition session_id_eq :: "bytes \<Rightarrow> bytes \<Rightarrow> bool" where
  "session_id_eq a b = constant_time_eq a b"

subsection \<open>The codec\<close>

definition frame_encode :: "Frame \<Rightarrow> bytes \<Rightarrow> (ProtocolError, bytes) result" where
  "frame_encode item dst =
     (let payload_len = length (payload item) in
      if payload_len > MAX_PAYLOAD_SIZE then Err (PayloadTooLarge payload_len MAX_PAYLOAD_SIZE)
      else
        let dst1 = dst @ session_id item @ nonce item @ put_u16 (of_nat payload_len) @ payload item;
            padding_needed = MAX_PAYLOAD_SIZE - payload_len
        in Ok (if padding_needed > 0 then dst1 @ replicate padding_needed 0 else dst1))"

definition frame_decode :: "bytes \<Rightarrow> (ProtocolError, Frame option) result \<times> bytes" where
  "frame_decode src =
     (if length src < FRAME_SIZE then (Ok None, src)
      else (case split_to FRAME_SIZE src :: (unit, bytes \<times> bytes) result of
              Ok (frame_bytes, src') \<Rightarrow>
                (and_then (read_header frame_bytes) (\<lambda>(sid, n, payload_len, buf).
                 and_then (split_to payload_len buf) (\<lambda>(p, _).
                   Ok (Some \<lparr>session_id = sid, nonce = n, payload = p\<rparr>))), src')
            | _ \<Rightarrow> (Panic, src)))"

definition decode_exact :: "bytes \<Rightarrow> (ProtocolError, Frame) result \<times> bytes" where
  "decode_exact src =
     (if length src < FRAME_SIZE then (Err (FrameTooShort FRAME_SIZE (length src)), src)
      else (case frame_decode src of (r, src') \<Rightarrow>
              (and_then r (\<lambda>found. case found of
                 Some f \<Rightarrow> Ok f
               | None \<Rightarrow> Err (FrameTooShort FRAME_SIZE (length src'))), src')))"

definition decode_eof :: "bytes \<Rightarrow> (ProtocolError, Frame option) result \<times> bytes" where
  "decode_eof buf =
     (case frame_decode buf of (r, buf') \<Rightarrow>
        (and_then r (\<lambda>found. case found of
           Some f \<Rightarrow> Ok (Some f)
         | None \<Rightarrow> if buf' = [] then Ok None else Err (FrameTooShort FRAME_SIZE (length buf'))), buf'))"

text \<open>Reading a stream: call \<open>decode\<close> as long as it returns a frame.\<close>

lemma frame_decode_shrinks: "frame_decode src = (Ok (Some f), src') \<Longrightarrow> length src' < length src"
  by (auto simp: frame_decode_def split_to_def frame_sizes split: if_splits)

function drain :: "bytes \<Rightarrow> Frame list \<times> bytes" where
  "drain buf =
     (case frame_decode buf of
        (Ok (Some f), rest) \<Rightarrow> let (fs, tail) = drain rest in (f # fs, tail)
      | (_, rest) \<Rightarrow> ([], rest))"
  by pat_completeness auto
termination
  by (relation "measure length") (auto intro: frame_decode_shrinks [OF sym])

declare drain.simps [simp del]

subsection \<open>Constant-time comparison\<close>

lemma ct_accumulate_zero_iff: "ct_accumulate res ps = 0 \<longleftrightarrow> res = 0 \<and> (\<forall>(x, y) \<in> set ps. x = y)"
proof (induction res ps rule: ct_accumulate.induct)
  case (2 res x y ps)
  have "res OR (x XOR y) = 0 \<longleftrightarrow> res = 0 \<and> x = y"
    by (auto simp: or_eq_0_iff xor_zero_iff)
  with 2 show ?case by auto
qed simp

lemma constant_time_eq_iff: "constant_time_eq a b \<longleftrightarrow> a = b"
  by (auto simp: constant_time_eq_def ct_accumulate_zero_iff set_zip list_eq_iff_nth_eq)

subsection \<open>The parsers on a frame's bytes\<close>

text \<open>Any 1420 bytes are a session id, a nonce, a length field and 1394 more bytes.\<close>

lemma frame_bytes_exhaust:
  assumes "FRAME_SIZE \<le> length bs"
  obtains sid n w body tail where "bs = sid @ n @ put_u16 w @ body @ tail"
    "length sid = SESSION_ID_SIZE" "length n = NONCE_SIZE" "length body = MAX_PAYLOAD_SIZE"
proof
  let ?w = "of_nat (nat_from_be (take 2 (drop 24 bs))) :: u16"
  have "length (take 2 (drop 24 bs)) = 2" using assms by (simp add: frame_sizes)
  then have "put_u16 ?w = take 2 (drop 24 bs)" by (rule put_u16_surj)
  then show "bs = take 16 bs @ take 8 (drop 16 bs) @ put_u16 ?w @ take 1394 (drop 26 bs) @ drop 1420 bs"
    using append_take_drop_id [of 1394 "drop 26 bs"] append_take_drop_id [of 2 "drop 24 bs"]
      append_take_drop_id [of 8 "drop 16 bs"] append_take_drop_id [of 16 bs]
    by simp
qed (use assms in \<open>simp_all add: frame_sizes\<close>)

lemma read_header_append:
  assumes "length sid = SESSION_ID_SIZE" "length n = NONCE_SIZE"
  shows "read_header (sid @ n @ put_u16 w @ body) =
    (if unat w > MAX_PAYLOAD_SIZE then Err (PayloadTooLarge (unat w) MAX_PAYLOAD_SIZE)
     else Ok (sid, n, unat w, body))"
  using assms by (simp add: read_header_def buf_simps)

definition parsed_frame :: "bytes \<Rightarrow> bytes \<Rightarrow> u16 \<Rightarrow> bytes \<Rightarrow> (ProtocolError, Frame) result" where
  "parsed_frame sid n w body =
    (if unat w > MAX_PAYLOAD_SIZE then Err (PayloadTooLarge (unat w) MAX_PAYLOAD_SIZE)
     else Ok \<lparr>session_id = sid, nonce = n, payload = take (unat w) body\<rparr>)"

lemma parsers_append:
  assumes "length sid = SESSION_ID_SIZE" "length n = NONCE_SIZE" "length body = MAX_PAYLOAD_SIZE"
    and bs': "bs = sid @ n @ put_u16 w @ body @ tail"
  shows from_slice_append: "from_slice bs = parsed_frame sid n w body"
    and parse_append: "parse bs = (parsed_frame sid n w body, tail)"
    and frame_decode_append: "frame_decode bs = (map_ok Some (parsed_frame sid n w body), tail)"
proof -
  have bs: "bs = (sid @ n @ put_u16 w @ body) @ tail" and
    len: "length (sid @ n @ put_u16 w @ body) = FRAME_SIZE"
    using assms by (simp_all add: frame_sizes)
  have "split_to FRAME_SIZE bs = Ok (sid @ n @ put_u16 w @ body, tail)"
    and "slice_to FRAME_SIZE bs = Ok (sid @ n @ put_u16 w @ body)"
    using len by (simp_all only: bs buf_simps)
  moreover have "\<not> length bs < FRAME_SIZE" using len bs by simp
  moreover have "\<not> MAX_PAYLOAD_SIZE < unat w \<Longrightarrow> \<not> length body < unat w" using assms by simp
  ultimately show "from_slice bs = parsed_frame sid n w body"
    and "parse bs = (parsed_frame sid n w body, tail)"
    and "frame_decode bs = (map_ok Some (parsed_frame sid n w body), tail)"
    using read_header_append [OF assms(1,2), of w body]
    by (auto simp: from_slice_def parse_def frame_decode_def parsed_frame_def slice_to_def split_to_def)
qed

lemma parsed_frame_no_panic: "parsed_frame sid n w body \<noteq> Panic"
  by (simp add: parsed_frame_def)

lemma parsed_frame_wf:
  "parsed_frame sid n w body = Ok f \<Longrightarrow> length sid = SESSION_ID_SIZE \<Longrightarrow> length n = NONCE_SIZE \<Longrightarrow> wf_frame f"
  by (auto simp: parsed_frame_def wf_frame_def frame_typed_def split: if_splits)

lemma parsers_cases:
  obtains (short) "length bs < FRAME_SIZE"
    "from_slice bs = Err (FrameTooShort FRAME_SIZE (length bs))"
    "parse bs = (Err (FrameTooShort FRAME_SIZE (length bs)), bs)" "frame_decode bs = (Ok None, bs)"
  | (full) sid n w body tail where "bs = sid @ n @ put_u16 w @ body @ tail"
    "length sid = SESSION_ID_SIZE" "length n = NONCE_SIZE" "length body = MAX_PAYLOAD_SIZE"
    "from_slice bs = parsed_frame sid n w body" "parse bs = (parsed_frame sid n w body, tail)"
    "frame_decode bs = (map_ok Some (parsed_frame sid n w body), tail)"
proof (cases "length bs < FRAME_SIZE")
  case True
  then show ?thesis
    by (intro short) (simp_all add: from_slice_def parse_def frame_decode_def)
next
  case False
  then obtain sid n w body tail where bs: "bs = sid @ n @ put_u16 w @ body @ tail"
    "length sid = SESSION_ID_SIZE" "length n = NONCE_SIZE" "length body = MAX_PAYLOAD_SIZE"
    by (auto simp: not_less elim: frame_bytes_exhaust)
  show ?thesis
    by (rule full [OF bs parsers_append [OF bs(2-4) bs(1)]])
qed

lemma from_slice_no_panic: "from_slice bs \<noteq> Panic"
  by (cases bs rule: parsers_cases) (simp_all add: parsed_frame_no_panic)

lemma from_slice_wf: "from_slice bs = Ok f \<Longrightarrow> wf_frame f"
  by (cases bs rule: parsers_cases) (auto intro: parsed_frame_wf [OF sym])

subsection \<open>Encoding\<close>

lemma frame_encode_Ok:
  assumes "length (payload f) \<le> MAX_PAYLOAD_SIZE"
  shows "frame_encode f dst =
    Ok (dst @ session_id f @ nonce f @ put_u16 (of_nat (length (payload f))) @ payload f
      @ replicate (MAX_PAYLOAD_SIZE - length (payload f)) 0)"
  using assms by (simp add: frame_encode_def Let_def)

lemma frame_encode_length:
  "frame_typed f \<Longrightarrow> frame_encode f dst = Ok bs \<Longrightarrow> length bs = length dst + FRAME_SIZE"
  by (auto simp: frame_encode_def frame_typed_def Let_def frame_sizes split: if_splits)

lemma parsed_encoded:
  assumes "wf_frame f"
  shows "parsed_frame (session_id f) (nonce f) (of_nat (length (payload f)))
      (payload f @ replicate (MAX_PAYLOAD_SIZE - length (payload f)) 0) = Ok f"
proof -
  have "length (payload f) < 65536" using assms by (simp add: wf_frame_def frame_sizes)
  then show ?thesis using assms by (simp add: parsed_frame_def wf_frame_def)
qed

lemma frame_encoded_shape:
  assumes "wf_frame f" "frame_encode f [] = Ok bs"
  shows "bs @ tail = session_id f @ nonce f @ put_u16 (of_nat (length (payload f)))
      @ (payload f @ replicate (MAX_PAYLOAD_SIZE - length (payload f)) 0) @ tail"
  using assms by (simp add: wf_frame_def frame_encode_Ok)

lemma decode_encoded:
  assumes "wf_frame f" "frame_encode f [] = Ok bs"
  shows "from_slice (bs @ tail) = Ok f" "parse (bs @ tail) = (Ok f, tail)"
    "frame_decode (bs @ tail) = (Ok (Some f), tail)"
proof -
  note shape = frame_encoded_shape [OF assms, of tail]
  have len: "length (session_id f) = SESSION_ID_SIZE" "length (nonce f) = NONCE_SIZE"
    "length (payload f @ replicate (MAX_PAYLOAD_SIZE - length (payload f)) 0 :: bytes) = MAX_PAYLOAD_SIZE"
    using assms(1) by (simp_all add: wf_frame_def frame_typed_def)
  show "from_slice (bs @ tail) = Ok f" "parse (bs @ tail) = (Ok f, tail)"
    "frame_decode (bs @ tail) = (Ok (Some f), tail)"
    using parsers_append [OF len shape] parsed_encoded [OF assms(1)] by simp_all
qed

interpretation frame_codec: total_codec "\<lambda>f. frame_encode f []" from_slice wf_frame
proof unfold_locales
  fix f :: Frame and bs
  assume f: "wf_frame f"
  then show "\<exists>bs. frame_encode f [] = Ok bs" by (simp add: wf_frame_def frame_encode_Ok)
  assume "frame_encode f [] = Ok bs"
  with f show "from_slice bs = Ok f" using decode_encoded(1) [of f bs "[]"] by simp
qed (rule from_slice_no_panic, rule from_slice_wf)

lemma drain_encoded:
  assumes "\<forall>f \<in> set fs. wf_frame f" "length tail < FRAME_SIZE"
  shows "drain (concat (map (\<lambda>f. case frame_encode f [] of Ok bs \<Rightarrow> bs | _ \<Rightarrow> []) fs) @ tail)
    = (fs, tail)"
  using assms(1)
proof (induction fs)
  case Nil
  then show ?case using assms(2) by (simp add: drain.simps frame_decode_def)
next
  case (Cons f fs)
  then obtain bs where bs: "frame_encode f [] = Ok bs"
    using frame_codec.encode_defined by auto
  let ?rest = "concat (map (\<lambda>f. case frame_encode f [] of Ok bs \<Rightarrow> bs | _ \<Rightarrow> []) fs) @ tail"
  have "frame_decode (bs @ ?rest) = (Ok (Some f), ?rest)"
    using Cons.prems decode_encoded [of f bs ?rest] bs by simp
  then have "drain (bs @ ?rest) = (f # fs, tail)"
    using Cons.IH Cons.prems by (simp add: drain.simps [of "bs @ ?rest"])
  then show ?case using bs by simp
qed

subsection \<open>Properties\<close>

text \<open>C10: a well-formed frame always encodes, the encoding is exactly 1420 bytes, and decoding it from the
  front of a stream returns the frame and leaves the rest of the stream in the buffer.\<close>

theorem frame_roundtrip:
  assumes "wf_frame f"
  shows "\<exists>bs. frame_encode f dst = Ok (dst @ bs) \<and> length bs = FRAME_SIZE
    \<and> frame_decode (bs @ tail) = (Ok (Some f), tail) \<and> parse (bs @ tail) = (Ok f, tail)"
proof -
  from frame_codec.encode_defined [OF assms] obtain bs where bs: "frame_encode f [] = Ok bs" ..
  then have "frame_encode f dst = Ok (dst @ bs)"
    using assms by (auto simp: wf_frame_def frame_encode_Ok)
  moreover have "length bs = FRAME_SIZE"
    using assms bs frame_encode_length [of f "[]"] by (simp add: wf_frame_def)
  ultimately show ?thesis using decode_encoded [OF assms bs] by blast
qed

theorem frame_roundtrip_witness:
  "\<exists>bs. frame_encode \<lparr>session_id = replicate 16 42, nonce = [1, 2, 3, 4, 5, 6, 7, 8], payload = [72, 105]\<rparr> []
      = Ok ([] @ bs) \<and> length bs = FRAME_SIZE"
  using frame_roundtrip [of "\<lparr>session_id = replicate 16 42, nonce = [1, 2, 3, 4, 5, 6, 7, 8], payload = [72, 105]\<rparr>" "[]"]
  by (auto simp: wf_frame_def frame_typed_def frame_sizes)

text \<open>C19: whatever bytes arrive, \<open>Frame::from_slice\<close>, \<open>Frame::parse\<close>, \<open>FrameCodec::decode\<close>, \<open>decode_exact\<close> and
  \<open>decode_eof\<close> do not panic and agree: with fewer than 1420 bytes the first two and \<open>decode_exact\<close> report
  \<open>FrameTooShort\<close> and nothing is consumed, otherwise all return the same frame or the same error and consume
  exactly 1420 bytes; a frame that is returned is well-formed.\<close>

theorem frame_parsers_agree:
  "from_slice bs \<noteq> Panic \<and> fst (parse bs) = from_slice bs \<and> decode_exact bs = parse bs
   \<and> (if length bs < FRAME_SIZE
      then frame_decode bs = (Ok None, bs) \<and> from_slice bs = Err (FrameTooShort FRAME_SIZE (length bs))
        \<and> decode_eof bs = (if bs = [] then Ok None else Err (FrameTooShort FRAME_SIZE (length bs)), bs)
        \<and> snd (parse bs) = bs
      else fst (frame_decode bs) = map_ok Some (from_slice bs) \<and> decode_eof bs = frame_decode bs
        \<and> snd (frame_decode bs) = drop FRAME_SIZE bs \<and> snd (parse bs) = drop FRAME_SIZE bs)
   \<and> (case from_slice bs of Ok f \<Rightarrow> wf_frame f | _ \<Rightarrow> True)"
proof (cases bs rule: parsers_cases)
  case short
  then show ?thesis by (simp add: decode_exact_def decode_eof_def)
next
  case (full sid n w body tail)
  have "\<not> length bs < FRAME_SIZE" "drop FRAME_SIZE bs = tail"
    using full(2-4) by (simp_all add: full(1) frame_sizes)
  then show ?thesis
    using full(2-7) parsed_frame_no_panic [of sid n w body] parsed_frame_wf [of sid n w body]
    by (cases "parsed_frame sid n w body") (simp_all add: decode_exact_def decode_eof_def)
qed

text \<open>The encoder refuses exactly the payloads above 1394 bytes, leaving the buffer alone, and otherwise
  appends exactly 1420 bytes, so the size on the wire says nothing about the payload.\<close>

theorem frame_encode_fixed_size:
  assumes "frame_typed f"
  shows "(case frame_encode f dst of
      Ok bs \<Rightarrow> length (payload f) \<le> MAX_PAYLOAD_SIZE \<and> length bs = length dst + FRAME_SIZE
        \<and> take (length dst) bs = dst
    | Err e \<Rightarrow> MAX_PAYLOAD_SIZE < length (payload f) \<and> e = PayloadTooLarge (length (payload f)) MAX_PAYLOAD_SIZE
    | Panic \<Rightarrow> False)"
  using assms frame_encode_length [of f dst]
  by (cases "length (payload f) \<le> MAX_PAYLOAD_SIZE") (auto simp: frame_encode_Ok, simp add: frame_encode_def)

theorem frame_encode_fixed_size_witness:
  "(case frame_encode \<lparr>session_id = replicate 16 7, nonce = replicate 8 9, payload = []\<rparr> [1] of
      Ok bs \<Rightarrow> length bs = 1421 | _ \<Rightarrow> False)"
  using frame_encode_fixed_size [of "\<lparr>session_id = replicate 16 7, nonce = replicate 8 9, payload = []\<rparr>" "[1]"]
  by (auto simp: frame_typed_def frame_sizes frame_encode_Ok)

text \<open>A sequence of well-formed frames, encoded one after the other and followed by an incomplete frame,
  decodes to exactly those frames in order, with the incomplete frame left in the buffer; and any proper
  prefix of a frame decodes to \<open>Ok(None)\<close> with the buffer unchanged, so fragmentation loses nothing.\<close>

theorem frame_stream:
  assumes "\<forall>f \<in> set fs. wf_frame f" "length tail < FRAME_SIZE"
  shows "drain (concat (map (\<lambda>f. case frame_encode f [] of Ok bs \<Rightarrow> bs | _ \<Rightarrow> []) fs) @ tail) = (fs, tail)
    \<and> frame_decode tail = (Ok None, tail)"
  using drain_encoded [OF assms] assms(2) by (simp add: frame_decode_def)

theorem frame_stream_witness:
  "drain (concat (map (\<lambda>f. case frame_encode f [] of Ok bs \<Rightarrow> bs | _ \<Rightarrow> [])
      [\<lparr>session_id = replicate 16 1, nonce = replicate 8 2, payload = [3]\<rparr>,
       \<lparr>session_id = replicate 16 4, nonce = replicate 8 5, payload = []\<rparr>]) @ [9, 9])
    = ([\<lparr>session_id = replicate 16 1, nonce = replicate 8 2, payload = [3]\<rparr>,
       \<lparr>session_id = replicate 16 4, nonce = replicate 8 5, payload = []\<rparr>], [9, 9])"
  using frame_stream [of "[\<lparr>session_id = replicate 16 1, nonce = replicate 8 2, payload = [3]\<rparr>,
       \<lparr>session_id = replicate 16 4, nonce = replicate 8 5, payload = []\<rparr>]" "[9, 9]"]
  by (simp add: wf_frame_def frame_typed_def frame_sizes)

text \<open>The branch-free comparison used for tokens and session ids is equality of byte strings.\<close>

theorem constant_time_eq_correct: "constant_time_eq a b = (a = b) \<and> session_id_eq a b = (a = b)"
  by (simp add: constant_time_eq_iff session_id_eq_def)

end
