(* ===== verification/Obfuscation.thy ===== *)
theory Obfuscation
  imports Frame
begin

section \<open>Pseudo-TLS camouflage\<close>

text \<open>
  \<open>src/transport/obfuscation.rs\<close>: the parser of TLS ClientHello records, the token validator that decides
  whether a connection is a client of the relay, and the builder of the ClientHello that clients send. An early
  \<open>return status\<close> of the parser is an \<open>Err status\<close> of the computation \<open>client_hello_body\<close>. The lemmas show
  that no input makes the parser panic, that it asks for more data only within its 4096-byte bound and only for
  bytes that are missing, that it parses what the builder builds, and exactly when a token is accepted.
\<close>

subsection \<open>Constants and data\<close>

definition MAX_CLIENT_HELLO_SIZE :: nat where "MAX_CLIENT_HELLO_SIZE = 4096"

definition TLS_HANDSHAKE_CONTENT_TYPE :: u8 where "TLS_HANDSHAKE_CONTENT_TYPE = 0x16"

definition TLS_CLIENT_HELLO_HANDSHAKE_TYPE :: u8 where "TLS_CLIENT_HELLO_HANDSHAKE_TYPE = 0x01"

definition TLS_LEGACY_RECORD_VERSION :: u16 where "TLS_LEGACY_RECORD_VERSION = 0x0301"

definition TLS_LEGACY_CLIENT_VERSION :: u16 where "TLS_LEGACY_CLIENT_VERSION = 0x0303"

definition TLS_1_3_VERSION :: u16 where "TLS_1_3_VERSION = 0x0304"

definition TLS_EXT_SERVER_NAME :: u16 where "TLS_EXT_SERVER_NAME = 0x0000"

definition TLS_EXT_SUPPORTED_GROUPS :: u16 where "TLS_EXT_SUPPORTED_GROUPS = 0x000a"

definition TLS_EXT_SIGNATURE_ALGORITHMS :: u16 where "TLS_EXT_SIGNATURE_ALGORITHMS = 0x000d"

definition TLS_EXT_SUPPORTED_VERSIONS :: u16 where "TLS_EXT_SUPPORTED_VERSIONS = 0x002b"

definition TLS_EXT_KEY_SHARE :: u16 where "TLS_EXT_KEY_SHARE = 0x0033"

definition TLS_AES_128_GCM_SHA256 :: u16 where "TLS_AES_128_GCM_SHA256 = 0x1301"

definition TLS_AES_256_GCM_SHA384 :: u16 where "TLS_AES_256_GCM_SHA384 = 0x1302"

definition TLS_CHACHA20_POLY1305_SHA256 :: u16 where "TLS_CHACHA20_POLY1305_SHA256 = 0x1303"

datatype ObfuscationError = BufferTooShort | NotTlsHandshake | NotClientHello | MalformedData | PacketTooLarge

record ParsedClientHello =
  legacy_version :: u16
  random :: bytes
  hello_session_id :: bytes
  cipher_suites :: "u16 list"
  sni :: "bytes option"
  is_tls13 :: bool

datatype ClientHelloStatus =
    Complete ParsedClientHello
  | NeedMoreData (expected_record_len: nat)
  | Invalid ObfuscationError

subsection \<open>Parsing a ClientHello\<close>

text \<open>\<open>while slice.remaining() >= 2 \<dots> get_u16()\<close>, for the cipher suites.\<close>

fun u16_list :: "bytes \<Rightarrow> u16 list" where
  "u16_list (a # b # rest) = of_nat (nat_from_be [a, b]) # u16_list rest"
| "u16_list _ = []"

text \<open>The same loop over the supported versions, leaving at TLS 1.3.\<close>

fun lists_tls13 :: "bytes \<Rightarrow> bool" where
  "lists_tls13 (a # b # rest) = (if of_nat (nat_from_be [a, b]) = TLS_1_3_VERSION then True else lists_tls13 rest)"
| "lists_tls13 _ = False"

definition sni_arm :: "bytes \<Rightarrow> bytes option \<Rightarrow> (ClientHelloStatus, bytes option) result" where
  "sni_arm ext_data sni0 =
     (if length ext_data \<ge> 5 then
        and_then (get_u16 ext_data) (\<lambda>(_, sni_slice).
        if length sni_slice \<ge> 3 then
          and_then (get_u8 sni_slice) (\<lambda>(name_type, sni_slice).
          and_then (get_u16 sni_slice) (\<lambda>(len, sni_slice).
            let name_len = unat len in
            if name_type = 0 \<and> length sni_slice \<ge> name_len then
              and_then (slice_to name_len sni_slice) (\<lambda>host.
                if utf8_valid host then Ok (Some (to_ascii_lowercase host)) else Ok sni0)
            else Ok sni0))
        else Ok sni0)
      else Ok sni0)"

definition versions_arm :: "bytes \<Rightarrow> bool \<Rightarrow> (ClientHelloStatus, bool) result" where
  "versions_arm ext_data tls13 =
     (if ext_data \<noteq> [] then
        and_then (get_u8 ext_data) (\<lambda>(len, ver_slice).
          let ver_len = unat len in
          if length ver_slice \<ge> ver_len then
            and_then (slice_to ver_len ver_slice) (\<lambda>versions. Ok (if lists_tls13 versions then True else tls13))
          else Ok tls13)
      else Ok tls13)"

fun extensions_loop :: "bytes \<Rightarrow> bytes option \<Rightarrow> bool \<Rightarrow> (ClientHelloStatus, bytes option \<times> bool) result" where
  "extensions_loop (t1 # t2 # l1 # l2 # ext_buf) sni0 tls13 =
     (let ext_type = of_nat (nat_from_be [t1, t2]) :: u16; ext_len = unat (of_nat (nat_from_be [l1, l2]) :: u16) in
      if length ext_buf < ext_len then Err (Invalid MalformedData)
      else let ext_data = take ext_len ext_buf; rest = drop ext_len ext_buf in
        if ext_type = TLS_EXT_SERVER_NAME
        then and_then (sni_arm ext_data sni0) (\<lambda>sni1. extensions_loop rest sni1 tls13)
        else if ext_type = TLS_EXT_SUPPORTED_VERSIONS
        then and_then (versions_arm ext_data tls13) (\<lambda>t. extensions_loop rest sni0 t)
        else extensions_loop rest sni0 tls13)"
| "extensions_loop _ sni0 tls13 = Ok (sni0, tls13)"

definition malformed :: "(ClientHelloStatus, 'a) result" where
  "malformed = Err (Invalid MalformedData)"

definition hello_extensions :: "bytes \<Rightarrow> (ClientHelloStatus, bytes option \<times> bool) result" where
  "hello_extensions hs_body =
     (if length hs_body \<ge> 2 then
        and_then (get_u16 hs_body) (\<lambda>(len, hs_body).
          let extensions_len = unat len in
          if length hs_body < extensions_len then malformed
          else and_then (slice_to extensions_len hs_body) (\<lambda>ext_buf. extensions_loop ext_buf None False))
      else Ok (None, False))"

definition hello_fields :: "bytes \<Rightarrow> (ClientHelloStatus, ParsedClientHello) result" where
  "hello_fields hs_body =
     (if length hs_body < 2 then malformed else and_then (get_u16 hs_body) (\<lambda>(ver, hs_body).
      if length hs_body < 32 then malformed else and_then (split_to 32 hs_body) (\<lambda>(rnd, hs_body).
      if hs_body = [] then malformed else and_then (get_u8 hs_body) (\<lambda>(len, hs_body).
      let session_id_len = unat len in
      if length hs_body < session_id_len then malformed
      else and_then (slice_to session_id_len hs_body) (\<lambda>sid. and_then (advance session_id_len hs_body) (\<lambda>hs_body.
      if length hs_body < 2 then malformed else and_then (get_u16 hs_body) (\<lambda>(len, hs_body).
      let cipher_suites_len = unat len in
      if length hs_body < cipher_suites_len \<or> cipher_suites_len mod 2 \<noteq> 0 then malformed
      else and_then (slice_to cipher_suites_len hs_body) (\<lambda>cs_slice.
      and_then (advance cipher_suites_len hs_body) (\<lambda>hs_body.
      if hs_body = [] then malformed else and_then (get_u8 hs_body) (\<lambda>(len, hs_body).
      let comp_len = unat len in
      if length hs_body < comp_len then malformed
      else and_then (advance comp_len hs_body) (\<lambda>hs_body.
      and_then (hello_extensions hs_body) (\<lambda>(name, tls13).
        Ok \<lparr>legacy_version = ver, random = rnd, hello_session_id = sid, cipher_suites = u16_list cs_slice,
            sni = name, is_tls13 = tls13\<rparr>))))))))))))"

text \<open>The handshake layer, from the handshake type on: \<open>body\<close> is \<open>&src[5..total_len]\<close>.\<close>

definition client_hello_handshake :: "bytes \<Rightarrow> (ClientHelloStatus, ParsedClientHello) result" where
  "client_hello_handshake body =
     (if body = [] then Err (Invalid NotClientHello)
      else and_then (index_u8 body 0) (\<lambda>b0.
      if b0 \<noteq> TLS_CLIENT_HELLO_HANDSHAKE_TYPE then Err (Invalid NotClientHello)
      else and_then (advance 1 body) (\<lambda>body.
      if length body < 3 then malformed
      else and_then (index_u8 body 0) (\<lambda>h0. and_then (index_u8 body 1) (\<lambda>h1. and_then (index_u8 body 2) (\<lambda>h2.
      let hs_len = push_bit 16 (unat h0) OR push_bit 8 (unat h1) OR unat h2 in
      and_then (advance 3 body) (\<lambda>body.
      if length body < hs_len then malformed
      else and_then (slice_to hs_len body) hello_fields)))))))"

definition client_hello_body :: "bytes \<Rightarrow> (ClientHelloStatus, ParsedClientHello) result" where
  "client_hello_body src =
     (if length src < 5 then Err (NeedMoreData 5)
      else and_then (index_u8 src 0) (\<lambda>b0.
      if b0 \<noteq> TLS_HANDSHAKE_CONTENT_TYPE then Err (Invalid NotTlsHandshake)
      else and_then (index_u8 src 3) (\<lambda>b3. and_then (index_u8 src 4) (\<lambda>b4.
      let record_len = unat (of_nat (nat_from_be [b3, b4]) :: u16); total_len = 5 + record_len in
      if total_len > MAX_CLIENT_HELLO_SIZE then Err (Invalid PacketTooLarge)
      else if length src < total_len then Err (NeedMoreData total_len)
      else and_then (and_then (slice_to total_len src) (slice_from 5)) client_hello_handshake))))"

definition parse_client_hello :: "bytes \<Rightarrow> ('e, ClientHelloStatus) result" where
  "parse_client_hello src =
     (case client_hello_body src of Ok hello \<Rightarrow> Ok (Complete hello) | Err status \<Rightarrow> Ok status | Panic \<Rightarrow> Panic)"

subsection \<open>Token validation\<close>

record TokenValidator =
  secret :: bytes
  expected_sni :: "bytes option"
  insecure_no_token :: bool

definition token_validator_new :: "bytes \<Rightarrow> TokenValidator" where
  "token_validator_new s = \<lparr>secret = s, expected_sni = None, insecure_no_token = False\<rparr>"

definition with_expected_sni :: "bytes \<Rightarrow> TokenValidator \<Rightarrow> TokenValidator" where
  "with_expected_sni name v = v\<lparr>expected_sni := Some (to_ascii_lowercase name)\<rparr>"

definition with_insecure_no_token :: "bool \<Rightarrow> TokenValidator \<Rightarrow> TokenValidator" where
  "with_insecure_no_token enabled v = v\<lparr>insecure_no_token := enabled\<rparr>"

definition with_insecure_no_auth :: "bool \<Rightarrow> TokenValidator \<Rightarrow> TokenValidator" where
  "with_insecure_no_auth enabled v = with_insecure_no_token enabled v"

text \<open>The slices are within range: \<open>check_len\<close> is a minimum of the lengths, and the read at the secret's length
  comes after the comparison of the lengths.\<close>

definition validate_token :: "TokenValidator \<Rightarrow> ParsedClientHello \<Rightarrow> bool" where
  "validate_token v hello =
     (if insecure_no_token v then True
      else if secret v = [] then False
      else
        let check_len = min (length (secret v)) 32;
            random_valid = (if check_len > 0
              then constant_time_eq (take check_len (random hello)) (take check_len (secret v)) else False) in
        if random_valid then True
        else (case sni hello of
            None \<Rightarrow> False
          | Some sni_bytes \<Rightarrow>
              if constant_time_eq sni_bytes (secret v) then True
              else if length sni_bytes > length (secret v) \<and> sni_bytes ! length (secret v) = 46
                \<and> constant_time_eq (take (length (secret v)) sni_bytes) (secret v) then True
              else (case expected_sni v of
                  None \<Rightarrow> False
                | Some name \<Rightarrow> constant_time_eq sni_bytes name)))"

subsection \<open>Building a ClientHello\<close>

definition DEFAULT_SECRET_TOKEN :: bytes where "DEFAULT_SECRET_TOKEN = []"

record PseudoTlsBuilder =
  secret_token :: bytes
  sni_host :: bytes
  token_in_sni :: bool
  builder_suites :: "u16 list"

definition pseudo_tls_new :: "bytes \<Rightarrow> bytes \<Rightarrow> PseudoTlsBuilder" where
  "pseudo_tls_new token host =
     \<lparr>secret_token = token, sni_host = host, token_in_sni = False,
      builder_suites = [TLS_AES_128_GCM_SHA256, TLS_AES_256_GCM_SHA384, TLS_CHACHA20_POLY1305_SHA256]\<rparr>"

definition embed_in_sni :: "bool \<Rightarrow> PseudoTlsBuilder \<Rightarrow> PseudoTlsBuilder" where
  "embed_in_sni enabled b = b\<lparr>token_in_sni := enabled\<rparr>"

definition build_random :: "PseudoTlsBuilder \<Rightarrow> bytes" where
  "build_random b =
     (let token = (if secret_token b = [] then DEFAULT_SECRET_TOKEN else secret_token b) in
      if \<not> token_in_sni b
      then let copy_len = min (length token) 32 in take copy_len token @ replicate (32 - copy_len) 0x5a
      else replicate 32 0x5a)"

definition build_sni :: "PseudoTlsBuilder \<Rightarrow> bytes" where
  "build_sni b = (if token_in_sni b then hex_encode (secret_token b) @ [46] @ sni_host b else sni_host b)"

definition build_extensions :: "bytes \<Rightarrow> bytes" where
  "build_extensions sni_bytes =
     (let sni_list_len = 1 + 2 + length sni_bytes; sni_ext_len = 2 + sni_list_len in
      put_u16 TLS_EXT_SERVER_NAME @ put_u16 (of_nat sni_ext_len) @ put_u16 (of_nat sni_list_len)
        @ put_u8 0 @ put_u16 (of_nat (length sni_bytes)) @ sni_bytes
      @ put_u16 TLS_EXT_SUPPORTED_VERSIONS @ put_u16 5 @ put_u8 4
        @ put_u16 TLS_1_3_VERSION @ put_u16 TLS_LEGACY_CLIENT_VERSION
      @ put_u16 TLS_EXT_SUPPORTED_GROUPS @ put_u16 6 @ put_u16 4 @ put_u16 0x001d @ put_u16 0x0017
      @ put_u16 TLS_EXT_SIGNATURE_ALGORITHMS @ put_u16 8 @ put_u16 6
        @ put_u16 0x0403 @ put_u16 0x0804 @ put_u16 0x0807
      @ put_u16 TLS_EXT_KEY_SHARE @ put_u16 (2 + 2 + 2 + 32) @ put_u16 (2 + 2 + 32)
        @ put_u16 0x001d @ put_u16 32 @ replicate 32 0x42)"

definition build_hs_body :: "PseudoTlsBuilder \<Rightarrow> bytes" where
  "build_hs_body b =
     (let ext_buf = build_extensions (build_sni b) in
      put_u16 TLS_LEGACY_CLIENT_VERSION @ build_random b
      @ put_u8 32 @ replicate 32 0x22
      @ put_u16 (of_nat (length (builder_suites b) * 2)) @ concat (map put_u16 (builder_suites b))
      @ put_u8 1 @ put_u8 0
      @ put_u16 (of_nat (length ext_buf)) @ ext_buf)"

definition build :: "PseudoTlsBuilder \<Rightarrow> bytes" where
  "build b =
     (let hs_body = build_hs_body b; hs_len = length hs_body; total_record_len = 4 + hs_len in
      [TLS_HANDSHAKE_CONTENT_TYPE] @ put_u16 TLS_LEGACY_RECORD_VERSION @ put_u16 (of_nat total_record_len)
      @ [TLS_CLIENT_HELLO_HANDSHAKE_TYPE]
      @ [of_nat (drop_bit 16 hs_len AND 0xFF), of_nat (drop_bit 8 hs_len AND 0xFF), of_nat (hs_len AND 0xFF)]
      @ hs_body)"

subsection \<open>What the parser returns\<close>

text \<open>One postcondition per layer: no panic, which statuses leave it early, and what holds of its value.\<close>

lemma to_ascii_lowercase_idem [simp]: "to_ascii_lowercase (to_ascii_lowercase s) = to_ascii_lowercase s"
  by (simp add: to_ascii_lowercase_def ascii_lower_idem)

definition host_name :: "bytes option \<Rightarrow> bool" where
  "host_name s = (case s of None \<Rightarrow> True | Some name \<Rightarrow> utf8_valid name \<and> to_ascii_lowercase name = name)"

abbreviation only_malformed :: "ClientHelloStatus \<Rightarrow> bool" where
  "only_malformed e \<equiv> e = Invalid MalformedData"

lemma sni_arm_post: "host_name sni0 \<Longrightarrow> result_post (\<lambda>e. False) host_name (sni_arm ext_data sni0)"
  by (auto simp: sni_arm_def post_simps Let_def host_name_def utf8_valid_lower)

lemma versions_arm_post: "result_post (\<lambda>e. False) (\<lambda>t. True) (versions_arm ext_data tls13)"
  by (simp add: versions_arm_def post_simps Let_def)

lemma extensions_loop_post:
  "host_name sni0 \<Longrightarrow> result_post only_malformed (\<lambda>(s, t). host_name s) (extensions_loop buf sni0 tls13)"
proof (induction buf sni0 tls13 rule: extensions_loop.induct)
  case (1 t1 t2 l1 l2 ext_buf sni0 tls13)
  define ext_data where "ext_data = take (unat (of_nat (nat_from_be [l1, l2]) :: u16)) ext_buf"
  obtain s v where "sni_arm ext_data sni0 = Ok s" "host_name s" "versions_arm ext_data tls13 = Ok v"
    using sni_arm_post [OF \<open>host_name sni0\<close>, of ext_data] versions_arm_post [of ext_data tls13]
    by (auto simp: result_post_def split: result.splits)
  with 1 show ?case by (simp add: Let_def post_simps ext_data_def)
qed (simp_all add: post_simps)

lemma hello_extensions_post: "result_post only_malformed (\<lambda>(s, t). host_name s) (hello_extensions bs)"
  using extensions_loop_post [of None] by (simp add: hello_extensions_def malformed_def post_simps Let_def host_name_def)

text \<open>The fields of a parsed hello have the sizes their wire fields allow, and the host name is valid UTF-8
  without ASCII capitals, as the Rust types \<open>[u8; 32]\<close> and \<open>String\<close> and \<open>to_ascii_lowercase\<close> promise.\<close>

definition wf_hello :: "ParsedClientHello \<Rightarrow> bool" where
  "wf_hello hello \<longleftrightarrow> length (random hello) = 32 \<and> length (hello_session_id hello) < 256 \<and> host_name (sni hello)"

lemma hello_fields_post: "result_post only_malformed wf_hello (hello_fields bs)"
  by (auto simp: hello_fields_def malformed_def post_simps Let_def wf_hello_def unat_less_width
      intro!: result_post_mono [OF hello_extensions_post])

lemma client_hello_handshake_post:
  "result_post (\<lambda>e. \<exists>why. e = Invalid why) wf_hello (client_hello_handshake body)"
  by (auto simp: client_hello_handshake_def malformed_def post_simps Let_def Suc_le_eq
      intro!: result_post_mono [OF hello_fields_post])

lemma client_hello_body_post:
  "result_post (\<lambda>e. case e of NeedMoreData n \<Rightarrow> length src < n \<and> n \<le> MAX_CLIENT_HELLO_SIZE
       | Invalid why \<Rightarrow> True | Complete hello \<Rightarrow> False) wf_hello (client_hello_body src)"
  by (auto simp: client_hello_body_def post_simps Let_def MAX_CLIENT_HELLO_SIZE_def
      intro!: result_post_mono [OF client_hello_handshake_post])

subsection \<open>The parser reads what the builder writes\<close>

lemma put_u16_bytes: "\<exists>a b. put_u16 v = [a, b] \<and> of_nat (nat_from_be [a, b]) = v"
proof -
  obtain a b where ab: "put_u16 v = [a, b]"
    using length_put(2) [of v] by (cases "put_u16 v"; cases "tl (put_u16 v)") auto
  have "get_u16 (put_u16 v @ []) = Ok (v, [])" by (rule get_u16_put)
  with ab show ?thesis by (auto simp: get_u16_def)
qed

lemma u16_list_put: "u16_list (put_u16 v @ rest) = v # u16_list rest"
  using put_u16_bytes [of v] by auto

lemma u16_list_concat: "u16_list (concat (map put_u16 xs)) = xs"
  by (induction xs) (simp_all add: u16_list_put)

lemma lists_tls13_put: "lists_tls13 (put_u16 v @ rest) = (v = TLS_1_3_VERSION \<or> lists_tls13 rest)"
  using put_u16_bytes [of v] by (auto split: if_splits)

lemma three_byte_length:
  fixes n :: nat
  assumes "n < 2 ^ 24"
  shows "push_bit 16 (unat (of_nat (drop_bit 16 n AND 0xFF) :: u8))
    OR push_bit 8 (unat (of_nat (drop_bit 8 n AND 0xFF) :: u8)) OR unat (of_nat (n AND 0xFF) :: u8) = n"
proof -
  have mask: "m AND 0xFF = take_bit 8 m" for m :: nat
    by (simp add: take_bit_eq_mask mask_eq_exp_minus_1)
  have "push_bit 16 (take_bit 8 (drop_bit 16 n)) OR push_bit 8 (take_bit 8 (drop_bit 8 n)) OR take_bit 8 n
      = take_bit 24 n"
  proof (rule bit_eqI)
    fix i
    show "bit (push_bit 16 (take_bit 8 (drop_bit 16 n)) OR push_bit 8 (take_bit 8 (drop_bit 8 n)) OR take_bit 8 n) i
        = bit (take_bit 24 n) i"
      by (cases "i < 8"; cases "i < 16") (auto simp: bit_simps)
  qed
  with assms show ?thesis by (simp add: mask unsigned_of_nat take_bit_nat_eq_self)
qed

text \<open>One step of the extension loop, on an extension written with its type and length.\<close>

lemma extensions_loop_put:
  assumes "length ext_data = unat len"
  shows "extensions_loop (put_u16 ty @ put_u16 len @ ext_data @ rest) sni0 tls13 =
    (if ty = TLS_EXT_SERVER_NAME
     then and_then (sni_arm ext_data sni0) (\<lambda>sni1. extensions_loop rest sni1 tls13)
     else if ty = TLS_EXT_SUPPORTED_VERSIONS
     then and_then (versions_arm ext_data tls13) (\<lambda>t. extensions_loop rest sni0 t)
     else extensions_loop rest sni0 tls13)"
  using put_u16_bytes [of ty] put_u16_bytes [of len] assms by (auto simp: Let_def)

lemmas extensions_loop_last = extensions_loop_put [where rest = "[]", unfolded append_Nil2 extensions_loop.simps]

lemma sni_arm_put:
  "length host < 65536 \<Longrightarrow> utf8_valid host \<Longrightarrow>
     sni_arm (put_u16 n @ put_u8 0 @ put_u16 (of_nat (length host)) @ host) sni0 = Ok (Some (to_ascii_lowercase host))"
  by (simp add: sni_arm_def buf_simps result_simps)

lemma versions_arm_put:
  "versions_arm (put_u8 4 @ put_u16 TLS_1_3_VERSION @ put_u16 v) tls13 = Ok True"
  by (simp add: versions_arm_def buf_simps result_simps lists_tls13_put)

lemma length_build_extensions: "length (build_extensions host) = 82 + length host"
  by (simp add: build_extensions_def Let_def)

lemma build_extensions_parsed:
  assumes "length host + 5 < 65536" "utf8_valid host"
  shows "extensions_loop (build_extensions host) None False = Ok (Some (to_ascii_lowercase host), True)"
proof -
  have "build_extensions host =
     put_u16 TLS_EXT_SERVER_NAME @ put_u16 (of_nat (5 + length host)) @
       (put_u16 (of_nat (3 + length host)) @ put_u8 0 @ put_u16 (of_nat (length host)) @ host) @
     put_u16 TLS_EXT_SUPPORTED_VERSIONS @ put_u16 5 @
       (put_u8 4 @ put_u16 TLS_1_3_VERSION @ put_u16 TLS_LEGACY_CLIENT_VERSION) @
     put_u16 TLS_EXT_SUPPORTED_GROUPS @ put_u16 6 @ (put_u16 4 @ put_u16 0x001d @ put_u16 0x0017) @
     put_u16 TLS_EXT_SIGNATURE_ALGORITHMS @ put_u16 8 @
       (put_u16 6 @ put_u16 0x0403 @ put_u16 0x0804 @ put_u16 0x0807) @
     put_u16 TLS_EXT_KEY_SHARE @ put_u16 38 @ (put_u16 36 @ put_u16 0x001d @ put_u16 32 @ replicate 32 0x42) @ []"
    by (simp add: build_extensions_def Let_def)
  with assms show ?thesis
    by (simp del: append_assoc of_nat_add add: extensions_loop_put extensions_loop_last sni_arm_put versions_arm_put result_simps
      TLS_EXT_SERVER_NAME_def TLS_EXT_SUPPORTED_VERSIONS_def TLS_EXT_SUPPORTED_GROUPS_def
      TLS_EXT_SIGNATURE_ALGORITHMS_def TLS_EXT_KEY_SHARE_def)
qed

lemma length_build_random [simp]: "length (build_random b) = 32"
  by (simp add: build_random_def Let_def)

lemma length_suites: "length (concat (map put_u16 xs)) = 2 * length xs"
  by (induction xs) simp_all

lemma length_build_hs_body:
  "length (build_hs_body b) = 155 + 2 * length (builder_suites b) + length (build_sni b)"
  by (simp add: build_hs_body_def Let_def length_build_extensions length_suites)

definition built_hello :: "PseudoTlsBuilder \<Rightarrow> ParsedClientHello" where
  "built_hello b = \<lparr>legacy_version = TLS_LEGACY_CLIENT_VERSION, random = build_random b,
     hello_session_id = replicate 32 0x22, cipher_suites = builder_suites b,
     sni = Some (to_ascii_lowercase (build_sni b)), is_tls13 = True\<rparr>"

definition fits_record :: "PseudoTlsBuilder \<Rightarrow> bool" where
  "fits_record b \<longleftrightarrow> 164 + 2 * length (builder_suites b) + length (build_sni b) \<le> MAX_CLIENT_HELLO_SIZE"

lemma hello_fields_built:
  assumes "fits_record b" "utf8_valid (build_sni b)"
  shows "hello_fields (build_hs_body b) = Ok (built_hello b)"
proof -
  have "length (build_extensions (build_sni b)) < 65536" "length (builder_suites b) * 2 < 65536" 
    using assms by (auto simp: fits_record_def MAX_CLIENT_HELLO_SIZE_def length_build_extensions)
  moreover have "extensions_loop (build_extensions (build_sni b)) None False = Ok (Some (to_ascii_lowercase (build_sni b)), True)"
    using assms by (intro build_extensions_parsed) (auto simp: fits_record_def MAX_CLIENT_HELLO_SIZE_def)
  ultimately show ?thesis
    by (simp del: of_nat_mult add: hello_fields_def build_hs_body_def Let_def buf_simps result_simps hello_extensions_def
       length_suites u16_list_concat built_hello_def mult.commute)
qed

lemma length_build: "length (build b) = 9 + length (build_hs_body b)"
  by (simp add: build_def Let_def)

lemma handshake_built:
  assumes "fits_record b" "utf8_valid (build_sni b)"
  shows "client_hello_handshake (drop 5 (build b)) = Ok (built_hello b)"
proof -
  have small: "length (build_hs_body b) < 2 ^ 24"
    using assms by (simp add: length_build_hs_body fits_record_def MAX_CLIENT_HELLO_SIZE_def)
  have "drop 5 (build b) = [TLS_CLIENT_HELLO_HANDSHAKE_TYPE] @
      [of_nat (drop_bit 16 (length (build_hs_body b)) AND 0xFF),
       of_nat (drop_bit 8 (length (build_hs_body b)) AND 0xFF),
       of_nat (length (build_hs_body b) AND 0xFF)] @ build_hs_body b"
    by (simp add: build_def Let_def)
  then show ?thesis using three_byte_length [OF small] hello_fields_built [OF assms]
    by (simp add: client_hello_handshake_def index_u8_def Let_def result_simps)
qed

text \<open>The record layer, on a record written with its header.\<close>

lemma client_hello_body_record:
  assumes "5 + unat len \<le> MAX_CLIENT_HELLO_SIZE"
  shows "client_hello_body (TLS_HANDSHAKE_CONTENT_TYPE # v1 # v2 # put_u16 len @ rest) =
    (if length rest < unat len then Err (NeedMoreData (5 + unat len))
     else client_hello_handshake (take (unat len) rest))"
  using put_u16_bytes [of len] assms
  by (auto simp: client_hello_body_def index_u8_def Let_def result_simps drop_take)

lemma build_record:
  "\<exists>v1 v2. build b = TLS_HANDSHAKE_CONTENT_TYPE # v1 # v2 # put_u16 (of_nat (4 + length (build_hs_body b))) @ drop 5 (build b)"
  using put_u16_bytes [of TLS_LEGACY_RECORD_VERSION] by (auto simp: build_def Let_def)

lemma fits_record_len:
  "fits_record b \<Longrightarrow> unat (of_nat (4 + length (build_hs_body b)) :: u16) = 4 + length (build_hs_body b)
     \<and> 9 + length (build_hs_body b) \<le> MAX_CLIENT_HELLO_SIZE"
  by (simp del: of_nat_add add: fits_record_def MAX_CLIENT_HELLO_SIZE_def length_build_hs_body)

lemma client_hello_body_built:
  assumes "fits_record b" "utf8_valid (build_sni b)"
  shows "client_hello_body (build b @ tail) = Ok (built_hello b)"
proof -
  obtain v1 v2 where b: "build b =
      TLS_HANDSHAKE_CONTENT_TYPE # v1 # v2 # put_u16 (of_nat (4 + length (build_hs_body b))) @ drop 5 (build b)"
    using build_record by blast
  then have eq: "build b @ tail = TLS_HANDSHAKE_CONTENT_TYPE # v1 # v2 #
      put_u16 (of_nat (4 + length (build_hs_body b))) @ (drop 5 (build b) @ tail)"
    by (metis append_Cons append_assoc)
  show ?thesis unfolding eq using fits_record_len [OF assms(1)] handshake_built [OF assms]
    by (simp del: of_nat_add add: client_hello_body_record length_build)
qed

lemma client_hello_body_prefix:
  assumes "fits_record b" "5 \<le> n" "n < length (build b)"
  shows "client_hello_body (take n (build b)) = Err (NeedMoreData (length (build b)))"
proof -
  obtain v1 v2 where b: "build b =
      TLS_HANDSHAKE_CONTENT_TYPE # v1 # v2 # put_u16 (of_nat (4 + length (build_hs_body b))) @ drop 5 (build b)"
    using build_record by blast
  have "take n (build b) = TLS_HANDSHAKE_CONTENT_TYPE # v1 # v2 #
      put_u16 (of_nat (4 + length (build_hs_body b))) @ take (n - 5) (drop 5 (build b))"
    using assms(2) by (subst b) (simp add: take_Cons' eval_nat_numeral del: of_nat_add)
  moreover have "n - 5 < 4 + length (build_hs_body b)" using assms(2,3) by (simp add: length_build)
  ultimately show ?thesis using fits_record_len [OF assms(1)]
    by (simp del: of_nat_add add: client_hello_body_record length_build)
qed

subsection \<open>Tokens\<close>

lemma subdomain_iff:
  "length s < length name \<and> name ! length s = c \<and> take (length s) name = s \<longleftrightarrow> (\<exists>domain. name = s @ c # domain)"
proof
  assume a: "length s < length name \<and> name ! length s = c \<and> take (length s) name = s"
  then show "\<exists>domain. name = s @ c # domain"
    using id_take_nth_drop [of "length s" name] by auto
qed auto

text \<open>When a hello is accepted: the secret's first 32 bytes open the random, or the host name is the secret, a
  subdomain label equal to it, or the expected host.\<close>

definition token_matches :: "TokenValidator \<Rightarrow> ParsedClientHello \<Rightarrow> bool" where
  "token_matches v hello \<longleftrightarrow>
     take (min (length (secret v)) 32) (random hello) = take 32 (secret v)
     \<or> (\<exists>name. sni hello = Some name \<and>
          (name = secret v \<or> (\<exists>domain. name = secret v @ 46 # domain) \<or> expected_sni v = Some name))"

lemma validate_token_eq:
  "validate_token v hello \<longleftrightarrow> insecure_no_token v \<or> secret v \<noteq> [] \<and> token_matches v hello"
proof (cases "sni hello")
  case None
  then show ?thesis by (simp add: validate_token_def token_matches_def Let_def constant_time_eq_iff min_def)
next
  case (Some name)
  then show ?thesis using subdomain_iff [of "secret v" name 46]
    by (simp add: validate_token_def token_matches_def Let_def constant_time_eq_iff min_def split: option.split)
       (metis option.inject)
qed

subsection \<open>Embedding the token in the host name\<close>

lemma hex_encode_no_dot: "46 \<notin> set (hex_encode bs)"
proof -
  have "hex_digit d \<noteq> 46" if "d < 16" for d using hex_digit_inverse [OF that] by (auto simp: to_digit16_def)
  moreover have "unat b div 16 < 16" for b :: u8 using unat_less_width(1) [of b] by simp
  ultimately show ?thesis by (fastforce simp: hex_encode_def)
qed

lemma lower_dot: "ascii_lower c = 46 \<longleftrightarrow> c = 46"
  by (auto simp: ascii_lower_def word_le_nat_alt word_unat_eq_iff unat_word_ariths)

text \<open>The label the builder puts in front of the host is twice as long as the secret, so that the validator, which
  compares with the secret itself, finds a hexadecimal digit where it wants the dot.\<close>

lemma hex_label_not_secret:
  assumes "s \<noteq> []" "to_ascii_lowercase (hex_encode s @ 46 # host) = name"
  shows "name \<noteq> s \<and> name \<noteq> s @ 46 # domain"
proof -
  have len: "length s < length (hex_encode s)" using assms(1) by simp
  have "hex_encode s ! length s \<noteq> 46"
    using hex_encode_no_dot [of s] nth_mem [OF len] by metis
  moreover have "name ! length s = ascii_lower (hex_encode s ! length s)"
    using assms(2) len by (auto simp: to_ascii_lowercase_def nth_append simp del: length_hex_encode)
  ultimately have "name \<noteq> s @ 46 # domain" by (auto simp: lower_dot)
  moreover have "length s < length name" using assms by (auto simp: to_ascii_lowercase_def)
  ultimately show ?thesis by auto
qed

subsection \<open>Properties\<close>

text \<open>C9: for every input the parser of untrusted ClientHello records returns a status without panicking; a parsed
  hello has a 32-byte random, a session id of at most 255 bytes and a lower-case UTF-8 host name; and it asks for
  more data only when bytes are missing, never for more than 4096 in all.\<close>

theorem client_hello_parser_safe:
  "\<exists>status. parse_client_hello src = (Ok status :: ('e, ClientHelloStatus) result) \<and>
     (case status of
        Complete hello \<Rightarrow> wf_hello hello
      | NeedMoreData n \<Rightarrow> length src < n \<and> n \<le> MAX_CLIENT_HELLO_SIZE
      | Invalid why \<Rightarrow> True)"
  using client_hello_body_post [of src]
  by (auto simp: parse_client_hello_def result_post_def split: result.splits ClientHelloStatus.splits)

text \<open>C23: the record a client builds, followed by anything, is parsed to exactly the fields it was built from, and
  every proper prefix of it makes the parser ask for the rest of the record (or, below five bytes, for the record
  header), provided the record fits the parser's bound and the host name is text.\<close>

theorem client_hello_roundtrip:
  assumes "fits_record b" "utf8_valid (build_sni b)"
  shows "parse_client_hello (build b @ tail) = Ok (Complete (built_hello b)) \<and>
    (\<forall>n < length (build b).
       parse_client_hello (take n (build b)) = Ok (NeedMoreData (if n < 5 then 5 else length (build b))))"
  using client_hello_body_built [OF assms] client_hello_body_prefix [OF assms(1)]
  by (simp add: parse_client_hello_def client_hello_body_def [of "take _ _"] not_less)

theorem client_hello_roundtrip_witness:
  "parse_client_hello (build (pseudo_tls_new [1, 2, 3] (lit ''A.io'')) @ [7])
    = (Ok (Complete (built_hello (pseudo_tls_new [1, 2, 3] (lit ''A.io'')))) :: (unit, ClientHelloStatus) result)"
proof -
  have "fits_record (pseudo_tls_new [1, 2, 3] (lit ''A.io''))" by code_simp
  moreover have "utf8_valid (build_sni (pseudo_tls_new [1, 2, 3] (lit ''A.io'')))" by code_simp
  ultimately show ?thesis using client_hello_roundtrip by blast
qed

text \<open>When a hello is accepted. Without the insecure switch and with a configured secret, it is accepted exactly
  when the first 32 bytes of the secret open its random, or its host name is the secret, the secret followed by a dot,
  or the expected host; without a configured secret nothing is accepted.\<close>

theorem validate_token_iff:
  "validate_token v hello \<longleftrightarrow> insecure_no_token v \<or> secret v \<noteq> [] \<and> token_matches v hello"
  by (rule validate_token_eq)

text \<open>A client that embeds the relay's non-empty token in the random is accepted by the relay, whatever host name
  it hides behind: parsing the record it sends gives a hello that the validator for the same token accepts.\<close>

theorem client_token_accepted:
  assumes "token \<noteq> []" "length host \<le> 3926" "utf8_valid host"
  shows "\<exists>hello. parse_client_hello (build (pseudo_tls_new token host)) = (Ok (Complete hello) :: (unit, _) result)
    \<and> validate_token (token_validator_new token) hello"
proof (intro exI conjI)
  let ?b = "pseudo_tls_new token host"
  have "fits_record ?b" "utf8_valid (build_sni ?b)"
    using assms by (simp_all add: fits_record_def pseudo_tls_new_def build_sni_def MAX_CLIENT_HELLO_SIZE_def)
  from client_hello_body_built [OF this, of "[]"]
  show "parse_client_hello (build ?b) = (Ok (Complete (built_hello ?b)) :: (unit, _) result)"
    by (simp add: parse_client_hello_def)
  show "validate_token (token_validator_new token) (built_hello ?b)"
    using assms(1) by (simp add: validate_token_eq token_validator_new_def token_matches_def built_hello_def
        pseudo_tls_new_def build_random_def Let_def min_def)
qed

theorem client_token_accepted_witness:
  "\<exists>hello. parse_client_hello (build (pseudo_tls_new [9, 8, 7] (lit ''cdn.net''))) = (Ok (Complete hello) :: (unit, _) result)
    \<and> validate_token (token_validator_new [9, 8, 7]) hello"
proof -
  have "utf8_valid (lit ''cdn.net'')" "length (lit ''cdn.net'') \<le> 3926" by code_simp+
  then show ?thesis using client_token_accepted by blast
qed

text \<open>A client that embeds the token in the host name is rejected by the relay with the same token, unless the
  token's first 32 bytes are the filler byte \<open>0x5a\<close>: the builder writes the token in hexadecimal and the validator
  compares with the raw token.\<close>

theorem sni_embedding_rejected:
  assumes "secret_token b \<noteq> []" "token_in_sni b"
    and "take 32 (secret_token b) \<noteq> replicate (min (length (secret_token b)) 32) 0x5a"
  shows "\<not> validate_token (token_validator_new (secret_token b)) (built_hello b)"
proof -
  have "take (min (length (secret_token b)) 32) (build_random b) \<noteq> take 32 (secret_token b)"
    using assms(2,3) by (auto simp: build_random_def Let_def min_def)
  with hex_label_not_secret [OF assms(1) refl] assms show ?thesis
    by (auto simp: validate_token_eq token_matches_def token_validator_new_def built_hello_def build_sni_def)
qed

theorem sni_embedding_rejected_witness:
  "\<not> validate_token (token_validator_new [1, 2, 3]) (built_hello (embed_in_sni True (pseudo_tls_new [1, 2, 3] (lit ''a''))))"
  using sni_embedding_rejected [of "embed_in_sni True (pseudo_tls_new [1, 2, 3] (lit ''a''))"]
  by (simp add: embed_in_sni_def pseudo_tls_new_def)

end
