(* ===== verification/Listener.thy ===== *)
theory Listener
  imports Obfuscation
begin

section \<open>Classifying connections\<close>

text \<open>
  \<open>handle_connection\<close> and \<open>PrefixedStream\<close> of \<open>src/server/routed_listener.rs\<close> and of
  \<open>src/server/listener.rs\<close>: what a listener does with a new connection, from its first bytes. The client's stream is
  the bytes of the first \<open>read\<close> and the bytes that arrive after it; \<open>read_exact\<close> fails when fewer arrive, with an error
  of the environment's choice, and what did arrive is lost. The verdict is that the connection ended, that it is proxied to the fallback site with
  the bytes already read, or that a Noise session starts on a stream prefixed with the bytes left over. The proxy
  and the prefix of the token in the log follow. The lemmas show when a session starts, that a client's hello is
  recognised however it is fragmented, and that the routed listener loses no byte and the pipeline listener those of a
  hello cut short.
\<close>

subsection \<open>Streams\<close>

definition read_exact :: "io_error_kind \<Rightarrow> nat \<Rightarrow> bytes \<Rightarrow> (io_error_kind, bytes \<times> bytes) result" where
  "read_exact stalled n incoming =
     (if length incoming < n then Err stalled else Ok (take n incoming, drop n incoming))"

record PrefixedStream =
  prefix_bytes :: bytes
  position :: nat
  inner :: bytes

definition prefixed_stream_new :: "bytes \<Rightarrow> bytes \<Rightarrow> PrefixedStream" where
  "prefixed_stream_new p s = \<lparr>prefix_bytes = p, position = 0, inner = s\<rparr>"

text \<open>One \<open>poll_read\<close> into a buffer with \<open>room\<close> bytes left; the inner stream delivers up to \<open>avail\<close> of its bytes.\<close>

definition poll_read :: "nat \<Rightarrow> nat \<Rightarrow> PrefixedStream \<Rightarrow> bytes \<times> PrefixedStream" where
  "poll_read room avail s =
     (if position s < length (prefix_bytes s) then
        let n = min (length (prefix_bytes s) - position s) room in
        (take n (drop (position s) (prefix_bytes s)), s\<lparr>position := position s + n\<rparr>)
      else let n = min avail room in (take n (inner s), s\<lparr>inner := drop n (inner s)\<rparr>))"

fun poll_reads :: "(nat \<times> nat) list \<Rightarrow> PrefixedStream \<Rightarrow> bytes \<times> PrefixedStream" where
  "poll_reads [] s = ([], s)"
| "poll_reads ((room, avail) # rs) s =
     (let (bs, s1) = poll_read room avail s; (cs, s2) = poll_reads rs s1 in (bs @ cs, s2))"

definition unread :: "PrefixedStream \<Rightarrow> bytes" where
  "unread s = drop (position s) (prefix_bytes s) @ inner s"

lemma poll_read_unread: "poll_read room avail s = (bs, s') \<Longrightarrow> unread s = bs @ unread s'"
  by (auto simp: poll_read_def unread_def Let_def split: if_splits)
    (metis append_take_drop_id append_assoc drop_drop add.commute)

lemma poll_reads_unread: "poll_reads rs s = (bs, s') \<Longrightarrow> unread s = bs @ unread s'"
  by (induction rs s arbitrary: bs s' rule: poll_reads.induct)
    (auto simp: Let_def dest!: poll_read_unread split: prod.splits)

subsection \<open>Verdicts\<close>

datatype verdict =
    Ended
  | Proxied (replayed: bytes)
  | NoiseSession (stream: PrefixedStream)

text \<open>\<open>std::env::var("ECHOMESH_INSECURE_NO_AUTH")\<close>, \<open>None\<close> when the variable is not set.\<close>

definition insecure_env :: "bytes option \<Rightarrow> bool" where
  "insecure_env var = (case var of Some v \<Rightarrow> v = lit ''1'' \<or> eq_ignore_ascii_case v (lit ''true'') | None \<Rightarrow> False)"

definition hello_authenticated :: "TokenValidator \<Rightarrow> bytes option \<Rightarrow> ParsedClientHello \<Rightarrow> bool" where
  "hello_authenticated v var hello = ((insecure_no_token v \<or> insecure_env var) \<or> validate_token v hello)"

definition record_consumed :: "bytes \<Rightarrow> nat" where
  "record_consumed initial =
     (if length initial \<ge> 5 then 5 + unat (of_nat (nat_from_be [initial ! 3, initial ! 4]) :: u16) else 0)"

definition direct_noise_len :: "bytes \<Rightarrow> nat" where
  "direct_noise_len initial =
     (if length initial \<ge> 2 then unat (of_nat (nat_from_be [initial ! 0, initial ! 1]) :: u16) else 0)"

subsection \<open>The routed listener\<close>

text \<open>The loop of the TLS branch: its value is whether the client authenticated, the bytes read so far, the length of
  the hello record, and what is left to arrive.\<close>

function routed_auth ::
    "TokenValidator \<Rightarrow> bytes option \<Rightarrow> io_error_kind \<Rightarrow> bytes \<Rightarrow> bytes \<Rightarrow> (io_error_kind, bool \<times> bytes \<times> nat \<times> bytes) result" where
  "routed_auth v var stalled initial incoming =
     (case parse_client_hello initial :: (unit, ClientHelloStatus) result of
        Ok (Complete parsed) \<Rightarrow> Ok (hello_authenticated v var parsed, initial, record_consumed initial, incoming)
      | Ok (NeedMoreData n) \<Rightarrow>
          if n > MAX_CLIENT_HELLO_SIZE \<or> n \<le> length initial then Ok (False, initial, 0, incoming)
          else (case read_exact stalled (n - length initial) incoming of
              Ok (rest, incoming') \<Rightarrow> routed_auth v var stalled (initial @ rest) incoming'
            | Err e \<Rightarrow> Err e
            | Panic \<Rightarrow> Panic)
      | Ok (Invalid why) \<Rightarrow> Ok (False, initial, 0, incoming)
      | _ \<Rightarrow> Panic)"
  by pat_completeness auto
termination
  by (relation "measure (\<lambda>(_, _, _, initial, _). MAX_CLIENT_HELLO_SIZE - length initial)")
    (auto simp: read_exact_def split: if_splits)

declare routed_auth.simps [simp del]

definition routed_handle_connection ::
    "TokenValidator \<Rightarrow> bool \<Rightarrow> bytes option \<Rightarrow> io_error_kind \<Rightarrow> (io_error_kind, bytes) result \<Rightarrow> bytes
      \<Rightarrow> (io_error_kind, verdict \<times> bytes) result" where
  "routed_handle_connection v cfg_insecure var stalled first incoming =
     and_then first (\<lambda>initial.
     if initial = [] then Ok (Ended, incoming)
     else and_then (index_u8 initial 0) (\<lambda>b0.
     if b0 = TLS_HANDSHAKE_CONTENT_TYPE then
       and_then (routed_auth v var stalled initial incoming) (\<lambda>(authenticated, initial, consumed_len, incoming).
       if \<not> authenticated then Ok (Proxied initial, incoming)
       else
         let leftover = (if length initial > consumed_len then drop consumed_len initial else []) in
         Ok (NoiseSession (prefixed_stream_new leftover incoming), incoming))
     else
       let msg_len = direct_noise_len initial in
       if cfg_insecure \<and> 32 \<le> msg_len \<and> msg_len \<le> 128
       then Ok (NoiseSession (prefixed_stream_new initial incoming), incoming)
       else Ok (Proxied initial, incoming)))"

subsection \<open>The pipeline listener\<close>

text \<open>The older listener reads at most once more, and its read errors end in the proxy or in silence. Since the
  connection may go on after a read that failed, \<open>incoming\<close> are here the bytes that arrive before the read gives up
  (at its deadline, at the end of the stream or with an error) and \<open>late\<close> those that arrive after that. A failed
  \<open>read_exact\<close> has taken what arrived off the stream, into a buffer that is dropped.\<close>

definition legacy_auth ::
    "TokenValidator \<Rightarrow> bytes option \<Rightarrow> io_error_kind \<Rightarrow> bytes \<Rightarrow> bytes \<Rightarrow> bytes \<Rightarrow> (unit, bool \<times> bytes \<times> nat \<times> bytes) result" where
  "legacy_auth v var stalled initial incoming late =
     (case parse_client_hello initial :: (unit, ClientHelloStatus) result of
        Ok (Complete parsed) \<Rightarrow> Ok (hello_authenticated v var parsed, initial, record_consumed initial, incoming @ late)
      | Ok (NeedMoreData n) \<Rightarrow>
          (let needed = min (n - length initial) MAX_CLIENT_HELLO_SIZE in
           if needed > 0 then
             (case read_exact stalled needed incoming of
                Ok (rest, incoming') \<Rightarrow>
                  (case parse_client_hello (initial @ rest) :: (unit, ClientHelloStatus) result of
                     Ok (Complete parsed) \<Rightarrow>
                       Ok (hello_authenticated v var parsed, initial @ rest, record_consumed (initial @ rest), incoming' @ late)
                   | Ok _ \<Rightarrow> Ok (False, initial @ rest, 0, incoming' @ late)
                   | _ \<Rightarrow> Panic)
              | _ \<Rightarrow> Ok (False, initial, 0, late))
           else Ok (False, initial, 0, incoming @ late))
      | Ok (Invalid why) \<Rightarrow> Ok (False, initial, 0, incoming @ late)
      | _ \<Rightarrow> Panic)"

text \<open>What the listener logs of the first read, at the level \<open>info\<close>.\<close>

definition hex_prefix :: "bytes \<Rightarrow> bytes" where
  "hex_prefix initial_buf = hex_encode (take (min (length initial_buf) 16) initial_buf)"

definition legacy_handle_connection ::
    "TokenValidator \<Rightarrow> bytes option \<Rightarrow> io_error_kind \<Rightarrow> (io_error_kind, bytes) result \<Rightarrow> bytes \<Rightarrow> bytes
      \<Rightarrow> (unit, verdict \<times> bytes) result" where
  "legacy_handle_connection v var stalled first incoming late =
     (case first of
        Panic \<Rightarrow> Panic
      | Err _ \<Rightarrow> Ok (Ended, incoming @ late)
      | Ok initial \<Rightarrow>
          if initial = [] then Ok (Ended, incoming @ late)
          else and_then (index_u8 initial 0) (\<lambda>b0.
            if b0 = TLS_HANDSHAKE_CONTENT_TYPE then
              and_then (legacy_auth v var stalled initial incoming late) (\<lambda>(authenticated, initial, consumed_len, incoming).
              if authenticated then
                let leftover = (if length initial > consumed_len then drop consumed_len initial else []) in
                Ok (NoiseSession (prefixed_stream_new leftover incoming), incoming)
              else Ok (Proxied initial, incoming))
            else
              let msg_len = direct_noise_len initial in
              if 32 \<le> msg_len \<and> msg_len \<le> 128
              then Ok (NoiseSession (prefixed_stream_new initial (incoming @ late)), incoming @ late)
              else Ok (Proxied initial, incoming @ late)))"

subsection \<open>The proxy\<close>

text \<open>\<open>fall_through_proxy\<close>: nothing happens without a target or a connection to it; otherwise the bytes read so far are
  written to the upstream site, and then both directions are copied until they end or 30 seconds are over. The
  environment decides whether the connection succeeds (\<open>connected\<close>), after how many bytes the first write fails, if it
  does (\<open>broken\<close>), and how many bytes are copied either way (\<open>sent_up\<close>, \<open>sent_down\<close>). The value is what the upstream site and
  the client receive.\<close>

definition fall_through_proxy ::
    "bytes \<Rightarrow> bool \<Rightarrow> nat option \<Rightarrow> nat \<Rightarrow> nat \<Rightarrow> bytes \<Rightarrow> bytes \<Rightarrow> bytes \<Rightarrow> (bytes \<times> bytes) option" where
  "fall_through_proxy fallback_target connected broken sent_up sent_down initial incoming replies =
     (if trim fallback_target = [] then None
      else if \<not> connected then None
      else case (if initial \<noteq> [] then broken else None) of
          Some k \<Rightarrow> Some (take k initial, [])
        | None \<Rightarrow> Some (initial @ take sent_up incoming, take sent_down replies))"

definition legacy_fall_through_proxy ::
    "bytes \<Rightarrow> bool \<Rightarrow> nat option \<Rightarrow> nat \<Rightarrow> nat \<Rightarrow> bytes \<Rightarrow> bytes \<Rightarrow> bytes \<Rightarrow> (bytes \<times> bytes) option" where
  "legacy_fall_through_proxy fallback_target connected broken sent_up sent_down initial_buf incoming replies =
     (if trim fallback_target = [] then None
      else if connected then
        (if initial_buf \<noteq> [] \<and> broken \<noteq> None then Some (take (the broken) initial_buf, [])
         else Some (initial_buf @ take sent_up incoming, take sent_down replies))
      else None)"

lemma proxies_agree: "legacy_fall_through_proxy = fall_through_proxy"
  by (intro ext) (auto simp: legacy_fall_through_proxy_def fall_through_proxy_def split: option.split)

lemma proxy_transparent:
  "case fall_through_proxy target connected broken sent_up sent_down initial incoming replies of
     None \<Rightarrow> trim target = [] \<or> \<not> connected
   | Some (up, down) \<Rightarrow> (\<exists>k. up = take k (initial @ incoming)) \<and> (\<exists>k. down = take k replies)"
proof -
  have "\<exists>k'. take k initial = take k' (initial @ incoming)" for k
    by (rule exI [of _ "min k (length initial)"]) (simp add: min_def)
  moreover have "\<exists>k'. initial @ take sent_up incoming = take k' (initial @ incoming)"
    by (rule exI [of _ "length initial + sent_up"]) simp
  moreover have "\<exists>k. [] = take k replies" by (rule exI [of _ 0]) simp
  ultimately show ?thesis by (auto simp: fall_through_proxy_def split: option.split)
qed

lemma proxy_complete:
  assumes "trim target \<noteq> []" "length incoming \<le> sent_up" "length replies \<le> sent_down"
  shows "fall_through_proxy target True None sent_up sent_down initial incoming replies = Some (initial @ incoming, replies)"
  using assms by (simp add: fall_through_proxy_def)

subsection \<open>No byte is lost\<close>

lemma parse_statuses:
  obtains hello where "parse_client_hello src = (Ok (Complete hello) :: (unit, ClientHelloStatus) result)" "wf_hello hello"
  | n where "parse_client_hello src = (Ok (NeedMoreData n) :: (unit, ClientHelloStatus) result)" "length src < n"
      "n \<le> MAX_CLIENT_HELLO_SIZE"
  | why where "parse_client_hello src = (Ok (Invalid why) :: (unit, ClientHelloStatus) result)"
  using client_hello_body_post [of src]
  by (auto simp: parse_client_hello_def result_post_def split: result.splits ClientHelloStatus.splits)

text \<open>One turn of the loop, and induction over its turns.\<close>

lemma routed_auth_more:
  assumes "parse_client_hello initial = (Ok (NeedMoreData n) :: (unit, ClientHelloStatus) result)" "length initial < n"
    "n \<le> MAX_CLIENT_HELLO_SIZE"
  shows "routed_auth v var stalled initial incoming =
    (if length incoming < n - length initial then Err stalled
     else routed_auth v var stalled (initial @ take (n - length initial) incoming) (drop (n - length initial) incoming))"
  using assms by (simp add: routed_auth.simps [of v var stalled initial] read_exact_def)

lemma routed_auth_induct [case_names complete invalid stalled turn]:
  assumes "\<And>initial incoming hello. parse_client_hello initial = (Ok (Complete hello) :: (unit, ClientHelloStatus) result) \<Longrightarrow>
      wf_hello hello \<Longrightarrow> routed_auth v var stalled initial incoming
        = Ok (hello_authenticated v var hello, initial, record_consumed initial, incoming) \<Longrightarrow> P initial incoming"
    and "\<And>initial incoming. routed_auth v var stalled initial incoming = Ok (False, initial, 0, incoming) \<Longrightarrow> P initial incoming"
    and "\<And>initial incoming. routed_auth v var stalled initial incoming = Err stalled \<Longrightarrow> P initial incoming"
    and "\<And>initial incoming k. k \<le> length incoming \<Longrightarrow> routed_auth v var stalled initial incoming
        = routed_auth v var stalled (initial @ take k incoming) (drop k incoming) \<Longrightarrow>
      P (initial @ take k incoming) (drop k incoming) \<Longrightarrow> P initial incoming"
  shows "P initial incoming"
proof (induction "MAX_CLIENT_HELLO_SIZE - length initial" arbitrary: initial incoming rule: less_induct)
  case (less initial incoming)
  show ?case
  proof (cases initial rule: parse_statuses)
    case (1 hello)
    moreover from 1 have "routed_auth v var stalled initial incoming
        = Ok (hello_authenticated v var hello, initial, record_consumed initial, incoming)"
      by (simp add: routed_auth.simps [of v var stalled initial])
    ultimately show ?thesis by (rule assms(1))
  next
    case (2 n)
    note step = routed_auth_more [OF 2, of v var stalled incoming]
    show ?thesis
    proof (cases "length incoming < n - length initial")
      case True
      with step show ?thesis using assms(3) [of initial incoming] by simp
    next
      case False
      with step have "routed_auth v var stalled initial incoming = routed_auth v var stalled
        (initial @ take (n - length initial) incoming) (drop (n - length initial) incoming)" by simp
      moreover have "P (initial @ take (n - length initial) incoming) (drop (n - length initial) incoming)"
        by (rule less.hyps) (use 2(2,3) False in simp)
      ultimately show ?thesis by (rule assms(4) [rotated]) (use False in simp)
    qed
  next
    case (3 why)
    then have "routed_auth v var stalled initial incoming = Ok (False, initial, 0, incoming)"
      by (simp add: routed_auth.simps [of v var stalled initial])
    then show ?thesis by (rule assms(2))
  qed
qed

lemma routed_auth_post:
  "case routed_auth v var stalled initial incoming of
     Panic \<Rightarrow> False
   | Err e \<Rightarrow> e = stalled
   | Ok (auth, src, consumed, rest) \<Rightarrow> src @ rest = initial @ incoming
       \<and> (auth \<longrightarrow> (\<exists>hello. parse_client_hello src = (Ok (Complete hello) :: (unit, ClientHelloStatus) result)
            \<and> hello_authenticated v var hello \<and> consumed = record_consumed src))"
  by (induction initial incoming rule: routed_auth_induct [where v = v and var = var and stalled = stalled])
    (auto split: result.splits)

subsection \<open>A fragmented hello\<close>

lemma parse_short: "length src < 5 \<Longrightarrow> parse_client_hello src = Ok (NeedMoreData 5)"
  by (simp add: parse_client_hello_def client_hello_body_def)

lemma parse_built:
  assumes "fits_record b" "utf8_valid (build_sni b)"
  shows "parse_client_hello (build b @ tail) = Ok (Complete (built_hello b))"
  using client_hello_body_built [OF assms] by (simp add: parse_client_hello_def)

lemma parse_prefix:
  assumes "fits_record b" "5 \<le> n" "n < length (build b)"
  shows "parse_client_hello (take n (build b)) = Ok (NeedMoreData (length (build b)))"
  using client_hello_body_prefix [OF assms] by (simp add: parse_client_hello_def)

lemma build_starts: "0 < k \<Longrightarrow> take k (build b) \<noteq> [] \<and> hd (take k (build b)) = TLS_HANDSHAKE_CONTENT_TYPE"
  by (simp add: build_def Let_def hd_take)

lemma record_consumed_built:
  assumes "fits_record b" shows "record_consumed (build b @ tail) = length (build b)"
proof -
  let ?len = "of_nat (4 + length (build_hs_body b)) :: u16"
  obtain v1 v2 where b: "build b = TLS_HANDSHAKE_CONTENT_TYPE # v1 # v2 # put_u16 ?len @ drop 5 (build b)"
    using build_record by blast
  obtain x y where xy: "put_u16 ?len = [x, y]" "of_nat (nat_from_be [x, y]) = ?len"
    using put_u16_bytes by blast
  then obtain rest where "build b = TLS_HANDSHAKE_CONTENT_TYPE # v1 # v2 # x # y # rest" using b by auto
  then have "(build b @ tail) ! 3 = x \<and> (build b @ tail) ! 4 = y" by simp
  then show ?thesis
    using xy(2) fits_record_len [OF assms] by (simp add: record_consumed_def length_build)
qed

lemma routed_auth_whole:
  assumes "fits_record b" "utf8_valid (build_sni b)"
  shows "routed_auth v var stalled (build b @ extra) incoming
    = Ok (hello_authenticated v var (built_hello b), build b @ extra, length (build b), incoming)"
  by (simp add: routed_auth.simps parse_built [OF assms] record_consumed_built [OF assms(1)])

lemma routed_auth_reads:
  assumes "parse_client_hello initial = (Ok (NeedMoreData n) :: (unit, ClientHelloStatus) result)" "length initial < n"
    "n \<le> MAX_CLIENT_HELLO_SIZE" "initial @ incoming = full" "n \<le> length full"
  shows "routed_auth v var stalled initial incoming = routed_auth v var stalled (take n full) (drop n full)"
proof -
  have "initial @ take (n - length initial) incoming = take n full" "drop (n - length initial) incoming = drop n full"
    using assms(2,4) by auto
  moreover have "\<not> length incoming < n - length initial" using assms by auto
  ultimately show ?thesis using assms(1-3) by (simp add: routed_auth.simps [of v var stalled initial] read_exact_def)
qed

lemma routed_auth_built:
  assumes "fits_record b" "utf8_valid (build_sni b)" "initial @ incoming = build b @ tail"
  shows "\<exists>extra incoming'. routed_auth v var stalled initial incoming
      = Ok (hello_authenticated v var (built_hello b), build b @ extra, length (build b), incoming') \<and> extra @ incoming' = tail"
proof (cases "length (build b) \<le> length initial")
  case True
  then obtain extra where "initial = build b @ extra" "extra @ incoming = tail"
    using assms(3) by (metis append_eq_append_conv_if append_take_drop_id)
  then show ?thesis using routed_auth_whole [OF assms(1,2), of v var stalled extra incoming] by auto
next
  case False
  have size: "length (build b) \<le> MAX_CLIENT_HELLO_SIZE" "5 < length (build b)"
    using fits_record_len [OF assms(1)] by (simp_all add: length_build)
  have mid: "routed_auth v var stalled (take k (build b)) (drop k (build b) @ tail)
      = routed_auth v var stalled (build b) tail" if "5 \<le> k" "k < length (build b)" for k
    using routed_auth_reads [OF parse_prefix [OF assms(1) that], of "drop k (build b) @ tail" "build b @ tail"] that size
    by simp
  have init: "initial = take (length initial) (build b)" "incoming = drop (length initial) (build b) @ tail"
    using False assms(3) by (metis append_eq_conv_conj nat_le_linear take_append take_all_iff diff_is_0_eq take0 append_Nil2,
      metis append_eq_conv_conj nat_le_linear drop_append diff_is_0_eq drop0)
  have "routed_auth v var stalled initial incoming = routed_auth v var stalled (build b) tail"
  proof (cases "5 \<le> length initial")
    case True
    with mid [of "length initial"] False init show ?thesis by simp
  next
    case short: False
    have "routed_auth v var stalled initial incoming = routed_auth v var stalled (take 5 (build b @ tail)) (drop 5 (build b @ tail))"
      using short size by (intro routed_auth_reads [OF parse_short _ _ assms(3)]) (auto simp: MAX_CLIENT_HELLO_SIZE_def)
    with mid [of 5] size show ?thesis by simp
  qed
  then show ?thesis using routed_auth_whole [OF assms(1,2), of v var stalled "[]" tail] by auto
qed

lemma complete_consumed:
  assumes "parse_client_hello src = (Ok (Complete hello) :: (unit, ClientHelloStatus) result)"
  shows "record_consumed src \<le> length src"
proof -
  have "client_hello_body src = Ok hello"
    using assms client_hello_body_post [of src]
    by (auto simp: parse_client_hello_def result_post_def split: result.splits)
  then show ?thesis
    by (auto simp: client_hello_body_def record_consumed_def Let_def index_u8_def and_then_Ok_iff split: if_splits)
qed

lemma leftover_unread:
  assumes "parse_client_hello src = (Ok (Complete hello) :: (unit, ClientHelloStatus) result)"
  shows "(if length src > record_consumed src then drop (record_consumed src) src else []) @ rest
    = drop (record_consumed src) (src @ rest)"
  using complete_consumed [OF assms] by simp

lemma unread_new [simp]: "unread (prefixed_stream_new p s) = p @ s"
  by (simp add: unread_def prefixed_stream_new_def)

lemma index_u8_nonempty: "bs \<noteq> [] \<Longrightarrow> index_u8 bs 0 = Ok (hd bs)"
  by (cases bs) (simp_all add: index_u8_def)

lemma hello_starts_session:
  assumes "token \<noteq> []" "length host \<le> 3926" "utf8_valid host"
    and "initial \<noteq> []" "initial @ incoming = build (pseudo_tls_new token host) @ tail"
  shows "\<exists>s incoming'. routed_handle_connection (token_validator_new token) cfg_insecure var stalled (Ok initial) incoming
      = Ok (NoiseSession s, incoming') \<and> unread s = tail"
proof -
  let ?b = "pseudo_tls_new token host"
  have b: "fits_record ?b" "utf8_valid (build_sni ?b)"
    using assms by (simp_all add: fits_record_def pseudo_tls_new_def build_sni_def MAX_CLIENT_HELLO_SIZE_def)
  have "hello_authenticated (token_validator_new token) var (built_hello ?b)"
    using assms(1) by (simp add: hello_authenticated_def validate_token_eq token_validator_new_def token_matches_def
        built_hello_def pseudo_tls_new_def build_random_def Let_def min_def)
  then obtain extra incoming' where auth: "routed_auth (token_validator_new token) var stalled initial incoming
      = Ok (True, build ?b @ extra, length (build ?b), incoming')" "extra @ incoming' = tail"
    using routed_auth_built [OF b assms(5), of "token_validator_new token" var stalled] by auto
  have "hd initial = TLS_HANDSHAKE_CONTENT_TYPE"
    using assms(4) arg_cong [OF assms(5), of hd] by (simp add: build_def Let_def)
  with auth assms(4) show ?thesis
    by (auto simp: routed_handle_connection_def index_u8_nonempty Let_def)
qed

subsection \<open>Properties\<close>

text \<open>C5: the routed listener on a connection whose client sends \<open>initial\<close> first and \<open>incoming\<close> after it. It never
  panics. A session starts only if the client's bytes begin with a complete TLS hello that authenticates (or token
  checks are switched off), and then the Noise handshake reads exactly the bytes after that hello record; or, only with
  token checks switched off in the configuration, if the first two bytes announce a direct handshake message of 32 to
  128 bytes, and then it reads the whole stream. Everyone else is proxied: the proxy has the client's whole stream,
  nothing withheld or added, so that the fallback site receives its bytes in order up to where the copying ends, and
  the client receives the site's.\<close>

theorem routed_listener_verdicts:
  assumes "initial \<noteq> []"
  shows "case routed_handle_connection v cfg_insecure var stalled (Ok initial) incoming of
      Panic \<Rightarrow> False
    | Err e \<Rightarrow> e = stalled
    | Ok (Ended, _) \<Rightarrow> False
    | Ok (Proxied bs, incoming') \<Rightarrow> bs @ incoming' = initial @ incoming
        \<and> (case fall_through_proxy target connected broken sent_up sent_down bs incoming' replies of
             None \<Rightarrow> trim target = [] \<or> \<not> connected
           | Some (up, down) \<Rightarrow> (\<exists>k. up = take k (initial @ incoming)) \<and> (\<exists>k. down = take k replies))
    | Ok (NoiseSession s, incoming') \<Rightarrow>
        (\<exists>src hello. hd initial = TLS_HANDSHAKE_CONTENT_TYPE \<and> src @ incoming' = initial @ incoming
           \<and> parse_client_hello src = (Ok (Complete hello) :: (unit, ClientHelloStatus) result)
           \<and> (insecure_no_token v \<or> insecure_env var \<or> validate_token v hello)
           \<and> unread s = drop (record_consumed src) (initial @ incoming))
        \<or> cfg_insecure \<and> hd initial \<noteq> TLS_HANDSHAKE_CONTENT_TYPE \<and> 32 \<le> direct_noise_len initial
           \<and> direct_noise_len initial \<le> 128 \<and> unread s = initial @ incoming"
proof (cases "hd initial = TLS_HANDSHAKE_CONTENT_TYPE")
  case True
  note post = routed_auth_post [where v = v and var = var and stalled = stalled and initial = initial and incoming = incoming]
  show ?thesis
  proof (cases "routed_auth v var stalled initial incoming")
    case (Ok x)
    obtain auth src consumed rest where x: "x = (auth, src, consumed, rest)" by (cases x)
    have src: "src @ rest = initial @ incoming" "auth \<longrightarrow> (\<exists>hello. parse_client_hello src =
        (Ok (Complete hello) :: (unit, ClientHelloStatus) result) \<and> hello_authenticated v var hello \<and> consumed = record_consumed src)"
      using post by (simp_all add: Ok x)
    have eq: "routed_handle_connection v cfg_insecure var stalled (Ok initial) incoming
        = Ok (if auth then NoiseSession (prefixed_stream_new (if length src > consumed then drop consumed src else []) rest)
              else Proxied src, rest)"
      using assms True by (simp add: routed_handle_connection_def index_u8_nonempty Ok x)
    show ?thesis
    proof (cases auth)
      case False
      with proxy_transparent [where target = target and connected = connected and broken = broken and sent_up = sent_up
        and sent_down = sent_down and initial = src and incoming = rest and replies = replies, unfolded src(1)] show ?thesis by (simp add: eq src(1))
    next
      case auth: True
      with src(2) obtain hello where "parse_client_hello src = (Ok (Complete hello) :: (unit, ClientHelloStatus) result)"
        "hello_authenticated v var hello" "consumed = record_consumed src" by blast
      with auth True src(1) leftover_unread [of src hello rest] show ?thesis
        by (auto simp: eq hello_authenticated_def)
    qed
  qed (use post True assms in
      \<open>simp_all add: routed_handle_connection_def index_u8_nonempty\<close>)
next
  case False
  with assms proxy_transparent [where target = target and connected = connected and broken = broken and sent_up = sent_up
        and sent_down = sent_down and initial = initial and incoming = incoming and replies = replies] show ?thesis
    by (auto simp: routed_handle_connection_def index_u8_nonempty Let_def)
qed

theorem routed_listener_verdicts_witness:
  "case routed_handle_connection (token_validator_new [1]) False None TimedOut (Ok [71, 69, 84]) [32] of
      Ok (Proxied bs, incoming') \<Rightarrow> bs @ incoming' = [71, 69, 84, 32] | _ \<Rightarrow> False"
  using routed_listener_verdicts [where initial = "[71, 69, 84]" and v = "token_validator_new [1]" and cfg_insecure = False
      and var = None and stalled = TimedOut and incoming = "[32]"]
  by (simp add: routed_handle_connection_def index_u8_def direct_noise_len_def TLS_HANDSHAKE_CONTENT_TYPE_def)

text \<open>A client that knows the token gets through the routed listener however the network fragments its hello: if
  the first read returns any non-empty part of the hello and what follows it, and the rest arrives later, the session
  starts and the Noise handshake reads exactly what the client sent after its hello.\<close>

theorem fragmented_hello_accepted:
  assumes "token \<noteq> []" "length host \<le> 3926" "utf8_valid host"
    and "initial \<noteq> []" "initial @ incoming = build (pseudo_tls_new token host) @ tail"
  shows "\<exists>s incoming'. routed_handle_connection (token_validator_new token) cfg_insecure var stalled (Ok initial) incoming
      = Ok (NoiseSession s, incoming') \<and> unread s = tail"
  by (rule hello_starts_session [OF assms])

theorem fragmented_hello_accepted_witness:
  "\<exists>s incoming'. routed_handle_connection (token_validator_new [9, 8, 7]) False None TimedOut
      (Ok (take 3 (build (pseudo_tls_new [9, 8, 7] (lit ''cdn.net''))))) (drop 3 (build (pseudo_tls_new [9, 8, 7] (lit ''cdn.net''))) @ [1, 2])
     = Ok (NoiseSession s, incoming') \<and> unread s = [1, 2]"
proof (rule fragmented_hello_accepted)
  show "utf8_valid (lit ''cdn.net'')" by code_simp
  show "take 3 (build (pseudo_tls_new [9, 8, 7] (lit ''cdn.net''))) \<noteq> []" by (simp add: build_def Let_def)
  show "length (lit ''cdn.net'') \<le> 3926" by (simp add: lit_def)
qed (simp_all flip: append_assoc)

text \<open>What the pipeline listener makes of a connection, as for the routed one, with two differences: a direct handshake
  message needs no switch, and when the one further read fails, the bytes it has taken off the stream are missing from
  what the proxy sends to the fallback site.\<close>

lemma legacy_auth_post:
  "case legacy_auth v var stalled initial incoming late of
     Ok (auth, src, consumed, rest) \<Rightarrow>
       (src @ rest = initial @ incoming @ late
        \<or> \<not> auth \<and> src = initial \<and> rest = late
          \<and> (\<exists>n. parse_client_hello initial = (Ok (NeedMoreData n) :: (unit, ClientHelloStatus) result) \<and> length initial + length incoming < n))
       \<and> (auth \<longrightarrow> (\<exists>hello. parse_client_hello src = (Ok (Complete hello) :: (unit, ClientHelloStatus) result)
            \<and> hello_authenticated v var hello \<and> consumed = record_consumed src))
   | _ \<Rightarrow> False"
proof (cases initial rule: parse_statuses)
  case (2 n)
  then have needed: "min (n - length initial) MAX_CLIENT_HELLO_SIZE = n - length initial" by simp
  show ?thesis
  proof (cases "length incoming < n - length initial")
    case True
    with 2 show ?thesis by (auto simp: legacy_auth_def read_exact_def needed)
  next
    case False
    let ?src = "initial @ take (n - length initial) incoming"
    show ?thesis using 2 False
      by (cases ?src rule: parse_statuses) (simp_all add: legacy_auth_def read_exact_def needed Let_def)
  qed
qed (simp_all add: legacy_auth_def)

lemma legacy_auth_stalled:
  assumes "parse_client_hello initial = (Ok (NeedMoreData n) :: (unit, ClientHelloStatus) result)" "length initial + length incoming < n"
  shows "legacy_auth v var stalled initial incoming late = Ok (False, initial, 0, late)"
proof -
  have "n \<le> MAX_CLIENT_HELLO_SIZE" using assms(1) by (cases initial rule: parse_statuses) simp_all
  then have "min (n - length initial) MAX_CLIENT_HELLO_SIZE = n - length initial" "length incoming < n - length initial"
    using assms(2) by simp_all
  with assms show ?thesis by (simp add: legacy_auth_def read_exact_def)
qed

theorem legacy_listener_verdicts:
  assumes "initial \<noteq> []"
  shows "case legacy_handle_connection v var stalled (Ok initial) incoming late of
      Ok (Proxied bs, rest) \<Rightarrow> bs @ rest = initial @ incoming @ late
        \<or> bs @ rest = initial @ late \<and> hd initial = TLS_HANDSHAKE_CONTENT_TYPE
          \<and> (\<exists>n. parse_client_hello initial = (Ok (NeedMoreData n) :: (unit, ClientHelloStatus) result) \<and> length initial + length incoming < n)
    | Ok (NoiseSession s, rest) \<Rightarrow>
        (\<exists>src hello. hd initial = TLS_HANDSHAKE_CONTENT_TYPE \<and> src @ rest = initial @ incoming @ late
           \<and> parse_client_hello src = (Ok (Complete hello) :: (unit, ClientHelloStatus) result)
           \<and> (insecure_no_token v \<or> insecure_env var \<or> validate_token v hello)
           \<and> unread s = drop (record_consumed src) (initial @ incoming @ late))
        \<or> hd initial \<noteq> TLS_HANDSHAKE_CONTENT_TYPE \<and> 32 \<le> direct_noise_len initial
           \<and> direct_noise_len initial \<le> 128 \<and> unread s = initial @ incoming @ late
    | _ \<Rightarrow> False"
proof (cases "hd initial = TLS_HANDSHAKE_CONTENT_TYPE")
  case True
  obtain auth src consumed rest where auth: "legacy_auth v var stalled initial incoming late = Ok (auth, src, consumed, rest)"
    using legacy_auth_post [where v = v and var = var and stalled = stalled and initial = initial and incoming = incoming and late = late] by (auto split: result.splits)
  have eq: "legacy_handle_connection v var stalled (Ok initial) incoming late
      = Ok (if auth then NoiseSession (prefixed_stream_new (if length src > consumed then drop consumed src else []) rest)
            else Proxied src, rest)"
    using assms True by (simp add: legacy_handle_connection_def index_u8_nonempty auth)
  show ?thesis
  proof (cases auth)
    case False
    with True show ?thesis using legacy_auth_post [where v = v and var = var and stalled = stalled and initial = initial and incoming = incoming and late = late] by (auto simp: auth eq)
  next
    case yes: True
    then obtain hello where "parse_client_hello src = (Ok (Complete hello) :: (unit, ClientHelloStatus) result)"
      "hello_authenticated v var hello" "consumed = record_consumed src" "src @ rest = initial @ incoming @ late"
      using legacy_auth_post [where v = v and var = var and stalled = stalled and initial = initial and incoming = incoming and late = late] by (auto simp: auth)
    with yes True leftover_unread [of src hello rest] show ?thesis by (auto simp: eq hello_authenticated_def)
  qed
next
  case False
  with assms show ?thesis by (auto simp: legacy_handle_connection_def index_u8_nonempty Let_def)
qed

lemma legacy_auth_split_header:
  assumes "fits_record b" "0 < k" "k < 5"
  shows "legacy_auth v var stalled (take k (build b)) (drop k (build b) @ tail) late
    = Ok (False, take 5 (build b), 0, drop 5 (build b) @ tail @ late)"
proof -
  let ?i = "take k (build b)"
  have len: "9 \<le> length (build b)" by (simp add: length_build)
  have i: "length ?i = k" using assms(3) len by simp
  have five: "?i @ take (5 - k) (drop k (build b) @ tail) = take 5 (build b)"
    "drop (5 - k) (drop k (build b) @ tail) = drop 5 (build b) @ tail"
    using assms(3) len by (simp_all flip: take_add)
  have enough: "\<not> length (drop k (build b) @ tail) < 5 - k" using len assms(3) by simp
  have "parse_client_hello ?i = (Ok (NeedMoreData 5) :: (unit, ClientHelloStatus) result)" using parse_short [of ?i] i assms(3) by simp
  moreover have "parse_client_hello (take 5 (build b)) = (Ok (NeedMoreData (length (build b))) :: (unit, ClientHelloStatus) result)"
    using parse_prefix [of b 5] assms(1) len by simp
  ultimately show ?thesis
    using assms(2,3) i five enough by (simp add: legacy_auth_def read_exact_def MAX_CLIENT_HELLO_SIZE_def Let_def)
qed

text \<open>C38: three weaknesses of the pipeline listener. It starts a session for a direct handshake message without any
  token, whatever its configuration; it turns away a client with the right token when the first read returns fewer
  than five bytes of the hello, since it asks for more data only once; and when the rest of a hello does not arrive in
  time, what did arrive of it is lost, so that the fallback site receives the first read and the late bytes with a gap
  between them.\<close>

theorem legacy_listener_gaps:
  "(hd initial \<noteq> TLS_HANDSHAKE_CONTENT_TYPE \<and> 32 \<le> direct_noise_len initial \<and> direct_noise_len initial \<le> 128 \<longrightarrow>
      legacy_handle_connection v var stalled (Ok initial) incoming late
        = Ok (NoiseSession (prefixed_stream_new initial (incoming @ late)), incoming @ late))
   \<and> (fits_record b \<and> 0 < k \<and> k < 5 \<longrightarrow>
      legacy_handle_connection v var stalled (Ok (take k (build b))) (drop k (build b) @ tail) late
        = Ok (Proxied (take 5 (build b)), drop 5 (build b) @ tail @ late))
   \<and> (fits_record b \<and> 5 \<le> k \<and> k + length some < length (build b) \<and> trim target \<noteq> [] \<and> length late \<le> sent_up \<longrightarrow>
      legacy_handle_connection v var stalled (Ok (take k (build b))) some late = Ok (Proxied (take k (build b)), late)
      \<and> legacy_fall_through_proxy target True None sent_up 0 (take k (build b)) late [] = Some (take k (build b) @ late, []))"
proof (intro conjI impI)
  assume a: "hd initial \<noteq> TLS_HANDSHAKE_CONTENT_TYPE \<and> 32 \<le> direct_noise_len initial \<and> direct_noise_len initial \<le> 128"
  then have "initial \<noteq> []" by (auto simp: direct_noise_len_def)
  then show "legacy_handle_connection v var stalled (Ok initial) incoming late
        = Ok (NoiseSession (prefixed_stream_new initial (incoming @ late)), incoming @ late)"
    using a by (simp add: legacy_handle_connection_def index_u8_nonempty Let_def)
next
  assume k: "fits_record b \<and> 0 < k \<and> k < 5"
  then show "legacy_handle_connection v var stalled (Ok (take k (build b))) (drop k (build b) @ tail) late
        = Ok (Proxied (take 5 (build b)), drop 5 (build b) @ tail @ late)"
    using legacy_auth_split_header [of b k v var stalled tail late] build_starts [of k b]
    by (simp add: legacy_handle_connection_def index_u8_nonempty)
next
  assume k: "fits_record b \<and> 5 \<le> k \<and> k + length some < length (build b) \<and> trim target \<noteq> [] \<and> length late \<le> sent_up"
  then show "legacy_handle_connection v var stalled (Ok (take k (build b))) some late = Ok (Proxied (take k (build b)), late)"
    using legacy_auth_stalled [OF parse_prefix [of b k], of some v var stalled late] build_starts [of k b]
    by (simp add: legacy_handle_connection_def index_u8_nonempty)
  show "legacy_fall_through_proxy target True None sent_up 0 (take k (build b)) late [] = Some (take k (build b) @ late, [])"
    using k by (simp add: proxies_agree proxy_complete)
qed

theorem legacy_listener_gaps_witness:
  "legacy_handle_connection (token_validator_new [1]) None TimedOut (Ok (0 # 48 # replicate 48 7)) [] []
    = Ok (NoiseSession (prefixed_stream_new (0 # 48 # replicate 48 7) []), [])"
  using legacy_listener_gaps [of "0 # 48 # replicate 48 7" "token_validator_new [1]" None TimedOut "[]" "[]"]
  by (simp add: TLS_HANDSHAKE_CONTENT_TYPE_def direct_noise_len_def nat_from_be_def)

text \<open>The log line for the first read shows the beginning of a client's token: the first 16 bytes of a hello record end
  with the first five bytes of its random field, which is where clients put the token.\<close>

lemma build_head:
  assumes "5 \<le> length token"
  shows "\<exists>h. length h = 11 \<and> take 16 (build (pseudo_tls_new token host)) = h @ take 5 token"
proof -
  let ?b = "pseudo_tls_new token host"
  have "take 5 (build_random ?b) = take 5 token"
    using assms by (auto simp: build_random_def pseudo_tls_new_def Let_def min_def)
  moreover obtain rest where "build_hs_body ?b = put_u16 TLS_LEGACY_CLIENT_VERSION @ build_random ?b @ rest"
    by (simp add: build_hs_body_def Let_def)
  moreover obtain h where "build ?b = h @ build_hs_body ?b" "length h = 9"
    by (rule that [of "take 9 (build ?b)"]) (simp_all add: build_def Let_def)
  ultimately show ?thesis
    by (intro exI [of _ "h @ put_u16 TLS_LEGACY_CLIENT_VERSION"]) simp
qed

theorem log_shows_token:
  assumes "5 \<le> length token" "16 \<le> length initial" "initial @ incoming = build (pseudo_tls_new token host) @ tail"
  shows "\<exists>h. length h = 22 \<and> hex_prefix initial = h @ hex_encode (take 5 token)"
proof -
  obtain h where h: "length h = 11" "take 16 (build (pseudo_tls_new token host)) = h @ take 5 token"
    using build_head [OF assms(1)] by blast
  have "16 \<le> length (build (pseudo_tls_new token host))" using h(1) arg_cong [OF h(2), of length] assms(1) by simp
  then have "take 16 initial = take 16 (build (pseudo_tls_new token host))"
    using assms(2) arg_cong [OF assms(3), of "take 16"] by simp
  then have "hex_prefix initial = hex_encode h @ hex_encode (take 5 token)"
    using assms(2) h(2) by (simp add: hex_prefix_def hex_encode_def)
  with h(1) show ?thesis by (intro exI [of _ "hex_encode h"]) simp
qed

text \<open>The prefixed stream is transparent: whatever the sizes of the buffers and of the inner reads, the bytes read
  through it are the leftover bytes followed by the client's stream, in order.\<close>

theorem prefixed_stream_transparent:
  "poll_reads rs (prefixed_stream_new p s) = (bs, s') \<longrightarrow> bs @ unread s' = p @ s"
  using poll_reads_unread [of rs "prefixed_stream_new p s" bs s'] by simp

theorem prefixed_stream_transparent_witness:
  "poll_reads [(2, 0), (5, 9), (4, 3)] (prefixed_stream_new [1, 2, 3] [4, 5, 6, 7])
     = ([1, 2, 3, 4, 5, 6], \<lparr>prefix_bytes = [1, 2, 3], position = 3, inner = [7]\<rparr>)
   \<and> [1, 2, 3, 4, 5, 6] @ unread \<lparr>prefix_bytes = [1, 2, 3], position = 3, inner = [7]\<rparr> = [1, 2, 3] @ [4, 5, 6, 7 :: u8]"
proof -
  have "poll_reads [(2, 0), (5, 9), (4, 3)] (prefixed_stream_new [1, 2, 3] [4, 5, 6, 7])
     = ([1, 2, 3, 4, 5, 6], \<lparr>prefix_bytes = [1, 2, 3], position = 3, inner = [7]\<rparr>)"
    by (simp add: prefixed_stream_new_def poll_read_def)
  with prefixed_stream_transparent show ?thesis by blast
qed

end
