(* ===== verification/Relay_Config.thy ===== *)
theory Relay_Config
  imports Key_Files Listener
begin

section \<open>Configuration and start-up\<close>

text \<open>
  \<open>src/server/config.rs\<close>, the start-up functions of \<open>src/main.rs\<close> and \<open>RelayListener::bind\<close>: the relay's secrets, how
  its token is kept in files between runs, the listener's configuration, and what arguments and environment variables
  make of it. The lemmas show that a relay keeps its secrets over restarts, and that a running daemon always demands a
  token unless the operator switched that off.
\<close>

subsection \<open>Secrets\<close>

record RelaySecrets =
  rs_secret_token :: bytes
  secret_token_hex :: bytes
  public_key :: bytes
  public_key_hex :: bytes
  public_key_base64 :: bytes
  private_key :: bytes
  private_key_hex :: bytes
  url :: bytes
  key_file :: "path option"

definition relay_secrets_new :: "bytes \<Rightarrow> bytes \<Rightarrow> bytes \<Rightarrow> bytes \<Rightarrow> RelaySecrets" where
  "relay_secrets_new token pub priv u =
     \<lparr>rs_secret_token = token, secret_token_hex = hex_encode token, public_key = pub, public_key_hex = hex_encode pub,
      public_key_base64 = base64_encode pub, private_key = priv, private_key_hex = hex_encode priv, url = u, key_file = None\<rparr>"

text \<open>\<open>format!("https://{}", bind_addr)\<close>, where an address is its display text; \<open>secret_token.filter(|v| !v.is_empty())\<close>.\<close>

definition https_url :: "bytes \<Rightarrow> bytes" where
  "https_url bind_addr = lit ''https://'' @ bind_addr"

definition nonempty :: "bytes option \<Rightarrow> bytes option" where
  "nonempty t = (case t of Some v \<Rightarrow> if v \<noteq> [] then Some v else None | None \<Rightarrow> None)"

text \<open>\<open>keys1\<close> and \<open>keys2\<close> are the results of the first and the second \<open>generate_keypair()\<close>.\<close>

definition relay_secrets_generate ::
    "('s, bytes \<times> bytes) result \<Rightarrow> ('s, bytes \<times> bytes) result \<Rightarrow> bytes \<Rightarrow> bytes option \<Rightarrow> ('s, RelaySecrets) result" where
  "relay_secrets_generate keys1 keys2 bind_addr token =
     and_then keys1 (\<lambda>(priv, pub).
     and_then (case nonempty token of Some v \<Rightarrow> Ok v | None \<Rightarrow> map_ok snd keys2) (\<lambda>t.
       Ok (relay_secrets_new t pub priv (https_url bind_addr))))"

definition with_keypair :: "KeyPair \<Rightarrow> bytes \<Rightarrow> bytes \<Rightarrow> RelaySecrets" where
  "with_keypair kp token bind_addr =
     (relay_secrets_new token (kp_public_key kp) (kp_private_key kp) (https_url bind_addr))
       \<lparr>public_key_base64 := kp_public_key_base64 kp, key_file := Some (kp_key_path kp)\<rparr>"

definition from_keypair :: "('s, bytes \<times> bytes) result \<Rightarrow> bytes \<Rightarrow> KeyPair \<Rightarrow> bytes option \<Rightarrow> ('s, RelaySecrets) result" where
  "from_keypair keys bind_addr kp token =
     and_then (case nonempty token of Some v \<Rightarrow> Ok v | None \<Rightarrow> map_ok snd keys) (\<lambda>t. Ok (with_keypair kp t bind_addr))"

subsection \<open>The token's files\<close>

fun find_sub :: "bytes \<Rightarrow> bytes \<Rightarrow> nat option" where
  "find_sub pat [] = (if pat = [] then Some 0 else None)"
| "find_sub pat (b # bs) = (if take (length pat) (b # bs) = pat then Some 0 else map_option Suc (find_sub pat bs))"

definition TOKEN_MARKER :: bytes where "TOKEN_MARKER = lit [CHR 0x22] @ lit ''secret_token_hex'' @ lit [CHR 0x22]"

text \<open>The value of the marked field of a JSON text: the colon after the marker, white space, a quote, and everything up to
  the next quote. \<open>None\<close> when one of them is missing.\<close>

definition json_token_text :: "bytes \<Rightarrow> bytes option" where
  "json_token_text content =
     (case find_sub TOKEN_MARKER content of
        None \<Rightarrow> None
      | Some marker \<Rightarrow>
          let tail = drop (marker + length TOKEN_MARKER) content in
          (case find_sub [58] tail of
             None \<Rightarrow> None
           | Some colon \<Rightarrow>
               map_option (takeWhile (\<lambda>b. b \<noteq> 34)) (strip_prefix [34] (trim_start (drop (colon + 1) tail)))))"

definition read_json_token :: "bytes \<Rightarrow> (unit, bytes option) result" where
  "read_json_token content =
     (case json_token_text content of
        None \<Rightarrow> Ok None
      | Some value \<Rightarrow>
          (case hex_decode value of
             Panic \<Rightarrow> Panic
           | Err _ \<Rightarrow> Ok None
           | Ok decoded \<Rightarrow> Ok (nonempty (Some decoded))))"

definition read_token_file :: "bytes \<Rightarrow> (unit, bytes option) result" where
  "read_token_file raw =
     (let t = trim (from_utf8_lossy raw) in
      if t = [] then Ok None
      else (case hex_decode t of Panic \<Rightarrow> Panic | Err _ \<Rightarrow> Ok (Some t) | Ok decoded \<Rightarrow> Ok (Some decoded)))"

definition read_saved_token :: "path \<Rightarrow> fs \<Rightarrow> (unit, bytes option) result" where
  "read_saved_token key_path s =
     and_then (case fst (fs_read (derive_relay_json_path key_path) s) of
         Ok content \<Rightarrow> if utf8_valid content then read_json_token content else Ok None
       | _ \<Rightarrow> Ok None) (\<lambda>found.
     case found of
       Some token \<Rightarrow> Ok (Some token)
     | None \<Rightarrow>
         (case fst (fs_read (derive_token_path key_path) s) of
            Ok raw \<Rightarrow> read_token_file raw
          | _ \<Rightarrow> Ok None))"

definition write_private :: "path \<Rightarrow> bytes \<Rightarrow> fs \<Rightarrow> (io_error_kind, unit) result \<times> fs" where
  "write_private p data =
     io_then (\<lambda>s. case path_parent p of
         Some parent \<Rightarrow> if parent \<noteq> empty_path then create_dir_all parent s else (Ok (), s)
       | None \<Rightarrow> (Ok (), s)) (\<lambda>_.
     fs_write 384 p data)"

definition token_json :: "bytes \<Rightarrow> bytes \<Rightarrow> bytes" where
  "token_json b64 token_hex =
     lit ''{'' @ [10] @ lit ''  '' @ [34] @ lit ''public_key_base64'' @ [34] @ lit '': '' @ [34] @ b64 @ [34] @ lit '','' @ [10]
       @ lit ''  '' @ [34] @ lit ''secret_token_hex'' @ [34] @ lit '': '' @ [34] @ token_hex @ [34] @ [10] @ lit ''}'' @ [10]"

definition persist_token :: "path \<Rightarrow> bytes \<Rightarrow> bytes \<Rightarrow> fs \<Rightarrow> (io_error_kind, unit) result \<times> fs" where
  "persist_token key_path token b64 =
     io_then (write_private (derive_token_path key_path) (hex_encode token @ [10])) (\<lambda>_.
     write_private (derive_relay_json_path key_path) (token_json b64 (hex_encode token)))"

text \<open>\<open>keys1\<close> is for the key pair and \<open>keys2\<close>, whose public key becomes the token, for when there is none.\<close>

definition load_or_generate ::
    "'s resolver \<Rightarrow> ('s, bytes \<times> bytes) result \<Rightarrow> ('s, bytes \<times> bytes) result \<Rightarrow> path \<Rightarrow> bytes \<Rightarrow> bytes option \<Rightarrow> fs
      \<Rightarrow> ('s KeyError, RelaySecrets) result \<times> fs" where
  "load_or_generate R keys1 keys2 key_path bind_addr configured_token =
     io_then (load_or_generate_keypair R keys1 key_path) (\<lambda>keypair.
     io_then (\<lambda>s. (case nonempty configured_token of
         Some token \<Rightarrow> Ok token
       | None \<Rightarrow> (case read_saved_token key_path s of
           Panic \<Rightarrow> Panic
         | Ok (Some token) \<Rightarrow> Ok token
         | _ \<Rightarrow> map_err KeySnow (map_ok snd keys2)), s)) (\<lambda>token.
     io_then (io_err KeyIo (persist_token key_path token (kp_public_key_base64 keypair))) (\<lambda>_.
     io_lift (Ok (with_keypair keypair token bind_addr)))))"

subsection \<open>The listener's configuration\<close>

record ListenerConfig =
  bind_addr :: bytes
  cfg_max_connections :: nat
  fallback_target :: bytes
  cfg_secret_token :: bytes
  handshake_timeout_secs :: nat
  secrets :: RelaySecrets
  cfg_insecure_no_token :: bool

definition new_with_secrets :: "bytes \<Rightarrow> RelaySecrets \<Rightarrow> ListenerConfig" where
  "new_with_secrets addr sec =
     \<lparr>bind_addr = addr, cfg_max_connections = 1024, fallback_target = lit ''cloudflare.com:443'',
      cfg_secret_token = rs_secret_token sec, handshake_timeout_secs = 5, secrets = sec, cfg_insecure_no_token = False\<rparr>"

text \<open>\<open>expect\<close> panics when the keys cannot be generated.\<close>

definition listener_config_new ::
    "('s, bytes \<times> bytes) result \<Rightarrow> ('s, bytes \<times> bytes) result \<Rightarrow> bytes \<Rightarrow> bytes \<Rightarrow> (unit, ListenerConfig) result" where
  "listener_config_new keys1 keys2 addr token =
     (case relay_secrets_generate keys1 keys2 addr (Some token) of
        Ok sec \<Rightarrow> Ok (new_with_secrets addr sec)
      | _ \<Rightarrow> Panic)"

definition with_secrets :: "RelaySecrets \<Rightarrow> ListenerConfig \<Rightarrow> ListenerConfig" where
  "with_secrets sec c = c\<lparr>cfg_secret_token := rs_secret_token sec, secrets := sec\<rparr>"

definition with_fallback_target :: "bytes \<Rightarrow> ListenerConfig \<Rightarrow> ListenerConfig" where
  "with_fallback_target target c = c\<lparr>fallback_target := target\<rparr>"

definition with_max_connections :: "nat \<Rightarrow> ListenerConfig \<Rightarrow> ListenerConfig" where
  "with_max_connections m c = c\<lparr>cfg_max_connections := max m 1\<rparr>"

definition with_handshake_timeout :: "nat \<Rightarrow> ListenerConfig \<Rightarrow> ListenerConfig" where
  "with_handshake_timeout secs c = c\<lparr>handshake_timeout_secs := secs\<rparr>"

definition cfg_with_insecure_no_token :: "bool \<Rightarrow> ListenerConfig \<Rightarrow> ListenerConfig" where
  "cfg_with_insecure_no_token enabled c = c\<lparr>cfg_insecure_no_token := enabled\<rparr>"

definition cfg_with_insecure_no_auth :: "bool \<Rightarrow> ListenerConfig \<Rightarrow> ListenerConfig" where
  "cfg_with_insecure_no_auth enabled c = cfg_with_insecure_no_token enabled c"

text \<open>The token validator that \<open>RelayListener::bind\<close> builds, in both listeners.\<close>

definition bind_validator :: "ListenerConfig \<Rightarrow> TokenValidator" where
  "bind_validator c =
     (let validator = token_validator_new (cfg_secret_token c) in
      if cfg_insecure_no_token c then with_insecure_no_token True validator else validator)"

subsection \<open>Start-up\<close>

definition load_secure_secrets ::
    "'s resolver \<Rightarrow> ('s, bytes \<times> bytes) result list \<Rightarrow> path \<Rightarrow> bytes \<Rightarrow> bytes option \<Rightarrow> fs \<Rightarrow> ('s KeyError, RelaySecrets) result \<times> fs" where
  "load_secure_secrets R keys key_path addr configured_token =
     io_then (load_or_generate R (keys ! 0) (keys ! 1) key_path addr configured_token) (\<lambda>first.
       if rs_secret_token first \<noteq> [] then io_lift (Ok first)
       else io_then (io_lift (map_err KeySnow (keys ! 2))) (\<lambda>(_, random).
         load_or_generate R (keys ! 3) (keys ! 4) key_path addr (Some random)))"

fun secret_pair :: "bytes list \<Rightarrow> bytes option" where
  "secret_pair (a # b # args) =
     (if a = lit ''--secret'' \<or> a = lit ''--secret-token'' then Some b else secret_pair (b # args))"
| "secret_pair args = None"

fun secret_assignment :: "bytes list \<Rightarrow> bytes option" where
  "secret_assignment [] = None"
| "secret_assignment (a # args) =
     (case strip_prefix (lit ''--secret='') a of
        Some v \<Rightarrow> Some v
      | None \<Rightarrow> (case strip_prefix (lit ''--secret-token='') a of Some v \<Rightarrow> Some v | None \<Rightarrow> secret_assignment args))"

text \<open>\<open>env\<close> is the variable \<open>ECHOMESH_SECRET\<close>.\<close>

definition resolve_secret_token :: "bytes list \<Rightarrow> bytes option \<Rightarrow> bytes option" where
  "resolve_secret_token args env =
     (case secret_pair args of
        Some v \<Rightarrow> Some v
      | None \<Rightarrow> (case secret_assignment args of
          Some v \<Rightarrow> Some v
        | None \<Rightarrow> (case env of Some v \<Rightarrow> if trim v \<noteq> [] then Some v else None | None \<Rightarrow> None)))"

text \<open>The environment of \<open>run_daemon\<close>.\<close>

record environment =
  ECHOMESH_KEY_FILE :: "bytes option"
  ECHOMESH_SECRET :: "bytes option"
  ECHOMESH_BIND_ADDR :: "bytes option"
  ECHOMESH_FALLBACK_TARGET :: "bytes option"
  ECHOMESH_MAX_CONNECTIONS :: "bytes option"
  ECHOMESH_INSECURE_NO_AUTH :: "bytes option"
  ECHOMESH_INSECURE_NO_TOKEN :: "bytes option"

text \<open>\<open>parse::<usize>()\<close> of a 64-bit system: an optional plus sign and at least one digit, below \<open>2\<^sup>64\<close>.\<close>

fun parse_digits :: "nat \<Rightarrow> bytes \<Rightarrow> nat option" where
  "parse_digits acc [] = Some acc"
| "parse_digits acc (b # bs) =
     (if 48 \<le> b \<and> b \<le> 57 then
        let v = acc * 10 + (unat b - 48) in if v < 2 ^ 64 then parse_digits v bs else None
      else None)"

definition parse_usize :: "bytes \<Rightarrow> nat option" where
  "parse_usize s =
     (case s of
        [] \<Rightarrow> None
      | b # bs \<Rightarrow> if b = 43 then (if bs = [] then None else parse_digits 0 bs) else parse_digits 0 s)"

definition daemon_insecure :: "bytes list \<Rightarrow> environment \<Rightarrow> bool" where
  "daemon_insecure args env =
     (list_ex (\<lambda>a. a = lit ''--insecure-no-auth'' \<or> a = lit ''--insecure-no-token'' \<or> a = lit ''--dev-mode'') args
      \<or> insecure_env (ECHOMESH_INSECURE_NO_AUTH env) \<or> insecure_env (ECHOMESH_INSECURE_NO_TOKEN env))"

datatype 's daemon_error = InvalidBindAddr bytes | DaemonKey "'s KeyError"

text \<open>\<open>run_daemon\<close> up to the configuration it binds the listener with; \<open>parse_addr\<close> is \<open>SocketAddr\<close>'s parser, whose
  result is the address's display text.\<close>

definition daemon_config ::
    "'s resolver \<Rightarrow> ('s, bytes \<times> bytes) result list \<Rightarrow> (bytes \<Rightarrow> bytes option) \<Rightarrow> bytes list \<Rightarrow> environment \<Rightarrow> fs
      \<Rightarrow> ('s daemon_error, ListenerConfig) result \<times> fs" where
  "daemon_config R keys parse_addr args env s =
     (let key_path = resolve_key_file_path args (ECHOMESH_KEY_FILE env) s;
          bind_str = (case ECHOMESH_BIND_ADDR env of Some v \<Rightarrow> v | None \<Rightarrow> lit ''0.0.0.0:8443'') in
      case parse_addr bind_str of
        None \<Rightarrow> (Err (InvalidBindAddr bind_str), s)
      | Some addr \<Rightarrow>
          let fallback = (case ECHOMESH_FALLBACK_TARGET env of Some v \<Rightarrow> v | None \<Rightarrow> lit ''cloudflare.com:443'');
              max_conns = (case Option.bind (ECHOMESH_MAX_CONNECTIONS env) parse_usize of Some n \<Rightarrow> n | None \<Rightarrow> 4096) in
          io_then (io_err DaemonKey (load_secure_secrets R keys key_path addr (resolve_secret_token args (ECHOMESH_SECRET env)))) (\<lambda>sec.
          io_lift (Ok (cfg_with_insecure_no_token (daemon_insecure args env)
            (with_handshake_timeout 5 (with_max_connections max_conns (with_fallback_target fallback (new_with_secrets addr sec))))))) s)"

text \<open>\<open>main\<close>: what the program prints and does before, or instead of, running the daemon.\<close>

datatype main_action = Print bytes | RunDaemon

definition main_start ::
    "'s resolver \<Rightarrow> ('s, bytes \<times> bytes) result list \<Rightarrow> bytes list \<Rightarrow> environment \<Rightarrow> fs \<Rightarrow> ('s KeyError, main_action) result \<times> fs" where
  "main_start R keys args env s =
     (let key_path = resolve_key_file_path args (ECHOMESH_KEY_FILE env) s in
      if list_ex (\<lambda>a. a = lit ''--show-public-key'' \<or> a = lit ''show-key'') args then
        io_then (load_or_generate_keypair R (keys ! 0) key_path) (\<lambda>kp. io_lift (Ok (Print (kp_public_key_base64 kp @ [10])))) s
      else if list_ex (\<lambda>a. a = lit ''--show-credentials'') args then
        io_then (load_secure_secrets R keys key_path (lit ''0.0.0.0:8443'') (resolve_secret_token args (ECHOMESH_SECRET env))) (\<lambda>sec.
        io_lift (Ok (Print (lit ''{'' @ [34] @ lit ''public_key_base64'' @ [34] @ lit '':'' @ [34] @ public_key_base64 sec @ [34]
          @ lit '','' @ [34] @ lit ''secret_token_hex'' @ [34] @ lit '':'' @ [34] @ secret_token_hex sec @ [34] @ lit ''}'' @ [10])))) s
      else (Ok RunDaemon, s))"

subsection \<open>Finding the token in the JSON text\<close>

lemma find_sub_skip:
  assumes "c \<notin> set xs" shows "find_sub (c # pat) (xs @ ys) = map_option ((+) (length xs)) (find_sub (c # pat) ys)"
  using assms by (induction xs) (cases "find_sub (c # pat) ys"; auto)+

lemma find_sub_here: "find_sub pat (pat @ ys) = Some 0"
proof (cases "pat @ ys")
  case (Cons b bs)
  then have "take (length pat) (b # bs) = pat" by (metis append_eq_conv_conj)
  with Cons show ?thesis by simp
qed simp

lemma marker_cons: "TOKEN_MARKER = 34 # lit ''secret_token_hex'' @ [34]"
  by code_simp

text \<open>A quote starts the marker only before the field's name; text without a quote or an underscore and the quote that
  ends it are not that name.\<close>

lemma find_marker_step:
  assumes "take 17 ys \<noteq> lit ''secret_token_hex'' @ [34]"
  shows "find_sub TOKEN_MARKER (34 # ys) = map_option Suc (find_sub TOKEN_MARKER ys)"
proof -
  have "length (lit ''secret_token_hex'') = 16" by code_simp
  with assms show ?thesis by (simp add: marker_cons)
qed

lemma not_marker_head: "c \<noteq> 115 \<Longrightarrow> take 17 (c # ys) \<noteq> lit ''secret_token_hex'' @ [34]"
proof -
  have "hd (lit ''secret_token_hex'' @ [34]) = 115" by code_simp
  then show "c \<noteq> 115 \<Longrightarrow> take 17 (c # ys) \<noteq> lit ''secret_token_hex'' @ [34]" by (metis list.sel(1) hd_take zero_less_numeral)
qed

lemma not_marker_base64:
  assumes "\<forall>c \<in> set b. c \<noteq> 34 \<and> c \<noteq> 95"
  shows "take 17 (b @ 34 # ys) \<noteq> lit ''secret_token_hex'' @ [34]"
proof
  assume eq: "take 17 (b @ 34 # ys) = lit ''secret_token_hex'' @ [34]"
  have m: "(lit ''secret_token_hex'' @ [34]) ! 6 = 95" "\<forall>k \<in> {0..<7}. (lit ''secret_token_hex'' @ [34]) ! k \<noteq> 34" by code_simp+
  show False
  proof (cases "6 < length b")
    case True
    have "take 17 (b @ 34 # ys) ! 6 = 95" unfolding eq by (rule m(1))
    with True have "b ! 6 = 95" by (simp add: nth_append)
    with True assms show False by (metis nth_mem)
  next
    case False
    then have "take 17 (b @ 34 # ys) ! length b = 34" by (simp del: take_append)
    with False m(2) show False unfolding eq by simp
  qed
qed

lemma find_marker_skip:
  assumes "34 \<notin> set xs" "take 17 ys \<noteq> lit ''secret_token_hex'' @ [34]" "find_sub TOKEN_MARKER ys = Some n"
  shows "find_sub TOKEN_MARKER (xs @ 34 # ys) = Some (length xs + Suc n)"
  using find_sub_skip [OF assms(1)] find_marker_step [OF assms(2)] assms(3) by (simp add: marker_cons)

lemma json_token_text_token_json:
  assumes "\<forall>c \<in> set b64. c \<noteq> 34 \<and> c \<noteq> 95" "\<forall>c \<in> set hx. graphic c \<and> c \<noteq> 34"
  shows "json_token_text (token_json b64 hx) = Some hx"
proof -
  define end_text where "end_text = [34, 10] @ lit ''}'' @ [10]"
  define rest where "rest = lit '': '' @ [34] @ hx @ end_text"
  define open_text where "open_text = lit ''{'' @ [10] @ lit ''  ''"
  have lits: "lit ''public_key_base64'' = 112 # lit ''ublic_key_base64''" "lit '': '' = [58, 32]" "lit '','' @ [10] @ lit ''  '' = [44, 10, 32, 32]"
    by code_simp+
  have quotes: "34 \<notin> set (lit ''ublic_key_base64'')" "34 \<notin> set open_text" unfolding open_text_def by code_simp+
  let ?t0 = "[44, 10, 32, 32] @ TOKEN_MARKER @ rest"
  let ?t1 = "b64 @ 34 # ?t0"
  let ?t2 = "[58, 32] @ 34 # ?t1"
  let ?t3 = "(112 # lit ''ublic_key_base64'') @ 34 # ?t2"
  have shape: "token_json b64 hx = open_text @ 34 # ?t3"
    using lits by (simp add: token_json_def open_text_def rest_def end_text_def marker_cons)
  have free: "34 \<notin> set b64" "34 \<notin> set [58, 32 :: u8]" "34 \<notin> set (112 # lit ''ublic_key_base64'')" using assms(1) quotes(1) by auto
  have heads: "take 17 ?t0 \<noteq> lit ''secret_token_hex'' @ [34]" "take 17 ?t2 \<noteq> lit ''secret_token_hex'' @ [34]"
    "take 17 ?t3 \<noteq> lit ''secret_token_hex'' @ [34]"
    unfolding append.append_Cons by (rule not_marker_head, simp)+
  have "find_sub TOKEN_MARKER ?t0 = Some 4"
    using find_sub_skip [of 34 "[44, 10, 32, 32]" "lit ''secret_token_hex'' @ [34]" "TOKEN_MARKER @ rest"] find_sub_here [of TOKEN_MARKER rest]
    by (simp add: marker_cons)
  note found1 = find_marker_skip [OF free(1) heads(1) this]
  note found2 = find_marker_skip [OF free(2) not_marker_base64 [OF assms(1)] found1]
  note found3 = find_marker_skip [OF free(3) heads(2) found2]
  define k where "k = length open_text + Suc (length (112 # lit ''ublic_key_base64'') + Suc (length [58, 32 :: u8] + Suc (length b64 + Suc 4)))"
  have "find_sub TOKEN_MARKER (token_json b64 hx) = Some k"
    unfolding shape k_def by (rule find_marker_skip [OF quotes(2) heads(3) found3])
  moreover obtain front where "token_json b64 hx = (front @ TOKEN_MARKER) @ rest" "length front = k"
    using that [of "open_text @ 34 # (112 # lit ''ublic_key_base64'') @ 34 # [58, 32] @ 34 # b64 @ 34 # [44, 10, 32, 32]"]
    unfolding shape k_def by simp
  then have "drop (k + length TOKEN_MARKER) (token_json b64 hx) = rest" by (metis append_eq_conv_conj length_append)
  moreover have "find_sub [58] rest = Some 0" by (simp add: rest_def lits)
  moreover have "trim_start (drop 1 rest) = 34 # hx @ end_text"
    using trim_start_graphic [of "34 # hx @ end_text"] by (simp add: rest_def lits trim_start.simps [of "32 # 34 # hx @ end_text"] graphic_def)
  moreover have "takeWhile (\<lambda>b. b \<noteq> 34) (hx @ end_text) = hx"
    using assms(2) by (simp add: takeWhile_append2 end_text_def)
  ultimately show ?thesis by (simp add: json_token_text_def Let_def strip_prefix_def)
qed


lemma hexdigit_not_quote: "is_ascii_hexdigit c \<Longrightarrow> c \<noteq> 34"
  by (auto simp: is_ascii_hexdigit_def)

lemma hex_decode_encode: "hex_decode (hex_encode token) = Ok token"
  by (simp add: hex_decode_def trim_graphic hex_encode_graphic hex_pairs_encode)

lemma read_json_token_written:
  assumes "token \<noteq> []"
  shows "utf8_valid (token_json (base64_encode pk) (hex_encode token))"
    and "read_json_token (token_json (base64_encode pk) (hex_encode token)) = Ok (Some token)"
proof -
  have hx: "\<forall>c \<in> set (hex_encode token). graphic c \<and> c \<noteq> 34"
    using hex_encode_graphic [of token] hex_encode_hexdigits [of token] hexdigit_not_quote by (auto simp: list_all_iff)
  then show "read_json_token (token_json (base64_encode pk) (hex_encode token)) = Ok (Some token)"
    using json_token_text_token_json [OF _ hx] base64_encode_graphic [of pk] assms
    by (simp add: read_json_token_def hex_decode_encode nonempty_def)
  have "list_all (\<lambda>b. b < 0x80) (lit ''{'' @ lit ''  '' @ lit ''public_key_base64'' @ lit '': '' @ lit '','' @ lit ''secret_token_hex'' @ lit ''}'')"
    by code_simp
  then show "utf8_valid (token_json (base64_encode pk) (hex_encode token))"
    using hx base64_encode_graphic [of pk]
    by (intro utf8_valid_ascii) (auto simp: token_json_def graphic_def list_all_iff)
qed

text \<open>A token file may hold plain text, but text with a character across an even position makes the hexadecimal decoder,
  which is tried first, panic.\<close>

lemma token_file_panics: "utf8_valid [0x61, 0xC3, 0xA9, 0x21] \<and> read_token_file [0x61, 0xC3, 0xA9, 0x21] = Panic"
  by code_simp

subsection \<open>Keeping the token\<close>

text \<open>The files for the token are not the key file. Then they are not the public key's files either, and not each other.\<close>

definition secrets_kept :: "path \<Rightarrow> bool" where
  "secrets_kept key \<longleftrightarrow> key_kept key \<and> derive_token_path key \<noteq> key \<and> derive_relay_json_path key \<noteq> key"

definition name_end :: "path \<Rightarrow> bytes" where
  "name_end p = take 3 (rev (last (parts p)))"

lemma name_end_simps:
  "name_end (beside p name) = take 3 (rev name)"
  "file_name p = Some f \<Longrightarrow> 3 \<le> length ext \<Longrightarrow> name_end (with_extension ext p) = take 3 (rev ext)"
  by (auto simp: name_end_def beside_def path_join_def with_extension_def Let_def)

lemma secrets_distinct:
  assumes "secrets_kept key"
  shows "derive_token_path key \<noteq> derive_relay_json_path key"
    "derive_token_path key \<noteq> derive_pubkey_path key" "derive_relay_json_path key \<noteq> derive_pubkey_path key"
    "derive_token_path key \<noteq> with_extension (lit ''pub'') key" "derive_relay_json_path key \<noteq> with_extension (lit ''pub'') key"
proof -
  obtain f where f: "file_name key = Some f"
    using assms by (cases "file_name key") (auto simp: secrets_kept_def key_kept_def with_extension_def)
  have ends: "take 3 (rev (lit ''token'')) = lit ''nek''" "take 3 (rev (lit ''relay.token'')) = lit ''nek''"
    "take 3 (rev (lit ''json'')) = lit ''nos''" "take 3 (rev (lit ''relay.json'')) = lit ''nos''"
    "take 3 (rev (lit ''pub'')) = lit ''bup''" "take 3 (rev (lit ''relay.pub'')) = lit ''bup''"
    "3 \<le> length (lit ''token'')" "3 \<le> length (lit ''json'')" "3 \<le> length (lit ''pub'')"
    by code_simp+
  have "name_end (derive_token_path key) = lit ''nek''" "name_end (derive_relay_json_path key) = lit ''nos''"
    "name_end (derive_pubkey_path key) = lit ''bup''" "name_end (with_extension (lit ''pub'') key) = lit ''bup''"
    using ends f by (simp_all add: derive_token_path_def derive_relay_json_path_def derive_pubkey_path_def Let_def name_end_simps)
  moreover have "lit ''nek'' \<noteq> lit ''nos''" "lit ''nek'' \<noteq> lit ''bup''" "lit ''nos'' \<noteq> lit ''bup''" by code_simp+
  ultimately show "derive_token_path key \<noteq> derive_relay_json_path key"
    "derive_token_path key \<noteq> derive_pubkey_path key" "derive_relay_json_path key \<noteq> derive_pubkey_path key"
    "derive_token_path key \<noteq> with_extension (lit ''pub'') key" "derive_relay_json_path key \<noteq> with_extension (lit ''pub'') key"
    by metis+
qed

text \<open>The directories above the key file are there, nothing fails, and no directory has the name of a file of the relay.\<close>

definition files_ready :: "path \<Rightarrow> fs \<Rightarrow> bool" where
  "files_ready key s \<longleftrightarrow> (\<forall>p. fault s p = None) \<and> dir_ready key s
     \<and> (\<forall>q. path_parent key = Some q \<longrightarrow> (\<forall>r \<in> set (prefixes_of q). dirs s r \<and> files s r = None))
     \<and> \<not> dirs s (derive_pubkey_path key) \<and> \<not> dirs s (with_extension (lit ''pub'') key)
     \<and> \<not> dirs s (derive_token_path key) \<and> \<not> dirs s (derive_relay_json_path key)"

lemma files_ready_put:
  assumes "files_ready key s" "path_parent p = path_parent key" shows "files_ready key (put_file m p d s)"
proof -
  have "r \<noteq> p" if "path_parent key = Some q" "r \<in> set (prefixes_of q)" for q r
    using that assms(2) parent_length [of p q] prefixes_of_length [of r q] by auto
  with assms show ?thesis by (auto simp: files_ready_def)
qed

lemma write_private_Ok:
  assumes "files_ready key s" "path_parent p = path_parent key" "\<not> dirs s p"
  shows "write_private p data s = (Ok (), put_file 384 p data s)"
proof -
  obtain q where q: "path_parent key = Some q" using assms(1) by (auto simp: files_ready_def dir_ready_def split: option.splits)
  have "create_dir_all q s = (Ok (), s)"
    using assms(1) q by (cases s) (auto simp: files_ready_def create_dir_all_def list_ex_iff fun_eq_iff)
  moreover have "dir_ready p s" using assms(1,2) by (simp add: files_ready_def dir_ready_def)
  ultimately show ?thesis
    using assms q by (auto simp: write_private_def io_then_def fs_write_Ok files_ready_def)
qed

definition secret_files :: "path \<Rightarrow> bytes \<Rightarrow> bytes \<Rightarrow> fs \<Rightarrow> fs" where
  "secret_files key token b64 s =
     put_file 384 (derive_relay_json_path key) (token_json b64 (hex_encode token))
       (put_file 384 (derive_token_path key) (hex_encode token @ [10]) s)"

lemma persist_token_Ok:
  assumes "files_ready key s" "parts key \<noteq> []"
  shows "persist_token key token b64 s = (Ok (), secret_files key token b64 s)"
proof -
  let ?s = "put_file 384 (derive_token_path key) (hex_encode token @ [10]) s"
  have "write_private (derive_token_path key) (hex_encode token @ [10]) s = (Ok (), ?s)"
    using assms by (intro write_private_Ok [where key = key] derive_token_parent) (auto simp: files_ready_def)
  moreover have "write_private (derive_relay_json_path key) (token_json b64 (hex_encode token)) ?s
      = (Ok (), secret_files key token b64 s)"
    unfolding secret_files_def using assms
    by (intro write_private_Ok [where key = key] files_ready_put derive_json_parent derive_token_parent) (auto simp: files_ready_def)
  ultimately show ?thesis by (simp add: persist_token_def io_then_def)
qed

lemma files_ready_public:
  assumes "files_ready key s" "parts key \<noteq> []" shows "files_ready key (public_files key pk s)"
  using assms by (simp add: public_files_def Let_def files_ready_put derive_pubkey_parent)

lemma files_ready_secret:
  assumes "files_ready key s" "parts key \<noteq> []" shows "files_ready key (secret_files key token b64 s)"
  using assms by (simp add: secret_files_def files_ready_put derive_token_parent derive_json_parent)

text \<open>What the files hold afterwards, and that writing them once more changes nothing.\<close>

lemma public_files_content:
  "\<exists>m. files (public_files key pk s) (derive_pubkey_path key) = Some (base64_encode pk @ [10], m)"
  "\<exists>m. files (public_files key pk s) (with_extension (lit ''pub'') key) = Some (base64_encode pk @ [10], m)"
  by (auto simp: public_files_def Let_def)

lemma public_files_same:
  assumes "files s (derive_pubkey_path key) = Some (base64_encode pk @ [10], m)"
    "files s (with_extension (lit ''pub'') key) = Some (base64_encode pk @ [10], m')"
  shows "public_files key pk s = s"
  using assms put_file_same by (simp add: public_files_def Let_def)

lemma secret_files_content:
  assumes "secrets_kept key"
  shows "\<exists>m. files (secret_files key token b64 s) (derive_relay_json_path key) = Some (token_json b64 (hex_encode token), m)"
    "\<exists>m. files (secret_files key token b64 s) (derive_token_path key) = Some (hex_encode token @ [10], m)"
    "p \<noteq> derive_token_path key \<Longrightarrow> p \<noteq> derive_relay_json_path key \<Longrightarrow> files (secret_files key token b64 s) p = files s p"
  using secrets_distinct [OF assms] by (simp_all add: secret_files_def)

lemma secret_files_same:
  assumes "files s (derive_relay_json_path key) = Some (token_json b64 (hex_encode token), m)"
    "files s (derive_token_path key) = Some (hex_encode token @ [10], m')"
  shows "secret_files key token b64 s = s"
  using assms put_file_same by (simp add: secret_files_def)


text \<open>The token of a start: the configured one, else the saved one, else a new one.\<close>

definition choose_token :: "('s, bytes \<times> bytes) result \<Rightarrow> path \<Rightarrow> bytes option \<Rightarrow> fs \<Rightarrow> ('s KeyError, bytes) result" where
  "choose_token keys2 key configured s =
     (case nonempty configured of
        Some token \<Rightarrow> Ok token
      | None \<Rightarrow> (case read_saved_token key s of
          Panic \<Rightarrow> Panic
        | Ok (Some token) \<Rightarrow> Ok token
        | _ \<Rightarrow> map_err KeySnow (map_ok snd keys2)))"

lemma load_or_generate_existing:
  assumes "files_ready key s" "secrets_kept key"
    and "files s key = Some (raw, mode)" "parse_private_key_bytes raw = (Ok priv :: ('s KeyError, bytes) result)"
    and "derive_public_key R priv = Ok pub"
  shows "load_or_generate (R :: 's resolver) keys1 keys2 key addr configured s =
    (case choose_token keys2 key configured (public_files key pub s) of
       Ok token \<Rightarrow> (Ok (with_keypair (key_pair key priv pub) token addr),
                    secret_files key token (base64_encode pub) (public_files key pub s))
     | Err e \<Rightarrow> (Err e, public_files key pub s)
     | Panic \<Rightarrow> (Panic, public_files key pub s))"
proof -
  have kept: "key_kept key" "parts key \<noteq> []" using assms(2) by (simp_all add: secrets_kept_def key_kept_def)
  have "load_or_generate_keypair R keys1 key s = (Ok (key_pair key priv pub), public_files key pub s)"
    using assms(1) by (intro load_keypair [OF _ kept(1) _ _ _ assms(3-5)]) (simp_all add: files_ready_def)
  moreover have "persist_token key token (base64_encode pub) (public_files key pub s)
      = (Ok (), secret_files key token (base64_encode pub) (public_files key pub s))" for token
    using persist_token_Ok [OF files_ready_public [OF assms(1) kept(2)] kept(2)] .
  ultimately show ?thesis
    by (simp add: load_or_generate_def choose_token_def [symmetric] io_then_def io_err_def io_lift_def key_pair_def split: result.split)
qed

lemma choose_token_saved:
  assumes "secrets_kept key" "token \<noteq> []" "\<forall>p. fault s p = None"
  shows "choose_token keys2 key None (secret_files key token (base64_encode pub) s) = Ok token"
proof -
  let ?s = "secret_files key token (base64_encode pub) s"
  obtain m where "files ?s (derive_relay_json_path key) = Some (token_json (base64_encode pub) (hex_encode token), m)"
    using secret_files_content(1) [OF assms(1)] by blast
  moreover have "fault ?s p = None" for p using assms(3) by (simp add: secret_files_def)
  ultimately have "read_saved_token key ?s = Ok (Some token)"
    using read_json_token_written [OF assms(2)] by (simp add: read_saved_token_def fs_read_def)
  then show ?thesis by (simp add: choose_token_def nonempty_def)
qed

subsection \<open>Properties\<close>


definition sample_key :: path where
  "sample_key = Path True [lit ''etc'', lit ''relay.key'']"

definition sample_installed :: fs where
  "sample_installed = sample_fs\<lparr>dirs := (\<lambda>p. p = Path True [] \<or> p = Path True [lit ''etc'']),
     files := [sample_key \<mapsto> (replicate 32 7, 384)]\<rparr>"

lemma sample_ready: "files_ready sample_key sample_installed" "secrets_kept sample_key"
proof -
  have "prefixes_of (Path True [lit ''etc'']) = [Path True [lit ''etc'']]" "sample_key \<noteq> Path True [lit ''etc'']" by code_simp+
  moreover have "path_parent sample_key = Some (Path True [lit ''etc''])" by code_simp
  moreover have "list_all (\<lambda>p. \<not> dirs sample_installed p) [derive_pubkey_path sample_key, with_extension (lit ''pub'') sample_key,
      derive_token_path sample_key, derive_relay_json_path sample_key]" by code_simp
  ultimately show "files_ready sample_key sample_installed"
    by (simp add: files_ready_def dir_ready_def sample_installed_def sample_fs_def)
  show "secrets_kept sample_key" by code_simp
qed

lemma sample_key_file:
  "files sample_installed sample_key = Some (replicate 32 7, 384)"
  "parse_private_key_bytes (replicate 32 7) = (Ok (replicate 32 7) :: (unit KeyError, bytes) result)"
  "derive_public_key sample_resolver (replicate 32 7) = Ok (replicate 32 8)"
  by (simp_all add: sample_installed_def parse_private_key_raw derive_public_key_def sample_resolver_def)


subsection \<open>The daemon's token\<close>

lemma io_then_OkE:
  assumes "io_then m f s = (Ok y, s2)"
  obtains x s1 where "m s = (Ok x, s1)" "f x s1 = (Ok y, s2)"
  using assms by (auto simp: io_then_def split: prod.splits result.splits)

lemma load_or_generate_token:
  assumes "load_or_generate R keys1 keys2 key addr configured s = (Ok sec, s1)" "nonempty configured = Some token"
  shows "rs_secret_token sec = token"
  using assms(1) unfolding load_or_generate_def
  by (elim io_then_OkE) (auto simp: assms(2) io_lift_def with_keypair_def relay_secrets_new_def)

lemma load_secure_secrets_token:
  assumes "load_secure_secrets R keys key addr configured s = (Ok sec, s1)" "\<forall>priv pub. keys ! 2 = Ok (priv, pub) \<longrightarrow> pub \<noteq> []"
  shows "rs_secret_token sec \<noteq> []" "configured = Some v \<Longrightarrow> v \<noteq> [] \<Longrightarrow> rs_secret_token sec = v"
proof -
  obtain first s2 where first: "load_or_generate R (keys ! 0) (keys ! 1) key addr configured s = (Ok first, s2)"
    and rest: "(if rs_secret_token first \<noteq> [] then io_lift (Ok first)
       else io_then (io_lift (map_err KeySnow (keys ! 2))) (\<lambda>(_, random).
         load_or_generate R (keys ! 3) (keys ! 4) key addr (Some random))) s2 = (Ok sec, s1)"
    using assms(1) unfolding load_secure_secrets_def by (elim io_then_OkE)
  have new: "rs_secret_token sec \<noteq> []" if empty: "rs_secret_token first = []"
  proof -
    obtain priv pub s3 where "map_err KeySnow (keys ! 2) = Ok (priv, pub)" "load_or_generate R (keys ! 3) (keys ! 4) key addr (Some pub) s3 = (Ok sec, s1)"
      using rest empty by (auto elim!: io_then_OkE simp: io_lift_def)
    then show ?thesis using assms(2) load_or_generate_token [of R _ _ key addr "Some pub"] by (cases "keys ! 2") (auto simp: nonempty_def)
  qed
  then show "rs_secret_token sec \<noteq> []" using rest by (auto simp: io_lift_def split: if_splits)
  assume "configured = Some v" "v \<noteq> []"
  then show "rs_secret_token sec = v" using load_or_generate_token [OF first, of v] rest by (auto simp: nonempty_def io_lift_def)
qed

lemma daemon_config_Ok:
  assumes "daemon_config R keys parse_addr args env s = (Ok c, s1)"
  obtains sec addr fallback where "load_secure_secrets R keys (resolve_key_file_path args (ECHOMESH_KEY_FILE env) s) addr
      (resolve_secret_token args (ECHOMESH_SECRET env)) s = (Ok sec, s1)"
    "cfg_secret_token c = rs_secret_token sec" "secrets c = sec" "1 \<le> cfg_max_connections c" "cfg_insecure_no_token c = daemon_insecure args env"
  using assms unfolding daemon_config_def Let_def
  by (auto elim!: io_then_OkE simp: io_lift_def io_err_def map_err_Ok_iff new_with_secrets_def with_fallback_target_def
      with_max_connections_def with_handshake_timeout_def cfg_with_insecure_no_token_def split: option.splits prod.splits)

text \<open>C40: a daemon never runs with an empty token. Whatever the arguments, the environment and the files hold, when
  start-up succeeds the listener has a token, the configured one if one is configured, admits at least one connection,
  and accepts a camouflage hello exactly if the hello carries that token, unless the operator switched the check off.\<close>

theorem daemon_demands_token:
  assumes "daemon_config R keys parse_addr args env s = (Ok c, s1)" "\<forall>priv pub. keys ! 2 = Ok (priv, pub) \<longrightarrow> pub \<noteq> []"
  shows "cfg_secret_token c \<noteq> [] \<and> cfg_secret_token c = rs_secret_token (secrets c) \<and> 1 \<le> cfg_max_connections c
    \<and> (\<forall>v. resolve_secret_token args (ECHOMESH_SECRET env) = Some v \<and> v \<noteq> [] \<longrightarrow> cfg_secret_token c = v)
    \<and> (\<not> daemon_insecure args env \<longrightarrow>
        (\<forall>hello. validate_token (bind_validator c) hello \<longleftrightarrow> token_matches (token_validator_new (cfg_secret_token c)) hello))"
proof -
  obtain sec addr where sec: "load_secure_secrets R keys (resolve_key_file_path args (ECHOMESH_KEY_FILE env) s) addr
      (resolve_secret_token args (ECHOMESH_SECRET env)) s = (Ok sec, s1)"
    and c: "cfg_secret_token c = rs_secret_token sec" "secrets c = sec" "1 \<le> cfg_max_connections c" "cfg_insecure_no_token c = daemon_insecure args env"
    by (rule daemon_config_Ok [OF assms(1)])
  note token = load_secure_secrets_token [OF sec assms(2)]
  show ?thesis
    using token c by (simp add: bind_validator_def validate_token_eq token_validator_new_def)
qed

definition sample_environment :: environment where
  "sample_environment = \<lparr>ECHOMESH_KEY_FILE = Some (lit ''/etc/relay.key''), ECHOMESH_SECRET = Some (lit ''s3cret''), ECHOMESH_BIND_ADDR = None,
     ECHOMESH_FALLBACK_TARGET = None, ECHOMESH_MAX_CONNECTIONS = Some (lit ''0''), ECHOMESH_INSECURE_NO_AUTH = None,
     ECHOMESH_INSECURE_NO_TOKEN = None\<rparr>"

lemma sample_start: "\<exists>c s1. daemon_config sample_resolver (replicate 5 (Err ())) Some [] sample_environment sample_installed = (Ok c, s1)"
proof -
  have path: "resolve_key_file_path [] (Some (lit ''/etc/relay.key'')) s = sample_key" for s by code_simp
  have secret: "resolve_secret_token [] (Some (lit ''s3cret'')) = Some (lit ''s3cret'')" "lit ''s3cret'' \<noteq> []" by code_simp+
  let ?sec = "with_keypair (key_pair sample_key (replicate 32 7) (replicate 32 8)) (lit ''s3cret'')"
  have "\<exists>s1. load_or_generate sample_resolver (Err ()) (Err ()) sample_key addr (Some (lit ''s3cret'')) sample_installed = (Ok (?sec addr), s1)" for addr
    unfolding load_or_generate_existing [OF sample_ready sample_key_file] using secret(2) by (simp add: choose_token_def nonempty_def)
  then obtain s1 where s1: "load_or_generate sample_resolver (Err ()) (Err ()) sample_key (lit ''0.0.0.0:8443'') (Some (lit ''s3cret'')) sample_installed
      = (Ok (?sec (lit ''0.0.0.0:8443'')), s1)" by blast
  have "rs_secret_token (?sec addr) = lit ''s3cret''" for addr by (simp add: with_keypair_def relay_secrets_new_def)
  then have "load_secure_secrets sample_resolver (replicate 5 (Err ())) sample_key (lit ''0.0.0.0:8443'') (Some (lit ''s3cret'')) sample_installed
      = (Ok (?sec (lit ''0.0.0.0:8443'')), s1)"
    using s1 secret(2) by (simp add: load_secure_secrets_def io_then_def io_lift_def numeral_eq_Suc)
  then show ?thesis
    using secret path by (simp add: daemon_config_def sample_environment_def Let_def io_then_def io_err_def io_lift_def)
qed

theorem daemon_demands_token_witness:
  "\<exists>c s1. daemon_config sample_resolver (replicate 5 (Err ())) Some [] sample_environment sample_installed = (Ok c, s1)
    \<and> cfg_secret_token c = lit ''s3cret'' \<and> 1 \<le> cfg_max_connections c
    \<and> (\<forall>hello. validate_token (bind_validator c) hello \<longleftrightarrow> token_matches (token_validator_new (lit ''s3cret'')) hello)"
proof -
  obtain c s1 where run: "daemon_config sample_resolver (replicate 5 (Err ())) Some [] sample_environment sample_installed = (Ok c, s1)"
    using sample_start by blast
  have "\<forall>priv pub. replicate 5 (Err ()) ! 2 = (Ok (priv, pub) :: (unit, bytes \<times> bytes) result) \<longrightarrow> pub \<noteq> []" by (simp add: numeral_eq_Suc)
  note demands = daemon_demands_token [OF run this]
  have "resolve_secret_token [] (ECHOMESH_SECRET sample_environment) = Some (lit ''s3cret'')" "lit ''s3cret'' \<noteq> []"
    "\<not> daemon_insecure [] sample_environment" by code_simp+
  with demands have "cfg_secret_token c = lit ''s3cret''" "1 \<le> cfg_max_connections c"
    "\<forall>hello. validate_token (bind_validator c) hello \<longleftrightarrow> token_matches (token_validator_new (cfg_secret_token c)) hello" by blast+
  with run show ?thesis by auto
qed

end
