(* ===== verification/Noise.thy ===== *)
theory Noise
  imports Frame
begin

section \<open>The Noise layer\<close>

text \<open>
  \<open>src/transport/noise.rs\<close> and \<open>src/server/networking/writer.rs\<close>: the encryption of frames, the length-prefixed
  packets on a stream, and the two sides of the NK handshake. The cryptography is the crate \<open>snow\<close>, a record of its
  functions that every definition takes as an argument; \<open>snow_transport\<close>, \<open>snow_tag\<close> and \<open>snow_nk\<close> are the parts of
  its documented behaviour that theorems assume. A byte stream is what has not been read yet, the error a read past
  that gives (end of file, a timeout, another error), what was written, and whether writes fail. The lemmas show that
  frames arrive in order and unchanged, that both sides agree after the handshake, and that a \<open>recv_frame\<close> which
  \<open>select!\<close> drops half-way loses the bytes it has read.
\<close>

subsection \<open>Byte streams\<close>

record Stream =
  incoming :: bytes
  ending :: io_error_kind
  outgoing :: bytes
  write_fault :: "io_error_kind option"

definition stream_read_exact :: "nat \<Rightarrow> Stream \<Rightarrow> (io_error_kind, bytes) result \<times> Stream" where
  "stream_read_exact n s =
     (if length (incoming s) < n then (Err (ending s), s\<lparr>incoming := []\<rparr>)
      else (Ok (take n (incoming s)), s\<lparr>incoming := drop n (incoming s)\<rparr>))"

definition stream_read_u16 :: "Stream \<Rightarrow> (io_error_kind, u16) result \<times> Stream" where
  "stream_read_u16 = io_then (stream_read_exact 2) (\<lambda>bs s. (Ok (of_nat (nat_from_be bs)), s))"

definition stream_write_all :: "bytes \<Rightarrow> Stream \<Rightarrow> (io_error_kind, unit) result \<times> Stream" where
  "stream_write_all bs s =
     (case write_fault s of None \<Rightarrow> (Ok (), s\<lparr>outgoing := outgoing s @ bs\<rparr>) | Some e \<Rightarrow> (Err e, s))"

lemma stream_read_exact_append [buf_simps]:
  "incoming s = xs @ ys \<Longrightarrow> length xs = n \<Longrightarrow> stream_read_exact n s = (Ok xs, s\<lparr>incoming := ys\<rparr>)"
  by (auto simp: stream_read_exact_def)

lemma stream_read_u16_append [buf_simps]:
  assumes "incoming s = put_u16 w @ ys"
  shows "stream_read_u16 s = (Ok w, s\<lparr>incoming := ys\<rparr>)"
  using get_u16_put [of w ys] assms
  by (simp add: stream_read_u16_def io_then_def stream_read_exact_append get_u16_def)

lemma stream_read_u16_short: "length (incoming s) < 2 \<Longrightarrow> stream_read_u16 s = (Err (ending s), s\<lparr>incoming := []\<rparr>)"
  by (simp add: stream_read_u16_def io_then_def stream_read_exact_def)

subsection \<open>The interface of snow\<close>

text \<open>\<open>Builder::new(pattern)\<close> with \<open>local_private_key(key)\<close> and \<open>build_responder()\<close>, or \<open>remote_public_key(key)\<close> and
  \<open>build_initiator()\<close>; \<open>write_message(payload, out)\<close> and \<open>read_message(message, out)\<close> of the handshake and the
  transport state, where \<open>out\<close> is given by its length and the value is the part of it that was written; and
  \<open>into_transport_mode()\<close>. The random numbers of a handshake are part of its state.\<close>

record ('h, 't, 's) snow =
  build_responder :: "bytes \<Rightarrow> bytes \<Rightarrow> ('s, 'h) result"
  build_initiator :: "bytes \<Rightarrow> bytes \<Rightarrow> ('s, 'h) result"
  hs_write_message :: "'h \<Rightarrow> bytes \<Rightarrow> nat \<Rightarrow> ('s, bytes \<times> 'h) result"
  hs_read_message :: "'h \<Rightarrow> bytes \<Rightarrow> nat \<Rightarrow> ('s, bytes \<times> 'h) result"
  into_transport_mode :: "'h \<Rightarrow> ('s, 't) result"
  write_message :: "bytes \<Rightarrow> nat \<Rightarrow> 't \<Rightarrow> ('s, bytes) result \<times> 't"
  read_message :: "bytes \<Rightarrow> nat \<Rightarrow> 't \<Rightarrow> ('s, bytes) result \<times> 't"

definition NOISE_PATTERN :: bytes where "NOISE_PATTERN = lit ''Noise_NK_25519_ChaChaPoly_BLAKE2s''"
definition NOISE_PROLOGUE :: bytes where "NOISE_PROLOGUE = []"
definition MAX_NOISE_MSG_LEN :: nat where "MAX_NOISE_MSG_LEN = 65535"
definition NOISE_TAG_LEN :: nat where "NOISE_TAG_LEN = 16"
definition ENCRYPTED_FRAME_SIZE :: nat where "ENCRYPTED_FRAME_SIZE = FRAME_SIZE + NOISE_TAG_LEN"

declare MAX_NOISE_MSG_LEN_def [frame_sizes] NOISE_TAG_LEN_def [frame_sizes] ENCRYPTED_FRAME_SIZE_def [frame_sizes]

text \<open>What is assumed of the transport state: \<open>chan n a b\<close> means that \<open>b\<close> is ready to read what \<open>a\<close> writes next, for
  at least \<open>n\<close> messages (the nonce of a direction is a 64-bit counter). A message within the limits is then encrypted
  with the tag of 16 bytes, its decryption by the other side succeeds, and both sides have moved on. The two directions
  are independent: writing leaves a state ready to read, and reading leaves it ready to be read from.\<close>

definition snow_transport :: "('h, 't, 's) snow \<Rightarrow> (nat \<Rightarrow> 't \<Rightarrow> 't \<Rightarrow> bool) \<Rightarrow> bool" where
  "snow_transport S chan \<longleftrightarrow>
     (\<forall>n a b pt cap. chan (Suc n) a b \<longrightarrow> length pt + NOISE_TAG_LEN \<le> MAX_NOISE_MSG_LEN \<longrightarrow> length pt + NOISE_TAG_LEN \<le> cap \<longrightarrow>
        (\<exists>ct a'. write_message S pt cap a = (Ok ct, a') \<and> length ct = length pt + NOISE_TAG_LEN
          \<and> (\<forall>cap' \<ge> length pt. \<exists>b'. read_message S ct cap' b = (Ok pt, b') \<and> chan n a' b')))
     \<and> (\<forall>n a b pt cap. chan n b a \<longrightarrow> chan n b (snd (write_message S pt cap a)))
     \<and> (\<forall>n a b ct cap. chan n b a \<longrightarrow> chan n (snd (read_message S ct cap b)) a)"

text \<open>A message that decrypts is 16 bytes longer than its plaintext.\<close>

definition snow_tag :: "('h, 't, 's) snow \<Rightarrow> bool" where
  "snow_tag S \<longleftrightarrow> (\<forall>ct cap t pt t'. read_message S ct cap t = (Ok pt, t') \<longrightarrow> length ct = length pt + NOISE_TAG_LEN)"

text \<open>Two handshake states built from the two halves of a key pair complete the pattern NK, with messages that fit the
  program's 128-byte buffers, and give transport states that are connected in both directions.\<close>

definition snow_nk :: "('h, 't, 's) snow \<Rightarrow> (nat \<Rightarrow> 't \<Rightarrow> 't \<Rightarrow> bool) \<Rightarrow> nat \<Rightarrow> bytes \<Rightarrow> bytes \<Rightarrow> bool" where
  "snow_nk S chan n priv pub \<longleftrightarrow>
     (\<exists>i r m1 i1 p1 r1 m2 r2 p2 i2 a b.
        build_initiator S NOISE_PATTERN pub = Ok i \<and> build_responder S NOISE_PATTERN priv = Ok r
        \<and> hs_write_message S i [] 128 = Ok (m1, i1) \<and> length m1 \<le> 128 \<and> hs_read_message S r m1 128 = Ok (p1, r1)
        \<and> hs_write_message S r1 [] 128 = Ok (m2, r2) \<and> length m2 \<le> 128 \<and> hs_read_message S i1 m2 128 = Ok (p2, i2)
        \<and> into_transport_mode S i2 = Ok a \<and> into_transport_mode S r2 = Ok b \<and> chan n a b \<and> chan n b a)"

subsection \<open>Sessions\<close>

datatype 's NoiseError =
    Snow 's
  | NoiseIo io_error_kind
  | NoiseProtocol ProtocolError
  | BadMessageSize (bad_expected: nat) (bad_actual: nat)
  | StreamClosed

definition encrypt_frame :: "('h, 't, 's) snow \<Rightarrow> Frame \<Rightarrow> 't \<Rightarrow> ('s NoiseError, bytes) result \<times> 't" where
  "encrypt_frame S frame =
     io_then (io_lift (map_err NoiseProtocol (frame_encode frame []))) (\<lambda>raw_frame.
     io_then (io_err Snow (write_message S raw_frame (length raw_frame + NOISE_TAG_LEN))) (\<lambda>cipher_text.
     io_lift (Ok (put_u16 (of_nat (length cipher_text)) @ cipher_text))))"

definition decrypt_frame :: "('h, 't, 's) snow \<Rightarrow> bytes \<Rightarrow> 't \<Rightarrow> ('s NoiseError, Frame) result \<times> 't" where
  "decrypt_frame S cipher_text =
     io_then (io_err Snow (read_message S cipher_text (length cipher_text))) (\<lambda>plain_buf.
     io_lift (map_err NoiseProtocol (from_slice plain_buf)))"

definition noise_encrypt :: "('h, 't, 's) snow \<Rightarrow> bytes \<Rightarrow> nat \<Rightarrow> 't \<Rightarrow> ('s NoiseError, bytes) result \<times> 't" where
  "noise_encrypt S pt out_len = io_err Snow (write_message S pt out_len)"

definition noise_decrypt :: "('h, 't, 's) snow \<Rightarrow> bytes \<Rightarrow> nat \<Rightarrow> 't \<Rightarrow> ('s NoiseError, bytes) result \<times> 't" where
  "noise_decrypt S packet out_len = io_err Snow (read_message S packet out_len)"

subsection \<open>Handshakes\<close>

text \<open>Length-prefixed messages, as both handshakes write them.\<close>

definition write_prefixed :: "bytes \<Rightarrow> Stream \<Rightarrow> ('s NoiseError, unit) result \<times> Stream" where
  "write_prefixed msg =
     io_then (io_err NoiseIo (stream_write_all (put_u16 (of_nat (length msg))))) (\<lambda>_. io_err NoiseIo (stream_write_all msg))"

definition read_prefixed :: "Stream \<Rightarrow> ('s NoiseError, bytes) result \<times> Stream" where
  "read_prefixed = io_then (io_err NoiseIo stream_read_u16) (\<lambda>len. io_err NoiseIo (stream_read_exact (unat len)))"

definition server_noise_handshake :: "('h, 't, 's) snow \<Rightarrow> bytes \<Rightarrow> Stream \<Rightarrow> ('s NoiseError, 't) result \<times> Stream" where
  "server_noise_handshake S server_private_key =
     io_then (io_lift (map_err Snow (build_responder S NOISE_PATTERN server_private_key))) (\<lambda>responder.
     io_then read_prefixed (\<lambda>msg1.
     io_then (io_lift (map_err Snow (hs_read_message S responder msg1 128))) (\<lambda>(_, responder).
     io_then (io_lift (map_err Snow (hs_write_message S responder [] 128))) (\<lambda>(msg2, responder).
     io_then (write_prefixed msg2) (\<lambda>_.
     io_lift (map_err Snow (into_transport_mode S responder)))))))"

definition client_noise_handshake :: "('h, 't, 's) snow \<Rightarrow> bytes \<Rightarrow> Stream \<Rightarrow> ('s NoiseError, 't) result \<times> Stream" where
  "client_noise_handshake S server_public_key =
     io_then (io_lift (map_err Snow (build_initiator S NOISE_PATTERN server_public_key))) (\<lambda>initiator.
     io_then (io_lift (map_err Snow (hs_write_message S initiator [] 128))) (\<lambda>(msg1, initiator).
     io_then (write_prefixed msg1) (\<lambda>_.
     io_then read_prefixed (\<lambda>msg2.
     io_then (io_lift (map_err Snow (hs_read_message S initiator msg2 128))) (\<lambda>(_, initiator).
     io_lift (map_err Snow (into_transport_mode S initiator)))))))"

subsection \<open>Framed streams\<close>

record 't NoiseFramedStream =
  nf_stream :: Stream
  nf_session :: 't

definition on_session :: "('t \<Rightarrow> ('e, 'a) result \<times> 't) \<Rightarrow> 't NoiseFramedStream \<Rightarrow> ('e, 'a) result \<times> 't NoiseFramedStream" where
  "on_session m s = (case m (nf_session s) of (r, t) \<Rightarrow> (r, s\<lparr>nf_session := t\<rparr>))"

definition on_stream :: "(Stream \<Rightarrow> ('e, 'a) result \<times> Stream) \<Rightarrow> 't NoiseFramedStream \<Rightarrow> ('e, 'a) result \<times> 't NoiseFramedStream" where
  "on_stream m s = (case m (nf_stream s) of (r, st) \<Rightarrow> (r, s\<lparr>nf_stream := st\<rparr>))"

definition send_frame :: "('h, 't, 's) snow \<Rightarrow> Frame \<Rightarrow> 't NoiseFramedStream \<Rightarrow> ('s NoiseError, unit) result \<times> 't NoiseFramedStream" where
  "send_frame S frame =
     io_then (on_session (encrypt_frame S frame)) (\<lambda>packet. on_stream (io_err NoiseIo (stream_write_all packet)))"

definition recv_frame :: "('h, 't, 's) snow \<Rightarrow> 't NoiseFramedStream \<Rightarrow> ('s NoiseError, Frame option) result \<times> 't NoiseFramedStream" where
  "recv_frame S s =
     (case on_stream stream_read_u16 s of
        (Panic, s1) \<Rightarrow> (Panic, s1)
      | (Err e, s1) \<Rightarrow> (if e = UnexpectedEof then Ok None else Err (NoiseIo e), s1)
      | (Ok w, s1) \<Rightarrow>
          (let len = unat w in
           if len > ENCRYPTED_FRAME_SIZE then (Err (BadMessageSize ENCRYPTED_FRAME_SIZE len), s1)
           else io_then (on_stream (io_err NoiseIo (stream_read_exact len))) (\<lambda>buf.
                io_then (on_session (decrypt_frame S buf)) (\<lambda>frame. io_lift (Ok (Some frame)))) s1))"

text \<open>\<open>OutboundWriter::run\<close> on the frames that arrive on its channel: what is left unsent, and the stream.\<close>

fun outbound_writer_run :: "('h, 't, 's) snow \<Rightarrow> Frame list \<Rightarrow> 't NoiseFramedStream \<Rightarrow> Frame list \<times> 't NoiseFramedStream" where
  "outbound_writer_run S [] s = ([], s)"
| "outbound_writer_run S (f # fs) s =
     (case send_frame S f s of (Ok _, s1) \<Rightarrow> outbound_writer_run S fs s1 | (_, s1) \<Rightarrow> (fs, s1))"

text \<open>Receiving until the stream ends or fails.\<close>

fun recv_frames :: "('h, 't, 's) snow \<Rightarrow> nat \<Rightarrow> 't NoiseFramedStream \<Rightarrow> Frame list \<times> 't NoiseFramedStream" where
  "recv_frames S 0 s = ([], s)"
| "recv_frames S (Suc n) s =
     (case recv_frame S s of
        (Ok (Some f), s1) \<Rightarrow> (case recv_frames S n s1 of (fs, s2) \<Rightarrow> (f # fs, s2))
      | (_, s1) \<Rightarrow> ([], s1))"

text \<open>A poll of \<open>recv_frame\<close> when \<open>arrived\<close> is all that has arrived: it suspends if the length or the packet is not
  complete, and has then taken everything that has arrived out of the stream. In a \<open>select!\<close> whose other branch
  completes first, the suspended call is dropped together with those bytes.\<close>

definition recv_suspends :: "bytes \<Rightarrow> bool" where
  "recv_suspends arrived \<longleftrightarrow> length arrived < 2
     \<or> (let len = unat (of_nat (nat_from_be (take 2 arrived)) :: u16) in len \<le> ENCRYPTED_FRAME_SIZE \<and> length arrived < 2 + len)"

definition recv_dropped :: "nat \<Rightarrow> 't NoiseFramedStream \<Rightarrow> 't NoiseFramedStream" where
  "recv_dropped k s =
     (if recv_suspends (take k (incoming (nf_stream s)))
      then s\<lparr>nf_stream := (nf_stream s)\<lparr>incoming := drop k (incoming (nf_stream s))\<rparr>\<rparr> else s)"

subsection \<open>One frame\<close>

lemma snow_transport_message:
  assumes "snow_transport S chan" "chan (Suc n) a b" "length pt + NOISE_TAG_LEN \<le> MAX_NOISE_MSG_LEN"
  obtains ct a' b' where "write_message S pt (length pt + NOISE_TAG_LEN) a = (Ok ct, a')" "length ct = length pt + NOISE_TAG_LEN"
    "read_message S ct (length ct) b = (Ok pt, b')" "chan n a' b'"
proof -
  obtain ct a' where ct: "write_message S pt (length pt + NOISE_TAG_LEN) a = (Ok ct, a')" "length ct = length pt + NOISE_TAG_LEN"
    "\<forall>cap' \<ge> length pt. \<exists>b'. read_message S ct cap' b = (Ok pt, b') \<and> chan n a' b'"
    using assms unfolding snow_transport_def by blast
  have "length pt \<le> length ct" using ct(2) by simp
  with ct(3) obtain b' where "read_message S ct (length ct) b = (Ok pt, b')" "chan n a' b'" by blast
  with that ct(1,2) show thesis by blast
qed

lemma encoded_frame:
  assumes "wf_frame f"
  obtains raw where "frame_encode f [] = Ok raw" "length raw = FRAME_SIZE" "from_slice raw = Ok f"
  using frame_codec.encode_defined [OF assms] frame_codec.decode_encode [OF assms] frame_encode_length [of f "[]"] assms
  by (auto simp: wf_frame_def)

lemma encrypt_decrypt_frame:
  assumes "snow_transport S chan" "chan (Suc n) a b" "wf_frame f"
  obtains ct a' b' where "encrypt_frame S f a = (Ok (put_u16 (of_nat ENCRYPTED_FRAME_SIZE) @ ct), a')"
    "length ct = ENCRYPTED_FRAME_SIZE" "decrypt_frame S ct b = (Ok f, b')" "chan n a' b'"
proof -
  obtain raw where raw: "frame_encode f [] = Ok raw" "length raw = FRAME_SIZE" "from_slice raw = Ok f"
    by (rule encoded_frame [OF assms(3)])
  then have "length raw + NOISE_TAG_LEN \<le> MAX_NOISE_MSG_LEN" by (simp add: frame_sizes)
  from snow_transport_message [OF assms(1,2) this] obtain ct a' b' where ct:
    "write_message S raw (length raw + NOISE_TAG_LEN) a = (Ok ct, a')" "length ct = length raw + NOISE_TAG_LEN"
    "read_message S ct (length ct) b = (Ok raw, b')" "chan n a' b'" .
  show thesis
    by (rule that [of ct a' b']) (use raw ct in
      \<open>simp_all add: encrypt_frame_def decrypt_frame_def io_then_def io_err_def io_lift_def ENCRYPTED_FRAME_SIZE_def\<close>)
qed

lemma recv_packet:
  assumes "decrypt_frame S ct (nf_session B) = (Ok f, b')" "length ct = ENCRYPTED_FRAME_SIZE"
    and "incoming (nf_stream B) = put_u16 (of_nat ENCRYPTED_FRAME_SIZE) @ ct @ rest"
  shows "recv_frame S B = (Ok (Some f), B\<lparr>nf_stream := (nf_stream B)\<lparr>incoming := rest\<rparr>, nf_session := b'\<rparr>)"
proof -
  have len: "unat (of_nat ENCRYPTED_FRAME_SIZE :: u16) = ENCRYPTED_FRAME_SIZE" by (simp add: frame_sizes)
  have "stream_read_exact ENCRYPTED_FRAME_SIZE ((nf_stream B)\<lparr>incoming := ct @ rest\<rparr>) = (Ok ct, (nf_stream B)\<lparr>incoming := rest\<rparr>)"
    using assms(2) by (simp add: stream_read_exact_append)
  with stream_read_u16_append [OF assms(3)] assms(1) len show ?thesis
    by (simp add: recv_frame_def on_stream_def on_session_def Let_def io_then_def io_err_def io_lift_def)
qed

text \<open>A frame sent is a packet of 1438 bytes, from which the other side receives the frame.\<close>

lemma send_recv_frame:
  assumes "snow_transport S chan" "chan (Suc n) (nf_session A) b" "wf_frame f" "write_fault (nf_stream A) = None"
  obtains packet A' b' where "send_frame S f A = (Ok (), A')" "length packet = 2 + ENCRYPTED_FRAME_SIZE"
    "nf_stream A' = (nf_stream A)\<lparr>outgoing := outgoing (nf_stream A) @ packet\<rparr>" "chan n (nf_session A') b'"
    "\<And>B rest. nf_session B = b \<Longrightarrow> incoming (nf_stream B) = packet @ rest \<Longrightarrow>
      recv_frame S B = (Ok (Some f), \<lparr>nf_stream = (nf_stream B)\<lparr>incoming := rest\<rparr>, nf_session = b'\<rparr>)"
proof -
  obtain ct a' b' where ct: "encrypt_frame S f (nf_session A) = (Ok (put_u16 (of_nat ENCRYPTED_FRAME_SIZE) @ ct), a')"
    "length ct = ENCRYPTED_FRAME_SIZE" "decrypt_frame S ct b = (Ok f, b')" "chan n a' b'"
    by (rule encrypt_decrypt_frame [OF assms(1-3)])
  let ?packet = "put_u16 (of_nat ENCRYPTED_FRAME_SIZE) @ ct"
  have "recv_frame S B = (Ok (Some f), \<lparr>nf_stream = (nf_stream B)\<lparr>incoming := rest\<rparr>, nf_session = b'\<rparr>)"
    if B: "nf_session B = b" "incoming (nf_stream B) = ?packet @ rest" for B rest
    using recv_packet [of S ct B f b' rest] ct(2,3) B by simp
  moreover let ?A = "A\<lparr>nf_session := a', nf_stream := (nf_stream A)\<lparr>outgoing := outgoing (nf_stream A) @ ?packet\<rparr>\<rparr>"
  have "send_frame S f A = (Ok (), ?A)"
    using ct(1) assms(4) by (simp add: send_frame_def on_session_def on_stream_def io_then_def io_err_def stream_write_all_def)
  ultimately show thesis using ct(2,4) by (intro that [of ?A ?packet b']) simp_all
qed

subsection \<open>Sequences of frames\<close>

lemma writer_reader:
  assumes "snow_transport S chan" "\<forall>f \<in> set fs. wf_frame f" "chan (n + length fs) (nf_session A) b" "write_fault (nf_stream A) = None"
  shows "\<exists>wire A' b'. outbound_writer_run S fs A = ([], A') \<and> length wire = (2 + ENCRYPTED_FRAME_SIZE) * length fs
    \<and> nf_stream A' = (nf_stream A)\<lparr>outgoing := outgoing (nf_stream A) @ wire\<rparr> \<and> chan n (nf_session A') b'
    \<and> (\<forall>B rest. nf_session B = b \<longrightarrow> incoming (nf_stream B) = wire @ rest \<longrightarrow>
        recv_frames S (length fs) B = (fs, \<lparr>nf_stream = (nf_stream B)\<lparr>incoming := rest\<rparr>, nf_session = b'\<rparr>))"
  using assms(2-4)
proof (induction fs arbitrary: A b)
  case Nil
  show ?case by (rule exI [of _ "[]"], rule exI [of _ A], rule exI [of _ b]) (use Nil in simp)
next
  case (Cons f fs)
  have "chan (Suc (n + length fs)) (nf_session A) b" using Cons.prems(2) by simp
  with Cons.prems obtain packet A1 b1 where one: "send_frame S f A = (Ok (), A1)" "length packet = 2 + ENCRYPTED_FRAME_SIZE"
    "nf_stream A1 = (nf_stream A)\<lparr>outgoing := outgoing (nf_stream A) @ packet\<rparr>" "chan (n + length fs) (nf_session A1) b1"
    "\<And>B rest. nf_session B = b \<Longrightarrow> incoming (nf_stream B) = packet @ rest \<Longrightarrow>
      recv_frame S B = (Ok (Some f), \<lparr>nf_stream = (nf_stream B)\<lparr>incoming := rest\<rparr>, nf_session = b1\<rparr>)"
    by (auto elim: send_recv_frame [OF assms(1)])
  obtain wire A' b' where rest: "outbound_writer_run S fs A1 = ([], A')" "length wire = (2 + ENCRYPTED_FRAME_SIZE) * length fs"
    "nf_stream A' = (nf_stream A1)\<lparr>outgoing := outgoing (nf_stream A1) @ wire\<rparr>" "chan n (nf_session A') b'"
    "\<And>B rest. nf_session B = b1 \<Longrightarrow> incoming (nf_stream B) = wire @ rest \<Longrightarrow>
      recv_frames S (length fs) B = (fs, \<lparr>nf_stream = (nf_stream B)\<lparr>incoming := rest\<rparr>, nf_session = b'\<rparr>)"
    using Cons.IH [of A1 b1] Cons.prems one(3,4) by auto
  have "recv_frames S (length (f # fs)) B = (f # fs, \<lparr>nf_stream = (nf_stream B)\<lparr>incoming := tail\<rparr>, nf_session = b'\<rparr>)"
    if "nf_session B = b" "incoming (nf_stream B) = (packet @ wire) @ tail" for B tail
    using one(5) [of B "wire @ tail"] rest(5) [of _ tail] that by simp
  with one(1-3) rest(1-4) show ?case
    by (intro exI [of _ "packet @ wire"] exI [of _ A'] exI [of _ b']) simp
qed

subsection \<open>Handshakes\<close>

lemma write_prefixed_Ok:
  "write_fault s = None \<Longrightarrow> write_prefixed msg s = (Ok (), s\<lparr>outgoing := outgoing s @ put_u16 (of_nat (length msg)) @ msg\<rparr>)"
  by (simp add: write_prefixed_def io_then_def io_err_def stream_write_all_def)

lemma read_prefixed_Ok:
  assumes "length msg < 65536" "incoming s = put_u16 (of_nat (length msg)) @ msg @ rest"
  shows "read_prefixed s = (Ok msg, s\<lparr>incoming := rest\<rparr>)"
  using stream_read_u16_append [OF assms(2)] stream_read_exact_append [of "s\<lparr>incoming := msg @ rest\<rparr>" msg rest] assms(1)
  by (simp add: read_prefixed_def io_then_def io_err_def)

lemma handshake_messages:
  assumes "snow_nk S chan n priv pub"
  obtains m1 m2 a b where "chan n a b" "chan n b a" "length m1 \<le> 128"
    "\<And>s rest. write_fault s = None \<Longrightarrow> incoming s = put_u16 (of_nat (length m1)) @ m1 @ rest \<Longrightarrow>
       server_noise_handshake S priv s
         = (Ok b, s\<lparr>incoming := rest, outgoing := outgoing s @ put_u16 (of_nat (length m2)) @ m2\<rparr>)"
    "\<And>c rest. write_fault c = None \<Longrightarrow> incoming c = put_u16 (of_nat (length m2)) @ m2 @ rest \<Longrightarrow>
       client_noise_handshake S pub c
         = (Ok a, c\<lparr>incoming := rest, outgoing := outgoing c @ put_u16 (of_nat (length m1)) @ m1\<rparr>)"
proof -
  obtain i r m1 i1 p1 r1 m2 r2 p2 i2 a b where h:
    "build_initiator S NOISE_PATTERN pub = Ok i" "build_responder S NOISE_PATTERN priv = Ok r"
    "hs_write_message S i [] 128 = Ok (m1, i1)" "length m1 \<le> 128" "hs_read_message S r m1 128 = Ok (p1, r1)"
    "hs_write_message S r1 [] 128 = Ok (m2, r2)" "length m2 \<le> 128" "hs_read_message S i1 m2 128 = Ok (p2, i2)"
    "into_transport_mode S i2 = Ok a" "into_transport_mode S r2 = Ok b" and chan: "chan n a b" "chan n b a"
    using assms unfolding snow_nk_def by blast
  have "server_noise_handshake S priv s
         = (Ok b, s\<lparr>incoming := rest, outgoing := outgoing s @ put_u16 (of_nat (length m2)) @ m2\<rparr>)"
    if "write_fault s = None" "incoming s = put_u16 (of_nat (length m1)) @ m1 @ rest" for s rest
    using h that
    by (simp add: server_noise_handshake_def io_then_def io_lift_def read_prefixed_Ok [of m1 s rest] write_prefixed_Ok)
  moreover have "client_noise_handshake S pub c
         = (Ok a, c\<lparr>incoming := rest, outgoing := outgoing c @ put_u16 (of_nat (length m1)) @ m1\<rparr>)"
    if "write_fault c = None" "incoming c = put_u16 (of_nat (length m2)) @ m2 @ rest" for c rest
    using h that
    by (simp add: client_noise_handshake_def io_then_def io_lift_def write_prefixed_Ok
        read_prefixed_Ok [of m2 "c\<lparr>outgoing := outgoing c @ put_u16 (of_nat (length m1)) @ m1\<rparr>" rest])
  ultimately show thesis using h(4) chan that by blast
qed

lemma handshake_agrees:
  assumes "snow_nk S chan n priv pub"
  shows "\<exists>m1 m2 a b. chan n a b \<and> chan n b a
    \<and> (\<forall>s rest. write_fault s = None \<longrightarrow> incoming s = m1 @ rest \<longrightarrow>
        server_noise_handshake S priv s = (Ok b, s\<lparr>incoming := rest, outgoing := outgoing s @ m2\<rparr>))
    \<and> (\<forall>c rest. write_fault c = None \<longrightarrow> incoming c = m2 @ rest \<longrightarrow>
        client_noise_handshake S pub c = (Ok a, c\<lparr>incoming := rest, outgoing := outgoing c @ m1\<rparr>))"
proof (rule handshake_messages [OF assms])
  fix m1 m2 a b
  assume chan: "chan n a b" "chan n b a"
    and hs: "\<And>s rest. write_fault s = None \<Longrightarrow> incoming s = put_u16 (of_nat (length m1)) @ m1 @ rest \<Longrightarrow>
       server_noise_handshake S priv s
         = (Ok b, s\<lparr>incoming := rest, outgoing := outgoing s @ put_u16 (of_nat (length m2)) @ m2\<rparr>)"
    "\<And>c rest. write_fault c = None \<Longrightarrow> incoming c = put_u16 (of_nat (length m2)) @ m2 @ rest \<Longrightarrow>
       client_noise_handshake S pub c
         = (Ok a, c\<lparr>incoming := rest, outgoing := outgoing c @ put_u16 (of_nat (length m1)) @ m1\<rparr>)"
  show ?thesis
    by (rule exI [of _ "put_u16 (of_nat (length m1)) @ m1"], rule exI [of _ "put_u16 (of_nat (length m2)) @ m2"], rule exI [of _ a], rule exI [of _ b])
      (use chan hs in simp)
qed

subsection \<open>Receiving arbitrary bytes\<close>

lemma from_slice_length: "from_slice bs = Ok f \<Longrightarrow> FRAME_SIZE \<le> length bs"
  by (rule ccontr) (simp add: from_slice_def)

lemma decrypt_frame_Ok:
  assumes "decrypt_frame S ct t = (Ok f, t')"
  obtains pt where "read_message S ct (length ct) t = (Ok pt, t')" "from_slice pt = Ok f"
proof (cases "read_message S ct (length ct) t")
  case (Pair r t1)
  with assms that show thesis by (cases r) (auto simp: decrypt_frame_def io_then_def io_err_def io_lift_def)
qed

text \<open>The only way to receive a frame: a packet of exactly the size of every other packet is taken from the stream.\<close>

lemma recv_frame_Some:
  assumes "snow_tag S" "recv_frame S s = (Ok (Some f), s')"
  obtains ct where "wf_frame f" "length ct = ENCRYPTED_FRAME_SIZE"
    "incoming (nf_stream s) = put_u16 (of_nat ENCRYPTED_FRAME_SIZE) @ ct @ incoming (nf_stream s')"
    "decrypt_frame S ct (nf_session s) = (Ok f, nf_session s')"
proof -
  let ?in = "incoming (nf_stream s)"
  have two: "2 \<le> length ?in"
    using assms(2) stream_read_u16_short [of "nf_stream s"]
    by (cases "length ?in < 2") (auto simp: recv_frame_def on_stream_def split: if_splits)
  define w :: u16 where "w = of_nat (nat_from_be (take 2 ?in))"
  have split: "?in = put_u16 w @ drop 2 ?in"
    using put_u16_surj [of "take 2 ?in"] two append_take_drop_id [of 2 ?in] by (simp add: w_def)
  note u16 = stream_read_u16_append [OF split]
  define ct where "ct = take (unat w) (drop 2 ?in)"
  have w: "unat w \<le> ENCRYPTED_FRAME_SIZE"
    using assms(2) u16 by (cases "ENCRYPTED_FRAME_SIZE < unat w") (auto simp: recv_frame_def on_stream_def)
  have w': "unat w \<le> length (drop 2 ?in)"
    using assms(2) u16 w
    by (cases "length (drop 2 ?in) < unat w") (auto simp: recv_frame_def on_stream_def Let_def io_then_def io_err_def stream_read_exact_def)
  then have read: "stream_read_exact (unat w) ((nf_stream s)\<lparr>incoming := drop 2 ?in\<rparr>)
      = (Ok ct, (nf_stream s)\<lparr>incoming := drop (unat w) (drop 2 ?in)\<rparr>)"
    by (simp add: stream_read_exact_def ct_def)
  have "recv_frame S s = (case decrypt_frame S ct (nf_session s) of (r, t) \<Rightarrow>
      (map_ok Some r, s\<lparr>nf_stream := (nf_stream s)\<lparr>incoming := drop (unat w) (drop 2 ?in)\<rparr>, nf_session := t\<rparr>))"
    using u16 read w
    by (simp add: recv_frame_def on_stream_def on_session_def Let_def io_then_def io_err_def io_lift_def
        del: drop_drop split: prod.split result.split)
  then have dec: "decrypt_frame S ct (nf_session s) = (Ok f, nf_session s')"
    and rest: "incoming (nf_stream s') = drop (unat w) (drop 2 ?in)"
    using assms(2) by (auto simp del: drop_drop simp: map_ok_Ok_iff split: prod.splits)
  obtain pt where pt: "read_message S ct (length ct) (nf_session s) = (Ok pt, nf_session s')" "from_slice pt = Ok f"
    by (rule decrypt_frame_Ok [OF dec])
  have "FRAME_SIZE \<le> length pt" using from_slice_length [OF pt(2)] .
  moreover have "length ct = length pt + NOISE_TAG_LEN" using assms(1) pt(1) unfolding snow_tag_def by blast
  moreover have "length ct = unat w" using w' by (simp add: ct_def)
  ultimately have len: "length ct = ENCRYPTED_FRAME_SIZE" "unat w = ENCRYPTED_FRAME_SIZE"
    using w by (simp_all add: ENCRYPTED_FRAME_SIZE_def)
  have "w = of_nat ENCRYPTED_FRAME_SIZE" unfolding len(2) [symmetric] by simp
  moreover have "drop 2 ?in = ct @ incoming (nf_stream s')" using rest by (simp add: ct_def del: drop_drop)
  ultimately show thesis using that [of ct] from_slice_wf [OF pt(2)] len(1) split dec by simp
qed

subsection \<open>A cipher for the witnesses\<close>

text \<open>No encryption, but a counter as the tag, so that order and origin are checked.\<close>

definition counting_snow :: "(nat, nat \<times> nat, unit) snow" where
  "counting_snow = \<lparr>
     build_responder = (\<lambda>_ _. Ok 0), build_initiator = (\<lambda>_ _. Ok 0),
     hs_write_message = (\<lambda>h pt cap. Ok (replicate 48 7, h)), hs_read_message = (\<lambda>h msg cap. Ok ([], h)),
     into_transport_mode = (\<lambda>h. Ok (0, 0)),
     write_message = (\<lambda>pt cap (sent, seen). if length pt + 16 \<le> cap
       then (Ok (pt @ replicate 16 (of_nat sent)), (Suc sent, seen)) else (Err (), (sent, seen))),
     read_message = (\<lambda>ct cap (sent, seen).
       if 16 \<le> length ct \<and> length ct - 16 \<le> cap \<and> drop (length ct - 16) ct = replicate 16 (of_nat seen)
       then (Ok (take (length ct - 16) ct), (sent, Suc seen)) else (Err (), (sent, seen)))\<rparr>"

definition counting_chan :: "nat \<Rightarrow> nat \<times> nat \<Rightarrow> nat \<times> nat \<Rightarrow> bool" where
  "counting_chan n a b \<longleftrightarrow> fst a = snd b"

lemma counting_snow_transport: "snow_transport counting_snow counting_chan"
  by (auto simp: snow_transport_def counting_snow_def counting_chan_def frame_sizes split: if_splits)

lemma counting_snow_tag: "snow_tag counting_snow"
  by (auto simp: snow_tag_def counting_snow_def frame_sizes split: if_splits)

lemma counting_snow_nk: "snow_nk counting_snow counting_chan n priv pub"
  by (simp add: snow_nk_def counting_snow_def counting_chan_def)

definition sample_stream :: Stream where
  "sample_stream = \<lparr>incoming = [], ending = UnexpectedEof, outgoing = [], write_fault = None\<rparr>"

definition sample_frames :: "Frame list" where
  "sample_frames = [\<lparr>session_id = replicate 16 1, nonce = replicate 8 2, payload = [3]\<rparr>,
     \<lparr>session_id = replicate 16 4, nonce = replicate 8 5, payload = []\<rparr>]"

lemma sample_frames_wf: "\<forall>f \<in> set sample_frames. wf_frame f"
  by (simp add: sample_frames_def wf_frame_def frame_typed_def frame_sizes)

subsection \<open>Properties\<close>

text \<open>C6: frames cross the encrypted stream in order and unchanged. The writer sends any sequence of well-formed frames
  completely, as packets of 1438 bytes each whatever their payload, and the reader on the other side receives exactly
  these frames in this order and then stands at the end of the packets; when the stream ends there, it reports the end.\<close>

theorem noise_frames_in_order:
  assumes "snow_transport S chan" "chan (n + length fs) (nf_session A) b" "\<forall>f \<in> set fs. wf_frame f" "write_fault (nf_stream A) = None"
  shows "\<exists>wire A' b'. outbound_writer_run S fs A = ([], A')
    \<and> outgoing (nf_stream A') = outgoing (nf_stream A) @ wire \<and> length wire = 1438 * length fs
    \<and> chan n (nf_session A') b'
    \<and> (\<forall>B rest. nf_session B = b \<longrightarrow> incoming (nf_stream B) = wire @ rest \<longrightarrow>
        (\<exists>B'. recv_frames S (length fs) B = (fs, B') \<and> incoming (nf_stream B') = rest \<and> nf_session B' = b'
          \<and> (rest = [] \<and> ending (nf_stream B) = UnexpectedEof \<longrightarrow> fst (recv_frame S B') = Ok None)))"
proof -
  obtain wire A' b' where w: "outbound_writer_run S fs A = ([], A')" "length wire = (2 + ENCRYPTED_FRAME_SIZE) * length fs"
    "nf_stream A' = (nf_stream A)\<lparr>outgoing := outgoing (nf_stream A) @ wire\<rparr>" "chan n (nf_session A') b'"
    "\<And>B rest. nf_session B = b \<Longrightarrow> incoming (nf_stream B) = wire @ rest \<Longrightarrow>
      recv_frames S (length fs) B = (fs, \<lparr>nf_stream = (nf_stream B)\<lparr>incoming := rest\<rparr>, nf_session = b'\<rparr>)"
    using writer_reader [OF assms(1,3,2,4)] by blast
  have "fst (recv_frame S B) = Ok None" if "incoming (nf_stream B) = []" "ending (nf_stream B) = UnexpectedEof" for B
    using stream_read_u16_short [of "nf_stream B"] that by (simp add: recv_frame_def on_stream_def)
  with w show ?thesis
    by (intro exI [of _ wire] exI [of _ A'] exI [of _ b']) (simp add: frame_sizes)
qed

theorem noise_frames_in_order_witness:
  "\<exists>wire A'. outbound_writer_run counting_snow sample_frames \<lparr>nf_stream = sample_stream, nf_session = (0, 0)\<rparr> = ([], A')
    \<and> outgoing (nf_stream A') = wire \<and> length wire = 2876"
  using noise_frames_in_order [OF counting_snow_transport, of 0 sample_frames "\<lparr>nf_stream = sample_stream, nf_session = (0, 0)\<rparr>" "(0, 0)"]
    sample_frames_wf
  by (auto simp: counting_chan_def sample_stream_def sample_frames_def)

text \<open>The two handshakes fit together. The client's first message is what the server expects, the server's answer is
  what the client expects, neither reads a byte beyond the other's message, and the resulting sessions are connected in
  both directions.\<close>

theorem noise_handshake_agrees:
  assumes "snow_nk S chan n priv pub"
  shows "\<exists>m1 m2 a b. chan n a b \<and> chan n b a
    \<and> (\<forall>s rest. write_fault s = None \<longrightarrow> incoming s = m1 @ rest \<longrightarrow>
        server_noise_handshake S priv s = (Ok b, s\<lparr>incoming := rest, outgoing := outgoing s @ m2\<rparr>))
    \<and> (\<forall>c rest. write_fault c = None \<longrightarrow> incoming c = m2 @ rest \<longrightarrow>
        client_noise_handshake S pub c = (Ok a, c\<lparr>incoming := rest, outgoing := outgoing c @ m1\<rparr>))"
  by (rule handshake_agrees [OF assms])

theorem noise_handshake_agrees_witness:
  "\<exists>m1 m2 a b c' s'. counting_chan 9 a b \<and> counting_chan 9 b a
     \<and> server_noise_handshake counting_snow [1] (sample_stream\<lparr>incoming := m1\<rparr>) = (Ok b, s') \<and> outgoing s' = m2
     \<and> client_noise_handshake counting_snow [2] (sample_stream\<lparr>incoming := m2\<rparr>) = (Ok a, c') \<and> outgoing c' = m1"
proof -
  obtain m1 m2 a b where h: "counting_chan 9 a b" "counting_chan 9 b a"
    "\<And>s rest. write_fault s = None \<Longrightarrow> incoming s = m1 @ rest \<Longrightarrow>
        server_noise_handshake counting_snow [1] s = (Ok b, s\<lparr>incoming := rest, outgoing := outgoing s @ m2\<rparr>)"
    "\<And>c rest. write_fault c = None \<Longrightarrow> incoming c = m2 @ rest \<Longrightarrow>
        client_noise_handshake counting_snow [2] c = (Ok a, c\<lparr>incoming := rest, outgoing := outgoing c @ m1\<rparr>)"
    using noise_handshake_agrees [OF counting_snow_nk [of 9 "[1]" "[2]"]] by blast
  show ?thesis
    using h(1,2) h(3) [of "sample_stream\<lparr>incoming := m1\<rparr>" "[]"] h(4) [of "sample_stream\<lparr>incoming := m2\<rparr>" "[]"]
    by (intro exI [of _ m1] exI [of _ m2] exI [of _ a] exI [of _ b]) (simp add: sample_stream_def)
qed

text \<open>C15: what the receiver accepts. Whatever bytes arrive, as long as \<open>snow\<close> does not panic, \<open>recv_frame\<close> does not
  panic, and a frame it returns is well-formed and was a packet of exactly 1438 bytes.\<close>

theorem recv_frame_safe:
  assumes "\<forall>ct cap t. fst (read_message S ct cap t) \<noteq> Panic" "snow_tag S"
  shows "fst (recv_frame S s) \<noteq> Panic \<and> (\<forall>f s'. recv_frame S s = (Ok (Some f), s') \<longrightarrow>
     wf_frame f \<and> length (incoming (nf_stream s)) = 1438 + length (incoming (nf_stream s')))"
proof -
  have "fst (decrypt_frame S ct t) \<noteq> Panic" for ct t
    using assms(1) [rule_format, of ct "length ct" t] from_slice_no_panic
    by (auto simp: decrypt_frame_def io_then_def io_err_def io_lift_def split: prod.splits result.splits)
  then have "fst (recv_frame S s) \<noteq> Panic"
    by (auto simp: recv_frame_def on_stream_def on_session_def Let_def io_then_def io_err_def io_lift_def
        stream_read_exact_def stream_read_u16_def split: prod.splits result.splits if_splits)
      (metis fst_conv)+
  moreover have "wf_frame f \<and> length (incoming (nf_stream s)) = 1438 + length (incoming (nf_stream s'))"
    if "recv_frame S s = (Ok (Some f), s')" for f s'
    by (rule recv_frame_Some [OF assms(2) that]) (simp add: frame_sizes)
  ultimately show ?thesis by blast
qed

theorem recv_frame_safe_witness:
  "fst (recv_frame counting_snow \<lparr>nf_stream = sample_stream\<lparr>incoming := [1, 2, 3]\<rparr>, nf_session = (0, 0)\<rparr>) \<noteq> Panic"
  by (rule conjunct1, rule recv_frame_safe [OF _ counting_snow_tag]) (simp add: counting_snow_def)

text \<open>C32: \<open>recv_frame\<close> is not safe to drop. If a packet is in the stream and nothing after it, the receiver returns its
  frame; but if the network delivers it in two pieces, split anywhere, and \<open>select!\<close> drops the suspended call in between,
  as the session loop of the pipeline listener and the client's network task do whenever a frame to send is ready, then
  no frame is received: the piece already read is gone, and the other is too short for any frame.\<close>

theorem dropped_recv_loses_frame:
  assumes "snow_transport S chan" "snow_tag S" "chan (Suc n) a (nf_session B)" "wf_frame f"
    and "encrypt_frame S f a = (Ok packet, a')" "incoming (nf_stream B) = packet" "0 < k" "k < length packet"
  shows "fst (recv_frame S B) = Ok (Some f) \<and> recv_suspends (take k packet)
    \<and> (\<forall>g. fst (recv_frame S (recv_dropped k B)) \<noteq> Ok (Some g))"
proof -
  obtain ct b' where ct: "packet = put_u16 (of_nat ENCRYPTED_FRAME_SIZE) @ ct" "length ct = ENCRYPTED_FRAME_SIZE"
    "decrypt_frame S ct (nf_session B) = (Ok f, b')"
    by (rule encrypt_decrypt_frame [OF assms(1,3,4)]) (use assms(5) in auto)
  then have ok: "fst (recv_frame S B) = Ok (Some f)"
    using recv_packet [OF ct(3,2), of "[]"] assms(6) by simp
  have len: "length packet = 2 + ENCRYPTED_FRAME_SIZE" using ct by simp
  have "take 2 (take k packet) = put_u16 (of_nat ENCRYPTED_FRAME_SIZE)" if "2 \<le> k" using that ct(1) by (simp add: min_def)
  moreover have "unat (of_nat (nat_from_be (put_u16 w)) :: u16) = unat w" for w :: u16
    using get_u16_put [of w "[]"] by (simp add: get_u16_def)
  ultimately have susp: "recv_suspends (take k packet)"
    using assms(8) len by (auto simp: recv_suspends_def Let_def not_less frame_sizes)
  have "fst (recv_frame S (recv_dropped k B)) \<noteq> Ok (Some g)" for g
  proof
    assume "fst (recv_frame S (recv_dropped k B)) = Ok (Some g)"
    then obtain s' where "recv_frame S (recv_dropped k B) = (Ok (Some g), s')" by (metis prod.collapse)
    then obtain ct' where "length ct' = ENCRYPTED_FRAME_SIZE"
      "incoming (nf_stream (recv_dropped k B)) = put_u16 (of_nat ENCRYPTED_FRAME_SIZE) @ ct' @ incoming (nf_stream s')"
      by (rule recv_frame_Some [OF assms(2)])
    then have "2 + ENCRYPTED_FRAME_SIZE \<le> length (incoming (nf_stream (recv_dropped k B)))" by simp
    then show False using susp len assms(6-8) by (simp add: recv_dropped_def)
  qed
  with ok susp show ?thesis by blast
qed

theorem dropped_recv_loses_frame_witness:
  "\<exists>packet a'. encrypt_frame counting_snow (hd sample_frames) (0, 0) = (Ok packet, a') \<and> 700 < length packet
     \<and> (\<forall>g. fst (recv_frame counting_snow (recv_dropped 700
          \<lparr>nf_stream = sample_stream\<lparr>incoming := packet\<rparr>, nf_session = (0, 0)\<rparr>)) \<noteq> Ok (Some g))"
proof -
  have f: "wf_frame (hd sample_frames)" using sample_frames_wf by (simp add: sample_frames_def)
  have chan: "counting_chan (Suc 0) (0, 0) (0, 0)" by (simp add: counting_chan_def)
  obtain ct a' b' where ct: "encrypt_frame counting_snow (hd sample_frames) (0, 0) = (Ok (put_u16 (of_nat ENCRYPTED_FRAME_SIZE) @ ct), a')"
    "length ct = ENCRYPTED_FRAME_SIZE"
    by (rule encrypt_decrypt_frame [OF counting_snow_transport chan f])
  then show ?thesis
    using dropped_recv_loses_frame [OF counting_snow_transport counting_snow_tag _ f,
        of 0 "(0, 0)"
          "\<lparr>nf_stream = sample_stream\<lparr>incoming := put_u16 (of_nat ENCRYPTED_FRAME_SIZE) @ ct\<rparr>, nf_session = (0, 0)\<rparr>"
          "put_u16 (of_nat ENCRYPTED_FRAME_SIZE) @ ct" a' 700] chan
    by (simp add: frame_sizes)
qed

end
