(* ===== verification/Server_Managers.thy ===== *)
theory Server_Managers
  imports Frame
begin

section \<open>Connection and session managers\<close>

text \<open>
  \<open>src/server/connections/\<close> and \<open>src/server/sessions/\<close>: the maps behind \<open>ConnectionManager\<close> and \<open>SessionManager\<close>.
  Every method takes the lock once, so each is one atomic function on the inner state. Socket addresses (\<open>'addr\<close>) and
  channel handles (\<open>'tx\<close>) are opaque; an \<open>Instant\<close> is a number that the environment supplies. The static counter
  of \<open>ConnectionId::next\<close> is passed along. The lemmas show that the indices never lead to a connection that is gone,
  that a frame for a peer goes to the connection bound last, and that unregistering leaves no trace of a connection.
\<close>

subsection \<open>Connections\<close>

definition connection_id_next :: "u64 \<Rightarrow> u64 \<times> u64" where
  "connection_id_next counter = (counter, counter + 1)"

definition connection_id_display :: "u64 \<Rightarrow> bytes" where
  "connection_id_display c = lit ''conn#'' @ decimal (unat c)"

record ('addr, 'tx) Connection =
  cn_id :: u64
  cn_peer_addr :: 'addr
  cn_connected_at :: nat
  cn_outbound_tx :: 'tx

definition connection_new :: "u64 \<Rightarrow> 'addr \<Rightarrow> nat \<Rightarrow> 'tx \<Rightarrow> ('addr, 'tx) Connection" where
  "connection_new c addr now tx = \<lparr>cn_id = c, cn_peer_addr = addr, cn_connected_at = now, cn_outbound_tx = tx\<rparr>"

record ('addr, 'tx) ConnectionManagerInner =
  connections :: "u64 \<rightharpoonup> ('addr, 'tx) Connection"
  session_to_conn :: "bytes \<rightharpoonup> u64"
  peer_to_conn :: "bytes \<rightharpoonup> u64"

definition connection_manager_new :: "('addr, 'tx) ConnectionManagerInner" where
  "connection_manager_new = \<lparr>connections = Map.empty, session_to_conn = Map.empty, peer_to_conn = Map.empty\<rparr>"

definition register ::
    "'addr \<Rightarrow> 'tx \<Rightarrow> nat \<Rightarrow> u64 \<Rightarrow> ('addr, 'tx) ConnectionManagerInner \<Rightarrow> u64 \<times> u64 \<times> ('addr, 'tx) ConnectionManagerInner" where
  "register addr tx now counter cm =
     (let (conn, counter') = connection_id_next counter in
      (conn, counter', cm\<lparr>connections := (connections cm)(conn \<mapsto> connection_new conn addr now tx)\<rparr>))"

text \<open>\<open>HashMap::retain(|_, v| *v != c)\<close>.\<close>

definition retain_ne :: "u64 \<Rightarrow> (bytes \<rightharpoonup> u64) \<Rightarrow> bytes \<rightharpoonup> u64" where
  "retain_ne c mp = (\<lambda>k. case mp k of Some v \<Rightarrow> if v \<noteq> c then Some v else None | None \<Rightarrow> None)"

definition unregister :: "u64 \<Rightarrow> ('addr, 'tx) ConnectionManagerInner \<Rightarrow> ('addr, 'tx) ConnectionManagerInner" where
  "unregister conn cm = cm\<lparr>connections := (connections cm)(conn := None),
     session_to_conn := retain_ne conn (session_to_conn cm), peer_to_conn := retain_ne conn (peer_to_conn cm)\<rparr>"

definition bind_session ::
    "u64 \<Rightarrow> bytes \<Rightarrow> bytes option \<Rightarrow> ('addr, 'tx) ConnectionManagerInner \<Rightarrow> ('addr, 'tx) ConnectionManagerInner" where
  "bind_session conn sid peer cm =
     (let cm1 = cm\<lparr>session_to_conn := (session_to_conn cm)(sid \<mapsto> conn)\<rparr> in
      case peer of Some pid \<Rightarrow> cm1\<lparr>peer_to_conn := (peer_to_conn cm1)(pid \<mapsto> conn)\<rparr> | None \<Rightarrow> cm1)"

text \<open>The value of a successful send is the channel the frame went to; \<open>chan_open\<close> tells which channels still have a
  receiver, as \<open>Sender::send\<close> reports it.\<close>

definition send_to_connection ::
    "('tx \<Rightarrow> bool) \<Rightarrow> ('addr, 'tx) ConnectionManagerInner \<Rightarrow> u64 \<Rightarrow> Frame \<Rightarrow> (RoutingError, 'tx \<times> Frame) result" where
  "send_to_connection chan_open cm conn frame =
     (case connections cm conn of
        None \<Rightarrow> Err (DestinationNotFound (connection_id_display conn))
      | Some c \<Rightarrow> if chan_open (cn_outbound_tx c) then Ok (cn_outbound_tx c, frame) else Err ChannelClosed)"

definition send_to_peer ::
    "('tx \<Rightarrow> bool) \<Rightarrow> ('addr, 'tx) ConnectionManagerInner \<Rightarrow> bytes \<Rightarrow> Frame \<Rightarrow> (RoutingError, 'tx \<times> Frame) result" where
  "send_to_peer chan_open cm peer frame =
     (case peer_to_conn cm peer of
        None \<Rightarrow> Err (DestinationNotFound (hex_encode peer))
      | Some conn \<Rightarrow> send_to_connection chan_open cm conn frame)"

definition active_connections :: "('addr, 'tx) ConnectionManagerInner \<Rightarrow> nat" where
  "active_connections cm = card (dom (connections cm))"

subsection \<open>Sessions\<close>

record Session =
  sn_session_id :: bytes
  sn_peer_id :: "bytes option"
  authenticated_at :: nat
  last_seen :: nat

definition session_new :: "bytes \<Rightarrow> bytes option \<Rightarrow> nat \<Rightarrow> Session" where
  "session_new sid peer now = \<lparr>sn_session_id = sid, sn_peer_id = peer, authenticated_at = now, last_seen = now\<rparr>"

definition touch :: "nat \<Rightarrow> Session \<Rightarrow> Session" where
  "touch now s = s\<lparr>last_seen := now\<rparr>"

type_synonym SessionMap = "bytes \<rightharpoonup> Session"

definition create_session :: "bytes \<Rightarrow> bytes option \<Rightarrow> nat \<Rightarrow> SessionMap \<Rightarrow> Session \<times> SessionMap" where
  "create_session sid peer now sm = (let s = session_new sid peer now in (s, sm(sid \<mapsto> s)))"

definition touch_session :: "bytes \<Rightarrow> nat \<Rightarrow> SessionMap \<Rightarrow> Session option \<times> SessionMap" where
  "touch_session sid now sm =
     (case sm sid of Some s \<Rightarrow> (Some (touch now s), sm(sid \<mapsto> touch now s)) | None \<Rightarrow> (None, sm))"

definition remove_session :: "bytes \<Rightarrow> SessionMap \<Rightarrow> Session option \<times> SessionMap" where
  "remove_session sid sm = (sm sid, sm(sid := None))"

definition session_count :: "SessionMap \<Rightarrow> nat" where
  "session_count sm = card (dom sm)"

subsection \<open>Invariants of the connection manager\<close>

text \<open>Connections are filed under their own id, and the indices lead only to live connections.\<close>

definition cm_inv :: "('addr, 'tx) ConnectionManagerInner \<Rightarrow> bool" where
  "cm_inv cm \<longleftrightarrow> finite (dom (connections cm)) \<and> (\<forall>c v. connections cm c = Some v \<longrightarrow> cn_id v = c)
     \<and> ran (session_to_conn cm) \<subseteq> dom (connections cm) \<and> ran (peer_to_conn cm) \<subseteq> dom (connections cm)"

lemma ran_retain_ne: "ran (retain_ne c mp) = ran mp - {c}"
  by (auto simp: ran_def retain_ne_def split: option.splits)

lemma retain_ne_apply: "retain_ne c mp k = Some v \<longleftrightarrow> mp k = Some v \<and> v \<noteq> c"
  by (auto simp: retain_ne_def split: option.splits)

lemma cm_inv_new: "cm_inv connection_manager_new"
  by (simp add: cm_inv_def connection_manager_new_def)

lemma cm_inv_register: "cm_inv cm \<Longrightarrow> cm_inv (snd (snd (register addr tx now counter cm)))"
  by (auto simp: cm_inv_def register_def connection_id_next_def connection_new_def split: if_splits)

lemma cm_inv_unregister: "cm_inv cm \<Longrightarrow> cm_inv (unregister conn cm)"
  by (auto simp: cm_inv_def unregister_def ran_retain_ne)

lemma ran_upd_subset: "ran mp \<subseteq> A \<Longrightarrow> v \<in> A \<Longrightarrow> ran (mp(k \<mapsto> v)) \<subseteq> A"
  by (auto simp: ran_def split: if_splits)

lemma cm_inv_bind: "cm_inv cm \<Longrightarrow> conn \<in> dom (connections cm) \<Longrightarrow> cm_inv (bind_session conn sid peer cm)"
  by (simp add: cm_inv_def bind_session_def Let_def ran_upd_subset split: option.split)

text \<open>The life of the manager: any sequence of its operations, where sessions are bound to live connections.\<close>

datatype ('addr, 'tx) cm_op = OpRegister 'addr 'tx nat | OpUnregister u64 | OpBind u64 bytes "bytes option"

fun cm_apply :: "('addr, 'tx) cm_op \<Rightarrow> u64 \<times> ('addr, 'tx) ConnectionManagerInner \<Rightarrow> u64 \<times> ('addr, 'tx) ConnectionManagerInner" where
  "cm_apply (OpRegister addr tx now) (counter, cm) = snd (register addr tx now counter cm)"
| "cm_apply (OpUnregister conn) (counter, cm) = (counter, unregister conn cm)"
| "cm_apply (OpBind conn sid peer) (counter, cm) =
     (counter, if conn \<in> dom (connections cm) then bind_session conn sid peer cm else cm)"

definition cm_run :: "('addr, 'tx) cm_op list \<Rightarrow> u64 \<times> ('addr, 'tx) ConnectionManagerInner" where
  "cm_run ops = fold cm_apply ops (1, connection_manager_new)"

lemma cm_apply_inv: "cm_inv (snd st) \<Longrightarrow> cm_inv (snd (cm_apply op st))"
  by (cases "(op, st)" rule: cm_apply.cases)
    (auto simp: cm_inv_bind cm_inv_unregister cm_inv_register)

lemma cm_run_inv: "cm_inv (snd (cm_run ops))"
proof -
  have "cm_inv (snd st) \<Longrightarrow> cm_inv (snd (fold cm_apply ops st))" for st :: "u64 \<times> ('a, 'b) ConnectionManagerInner"
    by (induction ops arbitrary: st) (simp_all del: split_paired_All add: cm_apply_inv)
  then show ?thesis by (simp add: cm_run_def cm_inv_new)
qed

lemma send_to_peer_live:
  assumes "cm_inv cm" "peer_to_conn cm peer = Some conn"
  obtains c where "connections cm conn = Some c"
    "send_to_peer chan_open cm peer f = (if chan_open (cn_outbound_tx c) then Ok (cn_outbound_tx c, f) else Err ChannelClosed)"
proof -
  have "conn \<in> dom (connections cm)" using assms by (auto simp: cm_inv_def ran_def)
  then obtain c where "connections cm conn = Some c" by auto
  with that assms(2) show ?thesis by (simp add: send_to_peer_def send_to_connection_def)
qed

subsection \<open>Properties\<close>

text \<open>After any sequence of registrations, bindings to live connections and removals, the managers' indices are
  sound: a peer that is bound leads to a live connection, so sending to it either reaches that connection's channel or
  reports that the channel is closed, never a missing connection; and removing a connection leaves neither the
  connection nor any session or peer that leads to it, and touches no other binding.\<close>

theorem connection_manager_sound:
  fixes ops :: "('addr, 'tx) cm_op list" and chan_open :: "'tx \<Rightarrow> bool"
  defines "cm \<equiv> snd (cm_run ops)"
  shows "(peer_to_conn cm peer = Some conn \<longrightarrow> (\<exists>c. connections cm conn = Some c \<and> cn_id c = conn
        \<and> send_to_peer chan_open cm peer f
           = (if chan_open (cn_outbound_tx c) then Ok (cn_outbound_tx c, f) else Err ChannelClosed)))
    \<and> connections (unregister conn cm) conn = None
    \<and> (\<forall>peer'. peer_to_conn (unregister conn cm) peer' = (if peer_to_conn cm peer' = Some conn then None else peer_to_conn cm peer'))
    \<and> (\<forall>sid. session_to_conn (unregister conn cm) sid = (if session_to_conn cm sid = Some conn then None else session_to_conn cm sid))"
proof -
  have inv: "cm_inv cm" unfolding cm_def by (rule cm_run_inv)
  have "peer_to_conn cm peer = Some conn \<longrightarrow> (\<exists>c. connections cm conn = Some c \<and> cn_id c = conn
        \<and> send_to_peer chan_open cm peer f
           = (if chan_open (cn_outbound_tx c) then Ok (cn_outbound_tx c, f) else Err ChannelClosed))"
    using inv by (auto elim!: send_to_peer_live [OF inv, where chan_open = chan_open and f = f] simp: cm_inv_def)
  moreover have "retain_ne conn mp k = (if mp k = Some conn then None else mp k)" for mp k
    by (simp add: retain_ne_def split: option.split)
  ultimately show ?thesis by (simp add: unregister_def)
qed

definition sample_cm_ops :: "(unit, nat) cm_op list" where
  "sample_cm_ops = [OpRegister () 7 0, OpBind 1 (replicate 16 1) (Some (replicate 32 2))]"

theorem connection_manager_sound_witness:
  "\<exists>c. connections (snd (cm_run sample_cm_ops)) 1 = Some c \<and> cn_id c = 1"
proof -
  have "peer_to_conn (snd (cm_run sample_cm_ops)) (replicate 32 2) = Some 1"
    by (simp add: cm_run_def sample_cm_ops_def register_def connection_id_next_def connection_manager_new_def bind_session_def)
  with connection_manager_sound [of sample_cm_ops "replicate 32 2" 1] show ?thesis by fast
qed

end
