(* ===== verification/Envelope.thy ===== *)
theory Envelope
  imports Frame
begin

section \<open>Message envelopes\<close>

text \<open>
  \<open>src/protocol/versioning/mod.rs\<close>, \<open>src/protocol/envelope.rs\<close> and \<open>src/protocol/validation/mod.rs\<close>: the
  protocol version, the message-type opcodes with their direction predicates, the 30-byte envelope header with
  its encoder and decoder, and the validation of a received envelope. The lemmas show that opcodes are a
  bijection with their bytes, that the direction predicates partition the opcodes, that the envelope codec
  round-trips and rejects everything else without a panic, and that an encoded envelope fits into one frame.
\<close>

subsection \<open>Versions and opcodes\<close>

datatype ProtocolVersion = V1

definition CURRENT :: ProtocolVersion where "CURRENT = V1"

definition version_from_u8 :: "u8 \<Rightarrow> (ProtocolError, ProtocolVersion) result" where
  "version_from_u8 v = (if v = 1 then Ok V1 else Err (UnsupportedVersion 1 v))"

fun version_to_u8 :: "ProtocolVersion \<Rightarrow> u8" where
  "version_to_u8 V1 = 1"

datatype MessageType =
    AuthRequest | ConnectRequest | DisconnectRequest | SendMessage | Ack | Heartbeat | KeyExchange
  | RelayRequest | RawEcho
  | AuthResponse | ConnectionAccepted | ConnectionRejected | HeartbeatResponse | ErrorResponse
  | SendMessageResponse | RawEchoResponse
  | IncomingMessageEvent | DeliveryStatusEvent | PeerEvent | RelayEvent

definition message_type_from_u8 :: "u8 \<Rightarrow> (ProtocolError, MessageType) result" where
  "message_type_from_u8 val =
     (if val = 0x01 then Ok AuthRequest
      else if val = 0x02 then Ok ConnectRequest
      else if val = 0x03 then Ok DisconnectRequest
      else if val = 0x04 then Ok SendMessage
      else if val = 0x05 then Ok Ack
      else if val = 0x06 then Ok Heartbeat
      else if val = 0x07 then Ok KeyExchange
      else if val = 0x08 then Ok RelayRequest
      else if val = 0x0F then Ok RawEcho
      else if val = 0x81 then Ok AuthResponse
      else if val = 0x82 then Ok ConnectionAccepted
      else if val = 0x83 then Ok ConnectionRejected
      else if val = 0x84 then Ok HeartbeatResponse
      else if val = 0x85 then Ok ErrorResponse
      else if val = 0x86 then Ok SendMessageResponse
      else if val = 0x8F then Ok RawEchoResponse
      else if val = 0x90 then Ok IncomingMessageEvent
      else if val = 0x91 then Ok DeliveryStatusEvent
      else if val = 0x92 then Ok PeerEvent
      else if val = 0x93 then Ok RelayEvent
      else Err (UnknownMessageType val))"

fun message_type_to_u8 :: "MessageType \<Rightarrow> u8" where
  "message_type_to_u8 AuthRequest = 0x01"
| "message_type_to_u8 ConnectRequest = 0x02"
| "message_type_to_u8 DisconnectRequest = 0x03"
| "message_type_to_u8 SendMessage = 0x04"
| "message_type_to_u8 Ack = 0x05"
| "message_type_to_u8 Heartbeat = 0x06"
| "message_type_to_u8 KeyExchange = 0x07"
| "message_type_to_u8 RelayRequest = 0x08"
| "message_type_to_u8 RawEcho = 0x0F"
| "message_type_to_u8 AuthResponse = 0x81"
| "message_type_to_u8 ConnectionAccepted = 0x82"
| "message_type_to_u8 ConnectionRejected = 0x83"
| "message_type_to_u8 HeartbeatResponse = 0x84"
| "message_type_to_u8 ErrorResponse = 0x85"
| "message_type_to_u8 SendMessageResponse = 0x86"
| "message_type_to_u8 RawEchoResponse = 0x8F"
| "message_type_to_u8 IncomingMessageEvent = 0x90"
| "message_type_to_u8 DeliveryStatusEvent = 0x91"
| "message_type_to_u8 PeerEvent = 0x92"
| "message_type_to_u8 RelayEvent = 0x93"

definition is_client_to_server :: "MessageType \<Rightarrow> bool" where
  "is_client_to_server t \<longleftrightarrow> message_type_to_u8 t AND 0x80 = 0"

definition is_server_to_client :: "MessageType \<Rightarrow> bool" where
  "is_server_to_client t \<longleftrightarrow> message_type_to_u8 t AND 0x80 \<noteq> 0"

definition is_response :: "MessageType \<Rightarrow> bool" where
  "is_response t = (let v = message_type_to_u8 t in 0x80 \<le> v \<and> v \<le> 0x8F)"

definition is_event :: "MessageType \<Rightarrow> bool" where
  "is_event t = (let v = message_type_to_u8 t in 0x90 \<le> v \<and> v \<le> 0x9F)"

subsection \<open>The envelope\<close>

definition ENVELOPE_HEADER_SIZE :: nat where [frame_sizes]: "ENVELOPE_HEADER_SIZE = 30"

definition MAX_ENVELOPE_PAYLOAD_SIZE :: nat where
  [frame_sizes]: "MAX_ENVELOPE_PAYLOAD_SIZE = MAX_PAYLOAD_SIZE - ENVELOPE_HEADER_SIZE"

record MessageEnvelope =
  version :: ProtocolVersion
  message_type :: MessageType
  flags :: u16
  message_id :: u64
  correlation_id :: u64
  timestamp :: u64
  env_payload :: bytes

definition envelope_new ::
    "MessageType \<Rightarrow> u64 \<Rightarrow> u64 \<Rightarrow> u64 \<Rightarrow> bytes \<Rightarrow> (ProtocolError, MessageEnvelope) result" where
  "envelope_new mt mid cid ts p =
     (if length p > MAX_ENVELOPE_PAYLOAD_SIZE
      then Err (PayloadTooLarge (length p) MAX_ENVELOPE_PAYLOAD_SIZE)
      else Ok \<lparr>version = CURRENT, message_type = mt, flags = 0, message_id = mid,
               correlation_id = cid, timestamp = ts, env_payload = p\<rparr>)"

definition with_flags :: "u16 \<Rightarrow> MessageEnvelope \<Rightarrow> MessageEnvelope" where
  "with_flags fl e = e\<lparr>flags := fl\<rparr>"

definition envelope_encode :: "MessageEnvelope \<Rightarrow> bytes \<Rightarrow> (ProtocolError, bytes) result" where
  "envelope_encode e dst =
     (if length (env_payload e) > MAX_ENVELOPE_PAYLOAD_SIZE
      then Err (PayloadTooLarge (length (env_payload e)) MAX_ENVELOPE_PAYLOAD_SIZE)
      else Ok (dst @ put_u8 (version_to_u8 (version e)) @ put_u8 (message_type_to_u8 (message_type e))
        @ put_u16 (flags e) @ put_u64 (message_id e) @ put_u64 (correlation_id e) @ put_u64 (timestamp e)
        @ put_u16 (of_nat (length (env_payload e))) @ env_payload e))"

definition to_bytes :: "MessageEnvelope \<Rightarrow> (ProtocolError, bytes) result" where
  "to_bytes e = envelope_encode e []"

definition envelope_decode :: "bytes \<Rightarrow> (ProtocolError, MessageEnvelope) result" where
  "envelope_decode src =
     (if length src < ENVELOPE_HEADER_SIZE then Err (FrameTooShort ENVELOPE_HEADER_SIZE (length src))
      else
        and_then (get_u8 src) (\<lambda>(version_raw, buf).
        and_then (version_from_u8 version_raw) (\<lambda>v.
        and_then (get_u8 buf) (\<lambda>(type_raw, buf).
        and_then (message_type_from_u8 type_raw) (\<lambda>mt.
        and_then (get_u16 buf) (\<lambda>(fl, buf).
        and_then (get_u64 buf) (\<lambda>(mid, buf).
        and_then (get_u64 buf) (\<lambda>(cid, buf).
        and_then (get_u64 buf) (\<lambda>(ts, buf).
        and_then (get_u16 buf) (\<lambda>(len, buf).
          let payload_len = unat len in
          if payload_len > MAX_ENVELOPE_PAYLOAD_SIZE
          then Err (PayloadTooLarge payload_len MAX_ENVELOPE_PAYLOAD_SIZE)
          else if length buf < payload_len then Err (FrameTooShort payload_len (length buf))
          else and_then (slice_to payload_len buf) (\<lambda>p.
            Ok \<lparr>version = v, message_type = mt, flags = fl, message_id = mid,
                correlation_id = cid, timestamp = ts, env_payload = p\<rparr>)))))))))))"

definition wf_envelope :: "MessageEnvelope \<Rightarrow> bool" where
  "wf_envelope e \<longleftrightarrow> length (env_payload e) \<le> MAX_ENVELOPE_PAYLOAD_SIZE"

subsection \<open>Validation\<close>

definition validate :: "MessageEnvelope \<Rightarrow> (ValidationError, unit) result" where
  "validate e =
     (if is_response (message_type e) \<and> correlation_id e = 0 then Err MissingCorrelationId else Ok ())"

definition abs_diff :: "u64 \<Rightarrow> u64 \<Rightarrow> u64" where
  "abs_diff a b = (if a < b then b - a else a - b)"

definition validate_timestamp :: "u64 \<Rightarrow> u64 \<Rightarrow> u64 \<Rightarrow> (ValidationError, unit) result" where
  "validate_timestamp ts now max_skew_secs =
     (if abs_diff ts now > max_skew_secs then Err (TimestampSkew ts now) else Ok ())"

subsection \<open>Opcodes\<close>

lemma message_type_from_to: "message_type_from_u8 (message_type_to_u8 t) = Ok t"
  by (cases t) (simp_all add: message_type_from_u8_def)

lemma message_type_from_Ok: "message_type_from_u8 v = Ok t \<Longrightarrow> message_type_to_u8 t = v"
  by (auto simp: message_type_from_u8_def split: if_splits)

lemma message_type_from_Err: "message_type_from_u8 v = Err err \<Longrightarrow> err = UnknownMessageType v"
  by (auto simp: message_type_from_u8_def split: if_splits)

lemma version_from_to: "version_from_u8 (version_to_u8 v) = Ok v"
  by (cases v) (simp add: version_from_u8_def)

lemma version_from_Ok: "version_from_u8 v = Ok w \<Longrightarrow> version_to_u8 w = v"
  by (cases w) (auto simp: version_from_u8_def split: if_splits)

lemmas opcode_no_panic = message_type_from_u8_def version_from_u8_def

lemma opcode_not_Panic [simp]: "message_type_from_u8 v \<noteq> Panic" "version_from_u8 v \<noteq> Panic"
  by (simp_all add: opcode_no_panic)

lemmas direction_defs = is_client_to_server_def is_server_to_client_def is_response_def is_event_def Let_def

lemma server_message_kind: "is_server_to_client t \<longleftrightarrow> is_response t \<or> is_event t"
  by (cases t) (simp_all add: direction_defs word_le_nat_alt)

lemma response_not_event: "is_response t \<Longrightarrow> \<not> is_event t"
  by (cases t) (simp_all add: direction_defs word_le_nat_alt)

subsection \<open>Envelope codec\<close>

lemma to_bytes_Ok:
  "wf_envelope e \<Longrightarrow> to_bytes e = Ok (put_u8 (version_to_u8 (version e))
     @ put_u8 (message_type_to_u8 (message_type e)) @ put_u16 (flags e) @ put_u64 (message_id e)
     @ put_u64 (correlation_id e) @ put_u64 (timestamp e) @ put_u16 (of_nat (length (env_payload e)))
     @ env_payload e)"
  by (simp add: to_bytes_def envelope_encode_def wf_envelope_def)

lemma to_bytes_length:
  "to_bytes e = Ok bs \<Longrightarrow> length bs = ENVELOPE_HEADER_SIZE + length (env_payload e)"
  by (auto simp: to_bytes_def envelope_encode_def ENVELOPE_HEADER_SIZE_def split: if_splits)

lemma to_bytes_wf: "to_bytes e = Ok bs \<Longrightarrow> wf_envelope e"
  by (auto simp: to_bytes_def envelope_encode_def wf_envelope_def split: if_splits)

lemma to_bytes_no_panic: "to_bytes e \<noteq> Panic"
  by (simp add: to_bytes_def envelope_encode_def)

lemma envelope_decode_encode:
  assumes "wf_envelope e"
  shows "envelope_decode (put_u8 (version_to_u8 (version e)) @ put_u8 (message_type_to_u8 (message_type e))
     @ put_u16 (flags e) @ put_u64 (message_id e) @ put_u64 (correlation_id e) @ put_u64 (timestamp e)
     @ put_u16 (of_nat (length (env_payload e))) @ env_payload e @ tail) = Ok e"
proof -
  have "length (env_payload e) < 65536" using assms by (simp add: wf_envelope_def frame_sizes)
  then show ?thesis
    using assms
    by (simp add: envelope_decode_def ENVELOPE_HEADER_SIZE_def buf_simps version_from_to message_type_from_to
        wf_envelope_def)
qed

lemma envelope_decode_no_panic: "envelope_decode bs \<noteq> Panic"
  by (auto simp: envelope_decode_def ENVELOPE_HEADER_SIZE_def result_simps Let_def and_then_Panic_iff)

lemma envelope_decode_wf: "envelope_decode bs = Ok e \<Longrightarrow> wf_envelope e"
  by (auto simp: envelope_decode_def and_then_Ok_iff wf_envelope_def slice_to_def Let_def split: if_splits)

interpretation envelope_codec: total_codec to_bytes envelope_decode wf_envelope
proof unfold_locales
  fix e :: MessageEnvelope and bs
  assume e: "wf_envelope e"
  then show "\<exists>bs. to_bytes e = Ok bs" by (simp add: to_bytes_Ok)
  assume "to_bytes e = Ok bs"
  with e show "envelope_decode bs = Ok e" using envelope_decode_encode [of e "[]"] by (simp add: to_bytes_Ok)
qed (rule envelope_decode_no_panic, rule envelope_decode_wf)

lemma envelope_decode_inv:
  assumes "envelope_decode bs = Ok e"
  shows "\<exists>cs tail. to_bytes e = Ok cs \<and> bs = cs @ tail"
proof -
  have "\<exists>tail. bs = put_u8 (version_to_u8 (version e)) @ put_u8 (message_type_to_u8 (message_type e))
     @ put_u16 (flags e) @ put_u64 (message_id e) @ put_u64 (correlation_id e) @ put_u64 (timestamp e)
     @ put_u16 (of_nat (length (env_payload e))) @ env_payload e @ tail"
    using assms
    by (auto simp: envelope_decode_def and_then_Ok_iff Let_def split: if_splits
        dest!: get_inv slice_to_inv message_type_from_Ok version_from_Ok)
  then show ?thesis using to_bytes_Ok [OF envelope_decode_wf [OF assms]] by auto
qed

subsection \<open>Properties\<close>

text \<open>A well-formed envelope encodes to its 30-byte header and payload, fits into the payload of one frame,
  and decodes to itself whatever follows it.\<close>

theorem envelope_roundtrip:
  assumes "wf_envelope e"
  shows "\<exists>bs. to_bytes e = Ok bs \<and> length bs = ENVELOPE_HEADER_SIZE + length (env_payload e)
    \<and> length bs \<le> MAX_PAYLOAD_SIZE \<and> envelope_decode (bs @ tail) = Ok e"
  using assms envelope_decode_encode [OF assms, of tail] to_bytes_Ok [OF assms]
  by (simp add: wf_envelope_def frame_sizes)

theorem envelope_roundtrip_witness:
  "\<exists>bs. to_bytes \<lparr>version = V1, message_type = SendMessage, flags = 0, message_id = 42, correlation_id = 0,
      timestamp = 1710000000, env_payload = [1, 2]\<rparr> = Ok bs \<and> length bs = 32"
  using envelope_roundtrip [of "\<lparr>version = V1, message_type = SendMessage, flags = 0, message_id = 42,
      correlation_id = 0, timestamp = 1710000000, env_payload = [1, 2]\<rparr>" "[]"]
  by (auto simp: wf_envelope_def frame_sizes)

text \<open>C20: the decoder never panics and accepts exactly the byte strings that start with the encoding of a
  well-formed envelope, which is the envelope it returns; bytes after it are ignored.\<close>

theorem envelope_decode_exact:
  "envelope_decode bs \<noteq> Panic
   \<and> (envelope_decode bs = Ok e \<longleftrightarrow> wf_envelope e \<and> (\<exists>cs tail. to_bytes e = Ok cs \<and> bs = cs @ tail))"
  using envelope_decode_no_panic [of bs] envelope_decode_wf [of bs e] envelope_decode_inv [of bs e]
    envelope_decode_encode [of e] to_bytes_Ok [of e]
  by auto

text \<open>Every opcode is decoded from exactly its own byte, unknown bytes are reported back, and the direction
  bit splits the opcodes into client requests and server messages, the latter into responses and events.\<close>

theorem opcode_bijection:
  "(message_type_from_u8 v = Ok t \<longleftrightarrow> message_type_to_u8 t = v)
   \<and> message_type_from_u8 v \<noteq> Panic
   \<and> (message_type_from_u8 v = Err err \<longrightarrow> err = UnknownMessageType v)
   \<and> (is_client_to_server t \<longleftrightarrow> \<not> is_server_to_client t)
   \<and> (is_server_to_client t \<longleftrightarrow> is_response t \<or> is_event t) \<and> \<not> (is_response t \<and> is_event t)"
proof (intro conjI)
  show "message_type_from_u8 v = Ok t \<longleftrightarrow> message_type_to_u8 t = v"
    using message_type_from_Ok [of v t] message_type_from_to [of t] by metis
  show "message_type_from_u8 v = Err err \<longrightarrow> err = UnknownMessageType v"
    using message_type_from_Err [of v err] by blast
  show "is_client_to_server t \<longleftrightarrow> \<not> is_server_to_client t" by (simp add: direction_defs)
qed (use server_message_kind [of t] response_not_event [of t] in simp_all)

theorem opcode_bijection_witness:
  "message_type_from_u8 0x93 = Ok RelayEvent \<and> is_server_to_client RelayEvent
   \<and> message_type_from_u8 0x10 = Err (UnknownMessageType 0x10)"
  using opcode_bijection [of "0x93" RelayEvent] opcode_bijection [of "0x10" RelayEvent]
  by (auto simp: message_type_from_u8_def direction_defs)

text \<open>The timestamp check accepts exactly the timestamps at most \<open>max_skew_secs\<close> away from now, without
  wrap-around at either end of the 64-bit range.\<close>

theorem validate_timestamp_window:
  "validate_timestamp ts now skew =
    (if unat ts \<le> unat now + unat skew \<and> unat now \<le> unat ts + unat skew then Ok () else Err (TimestampSkew ts now))"
  by (auto simp: validate_timestamp_def abs_diff_def word_less_nat_alt unat_sub word_le_nat_alt)

end
