(* ===== verification/Messages.thy ===== *)
theory Messages
  imports Envelope
begin

section \<open>Typed messages\<close>

text \<open>
  \<open>src/protocol/messages/client_to_server/mod.rs\<close>, \<open>src/protocol/messages/server_to_client/mod.rs\<close> and
  \<open>src/protocol/codec/mod.rs\<close>: the client and server messages, their payload encodings and the
  \<open>EnvelopeCodec\<close> that wraps them in envelopes. \<open>wf_c2s\<close> and \<open>wf_s2c\<close> are the Rust types of the fields (array
  lengths, UTF-8 strings) plus the 16-bit bound on length-prefixed fields, below which \<open>as u16\<close> loses nothing.
  The lemmas show that decoding a payload never panics and yields well-typed messages of the requested type, that
  messages round-trip alone and through the envelope, and that each decoder refuses the other direction's opcodes.
\<close>

subsection \<open>Client to server\<close>

datatype ClientToServerMessage =
    C2S_AuthRequest (c2s_token: bytes) (client_version: u32)
  | C2S_ConnectRequest (peer_id: bytes)
  | C2S_DisconnectRequest (reason_code: u32)
  | C2S_SendMessage (recipient_id: bytes) (c2s_data: bytes)
  | C2S_Ack (acknowledged_message_id: u64)
  | C2S_Heartbeat (sequence: u64)
  | C2S_KeyExchange (ephemeral_pubkey: bytes)
  | C2S_RelayRequest (target_peer_id: bytes)
  | C2S_RawEcho (echo_payload: bytes)

fun c2s_message_type :: "ClientToServerMessage \<Rightarrow> MessageType" where
  "c2s_message_type (C2S_AuthRequest _ _) = AuthRequest"
| "c2s_message_type (C2S_ConnectRequest _) = ConnectRequest"
| "c2s_message_type (C2S_DisconnectRequest _) = DisconnectRequest"
| "c2s_message_type (C2S_SendMessage _ _) = SendMessage"
| "c2s_message_type (C2S_Ack _) = Ack"
| "c2s_message_type (C2S_Heartbeat _) = Heartbeat"
| "c2s_message_type (C2S_KeyExchange _) = KeyExchange"
| "c2s_message_type (C2S_RelayRequest _) = RelayRequest"
| "c2s_message_type (C2S_RawEcho _) = RawEcho"

fun c2s_encode :: "ClientToServerMessage \<Rightarrow> bytes" where
  "c2s_encode (C2S_AuthRequest tok ver) = put_u16 (of_nat (length tok)) @ tok @ put_u32 ver"
| "c2s_encode (C2S_ConnectRequest p) = p"
| "c2s_encode (C2S_DisconnectRequest r) = put_u32 r"
| "c2s_encode (C2S_SendMessage r d) = r @ d"
| "c2s_encode (C2S_Ack i) = put_u64 i"
| "c2s_encode (C2S_Heartbeat s) = put_u64 s"
| "c2s_encode (C2S_KeyExchange k) = k"
| "c2s_encode (C2S_RelayRequest p) = p"
| "c2s_encode (C2S_RawEcho p) = p"

text \<open>The read of a \<open>[u8; 32]\<close> at the front of the payload, guarded by its length check.\<close>

definition decode_id32 :: "bytes \<Rightarrow> (bytes \<Rightarrow> 'm) \<Rightarrow> (ProtocolError, 'm) result" where
  "decode_id32 buf mk =
     (if length buf < 32 then Err (FrameTooShort 32 (length buf))
      else and_then (slice_to 32 buf) (\<lambda>a. Ok (mk a)))"

definition decode_u64_field :: "bytes \<Rightarrow> (u64 \<Rightarrow> 'm) \<Rightarrow> (ProtocolError, 'm) result" where
  "decode_u64_field buf mk =
     (if length buf < 8 then Err (FrameTooShort 8 (length buf))
      else and_then (get_u64 buf) (\<lambda>(v, _). Ok (mk v)))"

definition c2s_decode :: "MessageType \<Rightarrow> bytes \<Rightarrow> (ProtocolError, ClientToServerMessage) result" where
  "c2s_decode msg_type buf =
     (case msg_type of
        AuthRequest \<Rightarrow>
          if length buf < 2 then Err (FrameTooShort 2 (length buf))
          else and_then (get_u16 buf) (\<lambda>(len, buf).
            let token_len = unat len in
            if length buf < token_len + 4 then Err (FrameTooShort (token_len + 4) (length buf))
            else and_then (slice_to token_len buf) (\<lambda>tok.
                 and_then (advance token_len buf) (\<lambda>buf.
                 and_then (get_u32 buf) (\<lambda>(ver, _). Ok (C2S_AuthRequest tok ver)))))
      | ConnectRequest \<Rightarrow> decode_id32 buf C2S_ConnectRequest
      | DisconnectRequest \<Rightarrow>
          if length buf < 4 then Err (FrameTooShort 4 (length buf))
          else and_then (get_u32 buf) (\<lambda>(r, _). Ok (C2S_DisconnectRequest r))
      | SendMessage \<Rightarrow>
          if length buf < 32 then Err (FrameTooShort 32 (length buf))
          else and_then (slice_to 32 buf) (\<lambda>r.
               and_then (slice_from 32 buf) (\<lambda>d. Ok (C2S_SendMessage r d)))
      | Ack \<Rightarrow> decode_u64_field buf C2S_Ack
      | Heartbeat \<Rightarrow> decode_u64_field buf C2S_Heartbeat
      | KeyExchange \<Rightarrow> decode_id32 buf C2S_KeyExchange
      | RelayRequest \<Rightarrow> decode_id32 buf C2S_RelayRequest
      | RawEcho \<Rightarrow> Ok (C2S_RawEcho buf)
      | _ \<Rightarrow> Err UnexpectedDirection)"

fun wf_c2s :: "ClientToServerMessage \<Rightarrow> bool" where
  "wf_c2s (C2S_AuthRequest tok _) = (length tok < 65536)"
| "wf_c2s (C2S_ConnectRequest p) = (length p = 32)"
| "wf_c2s (C2S_SendMessage r _) = (length r = 32)"
| "wf_c2s (C2S_KeyExchange k) = (length k = 32)"
| "wf_c2s (C2S_RelayRequest p) = (length p = 32)"
| "wf_c2s _ = True"

subsection \<open>Server to client\<close>

datatype DeliveryStatus = Delivered | Dropped | Queued | Failed

definition delivery_status_from_u8 :: "u8 \<Rightarrow> DeliveryStatus" where
  "delivery_status_from_u8 v =
     (if v = 1 then Delivered else if v = 2 then Dropped else if v = 3 then Queued else Failed)"

fun delivery_status_to_u8 :: "DeliveryStatus \<Rightarrow> u8" where
  "delivery_status_to_u8 Delivered = 1"
| "delivery_status_to_u8 Dropped = 2"
| "delivery_status_to_u8 Queued = 3"
| "delivery_status_to_u8 Failed = 4"

datatype PeerStatus = Online | Offline | RelayActive

definition peer_status_from_u8 :: "u8 \<Rightarrow> PeerStatus" where
  "peer_status_from_u8 v = (if v = 1 then Online else if v = 3 then RelayActive else Offline)"

fun peer_status_to_u8 :: "PeerStatus \<Rightarrow> u8" where
  "peer_status_to_u8 Online = 1"
| "peer_status_to_u8 Offline = 2"
| "peer_status_to_u8 RelayActive = 3"

datatype ServerToClientMessage =
    S2C_AuthResponse (success: bool) (auth_session_id: bytes)
  | S2C_ConnectionAccepted (accepted_session_id: bytes) (assigned_peer_id: bytes)
  | S2C_ConnectionRejected (rejected_reason: u32) (rejected_message: bytes)
  | S2C_HeartbeatResponse (heartbeat_sequence: u64)
  | S2C_ErrorResponse (error_code: u32) (error_message: bytes)
  | S2C_SendMessageResponse (sent_message_id: u64) (accepted: bool)
  | S2C_RawEchoResponse (echoed_payload: bytes)
  | S2C_IncomingMessageEvent (sender_id: bytes) (s2c_data: bytes)
  | S2C_DeliveryStatusEvent (delivered_message_id: u64) (delivery_status: DeliveryStatus)
  | S2C_PeerEvent (event_peer_id: bytes) (peer_status: PeerStatus)
  | S2C_RelayEvent (relay_session_id: bytes) (relay_status: u8)

fun s2c_message_type :: "ServerToClientMessage \<Rightarrow> MessageType" where
  "s2c_message_type (S2C_AuthResponse _ _) = AuthResponse"
| "s2c_message_type (S2C_ConnectionAccepted _ _) = ConnectionAccepted"
| "s2c_message_type (S2C_ConnectionRejected _ _) = ConnectionRejected"
| "s2c_message_type (S2C_HeartbeatResponse _) = HeartbeatResponse"
| "s2c_message_type (S2C_ErrorResponse _ _) = ErrorResponse"
| "s2c_message_type (S2C_SendMessageResponse _ _) = SendMessageResponse"
| "s2c_message_type (S2C_RawEchoResponse _) = RawEchoResponse"
| "s2c_message_type (S2C_IncomingMessageEvent _ _) = IncomingMessageEvent"
| "s2c_message_type (S2C_DeliveryStatusEvent _ _) = DeliveryStatusEvent"
| "s2c_message_type (S2C_PeerEvent _ _) = PeerEvent"
| "s2c_message_type (S2C_RelayEvent _ _) = RelayEvent"

definition s2c_is_response :: "ServerToClientMessage \<Rightarrow> bool" where
  "s2c_is_response m = is_response (s2c_message_type m)"

definition s2c_is_event :: "ServerToClientMessage \<Rightarrow> bool" where
  "s2c_is_event m = is_event (s2c_message_type m)"

definition bool_byte :: "bool \<Rightarrow> u8" where
  "bool_byte b = (if b then 1 else 0)"

fun s2c_encode :: "ServerToClientMessage \<Rightarrow> bytes" where
  "s2c_encode (S2C_AuthResponse ok sid) = put_u8 (bool_byte ok) @ sid"
| "s2c_encode (S2C_ConnectionAccepted sid pid) = sid @ pid"
| "s2c_encode (S2C_ConnectionRejected r m) = put_u32 r @ put_u16 (of_nat (length m)) @ m"
| "s2c_encode (S2C_HeartbeatResponse s) = put_u64 s"
| "s2c_encode (S2C_ErrorResponse c m) = put_u32 c @ put_u16 (of_nat (length m)) @ m"
| "s2c_encode (S2C_SendMessageResponse i ok) = put_u64 i @ put_u8 (bool_byte ok)"
| "s2c_encode (S2C_RawEchoResponse p) = p"
| "s2c_encode (S2C_IncomingMessageEvent s d) = s @ d"
| "s2c_encode (S2C_DeliveryStatusEvent i st) = put_u64 i @ put_u8 (delivery_status_to_u8 st)"
| "s2c_encode (S2C_PeerEvent p st) = p @ put_u8 (peer_status_to_u8 st)"
| "s2c_encode (S2C_RelayEvent sid st) = sid @ put_u8 st"

text \<open>A code and a length-prefixed string, as in \<open>ConnectionRejected\<close> and \<open>ErrorResponse\<close>.\<close>

definition decode_code_text :: "bytes \<Rightarrow> (u32 \<Rightarrow> bytes \<Rightarrow> 'm) \<Rightarrow> (ProtocolError, 'm) result" where
  "decode_code_text buf mk =
     (if length buf < 6 then Err (FrameTooShort 6 (length buf))
      else and_then (get_u32 buf) (\<lambda>(code, buf).
           and_then (get_u16 buf) (\<lambda>(len, buf).
             let msg_len = unat len in
             if length buf < msg_len then Err (FrameTooShort msg_len (length buf))
             else and_then (slice_to msg_len buf) (\<lambda>text. Ok (mk code (from_utf8_lossy text))))))"

definition s2c_decode :: "MessageType \<Rightarrow> bytes \<Rightarrow> (ProtocolError, ServerToClientMessage) result" where
  "s2c_decode msg_type buf =
     (case msg_type of
        AuthResponse \<Rightarrow>
          if length buf < 17 then Err (FrameTooShort 17 (length buf))
          else and_then (get_u8 buf) (\<lambda>(ok, buf).
               and_then (slice_to 16 buf) (\<lambda>sid. Ok (S2C_AuthResponse (ok \<noteq> 0) sid)))
      | ConnectionAccepted \<Rightarrow>
          if length buf < 48 then Err (FrameTooShort 48 (length buf))
          else and_then (slice_to 16 buf) (\<lambda>sid.
               and_then (and_then (slice_from 16 buf) (slice_to 32)) (\<lambda>pid.
                 Ok (S2C_ConnectionAccepted sid pid)))
      | ConnectionRejected \<Rightarrow> decode_code_text buf S2C_ConnectionRejected
      | HeartbeatResponse \<Rightarrow> decode_u64_field buf S2C_HeartbeatResponse
      | ErrorResponse \<Rightarrow> decode_code_text buf S2C_ErrorResponse
      | SendMessageResponse \<Rightarrow>
          if length buf < 9 then Err (FrameTooShort 9 (length buf))
          else and_then (get_u64 buf) (\<lambda>(i, buf).
               and_then (get_u8 buf) (\<lambda>(ok, _). Ok (S2C_SendMessageResponse i (ok \<noteq> 0))))
      | RawEchoResponse \<Rightarrow> Ok (S2C_RawEchoResponse buf)
      | IncomingMessageEvent \<Rightarrow>
          if length buf < 32 then Err (FrameTooShort 32 (length buf))
          else and_then (slice_to 32 buf) (\<lambda>s.
               and_then (slice_from 32 buf) (\<lambda>d. Ok (S2C_IncomingMessageEvent s d)))
      | DeliveryStatusEvent \<Rightarrow>
          if length buf < 9 then Err (FrameTooShort 9 (length buf))
          else and_then (get_u64 buf) (\<lambda>(i, buf).
               and_then (get_u8 buf) (\<lambda>(st, _). Ok (S2C_DeliveryStatusEvent i (delivery_status_from_u8 st))))
      | PeerEvent \<Rightarrow>
          if length buf < 33 then Err (FrameTooShort 33 (length buf))
          else and_then (slice_to 32 buf) (\<lambda>p.
               and_then (index_u8 buf 32) (\<lambda>st. Ok (S2C_PeerEvent p (peer_status_from_u8 st))))
      | RelayEvent \<Rightarrow>
          if length buf < 17 then Err (FrameTooShort 17 (length buf))
          else and_then (slice_to 16 buf) (\<lambda>sid.
               and_then (index_u8 buf 16) (\<lambda>st. Ok (S2C_RelayEvent sid st)))
      | _ \<Rightarrow> Err UnexpectedDirection)"

fun wf_s2c :: "ServerToClientMessage \<Rightarrow> bool" where
  "wf_s2c (S2C_AuthResponse _ sid) = (length sid = 16)"
| "wf_s2c (S2C_ConnectionAccepted sid pid) = (length sid = 16 \<and> length pid = 32)"
| "wf_s2c (S2C_ConnectionRejected _ m) = (utf8_valid m \<and> length m < 65536)"
| "wf_s2c (S2C_ErrorResponse _ m) = (utf8_valid m \<and> length m < 65536)"
| "wf_s2c (S2C_IncomingMessageEvent s _) = (length s = 32)"
| "wf_s2c (S2C_PeerEvent p _) = (length p = 32)"
| "wf_s2c (S2C_RelayEvent sid _) = (length sid = 16)"
| "wf_s2c _ = True"

subsection \<open>The envelope codec\<close>

definition wrap_client_message ::
    "ClientToServerMessage \<Rightarrow> u64 \<Rightarrow> u64 \<Rightarrow> u64 \<Rightarrow> (ProtocolError, MessageEnvelope) result" where
  "wrap_client_message msg mid cid ts = envelope_new (c2s_message_type msg) mid cid ts (c2s_encode msg)"

definition wrap_server_message ::
    "ServerToClientMessage \<Rightarrow> u64 \<Rightarrow> u64 \<Rightarrow> u64 \<Rightarrow> (ProtocolError, MessageEnvelope) result" where
  "wrap_server_message msg mid cid ts = envelope_new (s2c_message_type msg) mid cid ts (s2c_encode msg)"

definition encode_client_message ::
    "ClientToServerMessage \<Rightarrow> u64 \<Rightarrow> u64 \<Rightarrow> u64 \<Rightarrow> (ProtocolError, bytes) result" where
  "encode_client_message msg mid cid ts =
     and_then (envelope_new (c2s_message_type msg) mid cid ts (c2s_encode msg)) to_bytes"

definition decode_client_message ::
    "bytes \<Rightarrow> (ProtocolError, MessageEnvelope \<times> ClientToServerMessage) result" where
  "decode_client_message bs =
     and_then (envelope_decode bs) (\<lambda>e.
     and_then (c2s_decode (message_type e) (env_payload e)) (\<lambda>m. Ok (e, m)))"

definition encode_server_message ::
    "ServerToClientMessage \<Rightarrow> u64 \<Rightarrow> u64 \<Rightarrow> u64 \<Rightarrow> (ProtocolError, bytes) result" where
  "encode_server_message msg mid cid ts =
     and_then (envelope_new (s2c_message_type msg) mid cid ts (s2c_encode msg)) to_bytes"

definition decode_server_message ::
    "bytes \<Rightarrow> (ProtocolError, MessageEnvelope \<times> ServerToClientMessage) result" where
  "decode_server_message bs =
     and_then (envelope_decode bs) (\<lambda>e.
     and_then (s2c_decode (message_type e) (env_payload e)) (\<lambda>m. Ok (e, m)))"

subsection \<open>Payload codecs\<close>

lemmas field_reader_defs = decode_id32_def decode_u64_field_def decode_code_text_def

lemma bool_byte_ne_0 [simp]: "bool_byte b \<noteq> 0 \<longleftrightarrow> b"
  by (simp add: bool_byte_def)

lemma delivery_status_from_to [simp]: "delivery_status_from_u8 (delivery_status_to_u8 st) = st"
  by (cases st) (simp_all add: delivery_status_from_u8_def)

lemma peer_status_from_to [simp]: "peer_status_from_u8 (peer_status_to_u8 st) = st"
  by (cases st) (simp_all add: peer_status_from_u8_def)

lemma put_at_end [buf_simps]:
  "get_u8 (put_u8 a) = Ok (a, [])" "get_u32 (put_u32 c) = Ok (c, [])" "get_u64 (put_u64 d) = Ok (d, [])"
  using get_u8_put [of a "[]"] get_u32_put [of c "[]"] get_u64_put [of d "[]"] by simp_all

lemma index_after [buf_simps]: "length xs = n \<Longrightarrow> index_u8 (xs @ put_u8 v) n = Ok v"
  by (simp add: index_u8_def put_u8_def nth_append)

lemma c2s_decode_encode: "wf_c2s m \<Longrightarrow> c2s_decode (c2s_message_type m) (c2s_encode m) = Ok m"
  by (cases m) (simp_all add: c2s_decode_def field_reader_defs buf_simps)

lemma s2c_decode_encode: "wf_s2c m \<Longrightarrow> s2c_decode (s2c_message_type m) (s2c_encode m) = Ok m"
  by (cases m) (simp_all add: s2c_decode_def field_reader_defs buf_simps from_utf8_lossy_valid)

lemma c2s_decode_no_panic: "c2s_decode t bs \<noteq> Panic"
  by (cases t) (auto simp: c2s_decode_def field_reader_defs result_simps Let_def)

lemma s2c_decode_no_panic: "s2c_decode t bs \<noteq> Panic"
  by (cases t) (auto simp: s2c_decode_def field_reader_defs result_simps Let_def)

lemma c2s_decode_typed:
  assumes "c2s_decode t bs = Ok m"
  shows "wf_c2s m \<and> c2s_message_type m = t \<and> is_client_to_server t"
  using assms unat_less_width(2)
  by (cases t) (auto simp: c2s_decode_def field_reader_defs and_then_Ok_iff Let_def is_client_to_server_def
      dest!: slice_to_inv split: if_splits)

lemma s2c_decode_typed:
  assumes "s2c_decode t bs = Ok m" "length bs \<le> MAX_ENVELOPE_PAYLOAD_SIZE"
  shows "wf_s2c m \<and> s2c_message_type m = t \<and> is_server_to_client t"
proof -
  have lossy: "length (from_utf8_lossy xs) < 65536" if "length xs \<le> MAX_ENVELOPE_PAYLOAD_SIZE" for xs
    using length_from_utf8_lossy [of xs] that by (simp add: frame_sizes)
  have short: "length ys \<le> MAX_ENVELOPE_PAYLOAD_SIZE"
    if "get_u32 bs = (Ok (c, b1) :: (ProtocolError, _) result)" "get_u16 b1 = (Ok (l, b2) :: (ProtocolError, _) result)"
      "b2 = ys @ zs" for c b1 l b2 ys zs
    using that assms(2) by (auto dest!: get_inv)
  show ?thesis
    using assms(1)
    by (cases t) (auto simp: s2c_decode_def field_reader_defs and_then_Ok_iff Let_def is_server_to_client_def
        utf8_valid_lossy dest!: slice_to_inv intro!: lossy short split: if_splits)
qed

subsection \<open>Messages in envelopes\<close>

lemma envelope_new_wf: "envelope_new mt mid cid ts p = Ok e \<Longrightarrow> wf_envelope e"
  by (auto simp: envelope_new_def wf_envelope_def split: if_splits)

lemma envelope_new_no_panic: "envelope_new mt mid cid ts p \<noteq> Panic"
  by (simp add: envelope_new_def)

definition built_envelope :: "MessageType \<Rightarrow> u64 \<Rightarrow> u64 \<Rightarrow> u64 \<Rightarrow> bytes \<Rightarrow> MessageEnvelope" where
  "built_envelope mt mid cid ts p = \<lparr>version = CURRENT, message_type = mt, flags = 0, message_id = mid,
     correlation_id = cid, timestamp = ts, env_payload = p\<rparr>"

lemma built_envelope_sel [simp]:
  "message_type (built_envelope mt mid cid ts p) = mt" "message_id (built_envelope mt mid cid ts p) = mid"
  "correlation_id (built_envelope mt mid cid ts p) = cid" "timestamp (built_envelope mt mid cid ts p) = ts"
  "env_payload (built_envelope mt mid cid ts p) = p" "flags (built_envelope mt mid cid ts p) = 0"
  "wf_envelope (built_envelope mt mid cid ts p) \<longleftrightarrow> length p \<le> MAX_ENVELOPE_PAYLOAD_SIZE"
  by (simp_all add: built_envelope_def wf_envelope_def)

lemma envelope_new_eq:
  "envelope_new mt mid cid ts p =
     (if length p \<le> MAX_ENVELOPE_PAYLOAD_SIZE then Ok (built_envelope mt mid cid ts p)
      else Err (PayloadTooLarge (length p) MAX_ENVELOPE_PAYLOAD_SIZE))"
  by (simp add: envelope_new_def built_envelope_def)

lemma encode_client_fits:
  assumes "length (c2s_encode m) \<le> MAX_ENVELOPE_PAYLOAD_SIZE"
  obtains bs where "encode_client_message m mid cid ts = Ok bs"
    "envelope_decode bs = Ok (built_envelope (c2s_message_type m) mid cid ts (c2s_encode m))"
    "length bs \<le> MAX_PAYLOAD_SIZE"
  using assms envelope_codec.encode_defined [of "built_envelope (c2s_message_type m) mid cid ts (c2s_encode m)"]
    envelope_codec.decode_encode to_bytes_length
  by (fastforce simp: encode_client_message_def envelope_new_eq frame_sizes)

lemma encode_server_fits:
  assumes "length (s2c_encode m) \<le> MAX_ENVELOPE_PAYLOAD_SIZE"
  obtains bs where "encode_server_message m mid cid ts = Ok bs"
    "envelope_decode bs = Ok (built_envelope (s2c_message_type m) mid cid ts (s2c_encode m))"
    "length bs \<le> MAX_PAYLOAD_SIZE"
  using assms envelope_codec.encode_defined [of "built_envelope (s2c_message_type m) mid cid ts (s2c_encode m)"]
    envelope_codec.decode_encode to_bytes_length
  by (fastforce simp: encode_server_message_def envelope_new_eq frame_sizes)

lemma decode_client_no_panic: "decode_client_message bs \<noteq> Panic"
  by (auto simp: decode_client_message_def and_then_Panic_iff envelope_decode_no_panic c2s_decode_no_panic)

lemma decode_server_no_panic: "decode_server_message bs \<noteq> Panic"
  by (auto simp: decode_server_message_def and_then_Panic_iff envelope_decode_no_panic s2c_decode_no_panic)

lemma decode_client_typed:
  "decode_client_message bs = Ok (e, m) \<Longrightarrow>
     wf_c2s m \<and> c2s_message_type m = message_type e \<and> is_client_to_server (message_type e) \<and> wf_envelope e"
  by (auto simp: decode_client_message_def and_then_Ok_iff dest: c2s_decode_typed envelope_decode_wf)

lemma decode_server_typed:
  "decode_server_message bs = Ok (e, m) \<Longrightarrow>
     wf_s2c m \<and> s2c_message_type m = message_type e \<and> is_server_to_client (message_type e) \<and> wf_envelope e"
  using s2c_decode_typed envelope_decode_wf
  by (fastforce simp: decode_server_message_def and_then_Ok_iff wf_envelope_def)

interpretation client_codec: wire_codec
  "\<lambda>(m, mid, cid, ts). encode_client_message m mid cid ts"
  "\<lambda>bs. map_ok (\<lambda>(e, m). (m, message_id e, correlation_id e, timestamp e)) (decode_client_message bs)"
  "\<lambda>(m, mid, cid, ts). wf_c2s m \<and> length (c2s_encode m) \<le> MAX_ENVELOPE_PAYLOAD_SIZE"
proof (unfold_locales, goal_cases)
  case (1 x)
  then show ?case by (cases x) (auto elim: encode_client_fits)
next
  case (2 x bs)
  obtain m mid cid ts where x: "x = (m, mid, cid, ts)" by (cases x)
  with 2 show ?case
    by (auto simp: decode_client_message_def c2s_decode_encode elim!: encode_client_fits [of m mid cid ts])
qed

interpretation server_codec: wire_codec
  "\<lambda>(m, mid, cid, ts). encode_server_message m mid cid ts"
  "\<lambda>bs. map_ok (\<lambda>(e, m). (m, message_id e, correlation_id e, timestamp e)) (decode_server_message bs)"
  "\<lambda>(m, mid, cid, ts). wf_s2c m \<and> length (s2c_encode m) \<le> MAX_ENVELOPE_PAYLOAD_SIZE"
proof (unfold_locales, goal_cases)
  case (1 x)
  then show ?case by (cases x) (auto elim: encode_server_fits)
next
  case (2 x bs)
  obtain m mid cid ts where x: "x = (m, mid, cid, ts)" by (cases x)
  with 2 show ?case
    by (auto simp: decode_server_message_def s2c_decode_encode elim!: encode_server_fits [of m mid cid ts])
qed

lemma client_message_survives:
  assumes "wf_c2s m"
  shows "if length (c2s_encode m) \<le> MAX_ENVELOPE_PAYLOAD_SIZE
    then \<exists>bs e. encode_client_message m mid cid ts = Ok bs \<and> decode_client_message bs = Ok (e, m)
      \<and> message_id e = mid \<and> correlation_id e = cid \<and> timestamp e = ts \<and> length bs \<le> MAX_PAYLOAD_SIZE
    else encode_client_message m mid cid ts
      = Err (PayloadTooLarge (length (c2s_encode m)) MAX_ENVELOPE_PAYLOAD_SIZE)"
proof (cases "length (c2s_encode m) \<le> MAX_ENVELOPE_PAYLOAD_SIZE")
  case True
  then obtain bs where "encode_client_message m mid cid ts = Ok bs"
    "envelope_decode bs = Ok (built_envelope (c2s_message_type m) mid cid ts (c2s_encode m))"
    "length bs \<le> MAX_PAYLOAD_SIZE"
    by (rule encode_client_fits)
  then show ?thesis using True assms by (simp add: decode_client_message_def c2s_decode_encode)
qed (simp add: encode_client_message_def envelope_new_eq)

lemma server_message_survives:
  assumes "wf_s2c m"
  shows "if length (s2c_encode m) \<le> MAX_ENVELOPE_PAYLOAD_SIZE
    then \<exists>bs e. encode_server_message m mid cid ts = Ok bs \<and> decode_server_message bs = Ok (e, m)
      \<and> message_id e = mid \<and> correlation_id e = cid \<and> timestamp e = ts \<and> length bs \<le> MAX_PAYLOAD_SIZE
    else encode_server_message m mid cid ts
      = Err (PayloadTooLarge (length (s2c_encode m)) MAX_ENVELOPE_PAYLOAD_SIZE)"
proof (cases "length (s2c_encode m) \<le> MAX_ENVELOPE_PAYLOAD_SIZE")
  case True
  then obtain bs where "encode_server_message m mid cid ts = Ok bs"
    "envelope_decode bs = Ok (built_envelope (s2c_message_type m) mid cid ts (s2c_encode m))"
    "length bs \<le> MAX_PAYLOAD_SIZE"
    by (rule encode_server_fits)
  then show ?thesis using True assms by (simp add: decode_server_message_def s2c_decode_encode)
qed (simp add: encode_server_message_def envelope_new_eq)

subsection \<open>Properties\<close>

text \<open>C22: a well-typed message within the size limit survives the trip through its envelope, in both directions: the
  receiver decodes the same message, with the id, correlation id and timestamp the sender chose, and the envelope fits
  into one frame; a larger message is refused with \<open>PayloadTooLarge\<close> before anything is sent. A string field must be
  UTF-8, as every Rust \<open>String\<close> is.\<close>

theorem message_roundtrip:
  assumes "wf_c2s m" "wf_s2c r"
  shows "(if length (c2s_encode m) \<le> MAX_ENVELOPE_PAYLOAD_SIZE
    then \<exists>bs e. encode_client_message m mid cid ts = Ok bs \<and> decode_client_message bs = Ok (e, m)
      \<and> message_id e = mid \<and> correlation_id e = cid \<and> timestamp e = ts \<and> length bs \<le> MAX_PAYLOAD_SIZE
    else encode_client_message m mid cid ts
      = Err (PayloadTooLarge (length (c2s_encode m)) MAX_ENVELOPE_PAYLOAD_SIZE))
   \<and> (if length (s2c_encode r) \<le> MAX_ENVELOPE_PAYLOAD_SIZE
    then \<exists>bs e. encode_server_message r mid cid ts = Ok bs \<and> decode_server_message bs = Ok (e, r)
      \<and> message_id e = mid \<and> correlation_id e = cid \<and> timestamp e = ts \<and> length bs \<le> MAX_PAYLOAD_SIZE
    else encode_server_message r mid cid ts
      = Err (PayloadTooLarge (length (s2c_encode r)) MAX_ENVELOPE_PAYLOAD_SIZE))"
  using client_message_survives [OF assms(1)] server_message_survives [OF assms(2)] by blast

theorem message_roundtrip_witness:
  "\<exists>bs e cs d. encode_client_message (C2S_SendMessage (replicate 32 7) [1, 2, 3]) 5 8 9 = Ok bs
    \<and> decode_client_message bs = Ok (e, C2S_SendMessage (replicate 32 7) [1, 2, 3]) \<and> message_id e = 5
    \<and> encode_server_message (S2C_DeliveryStatusEvent 8 Queued) 5 8 9 = Ok cs
    \<and> decode_server_message cs = Ok (d, S2C_DeliveryStatusEvent 8 Queued) \<and> correlation_id d = 8"
  using message_roundtrip [of "C2S_SendMessage (replicate 32 7) [1, 2, 3]" "S2C_DeliveryStatusEvent 8 Queued" 5 8 9]
  by (auto simp: frame_sizes)

text \<open>C21: decoding arbitrary bytes as a client or a server message never panics; an accepted message is well
  typed, its variant is the one the envelope's opcode names, and the opcode belongs to the direction asked for,
  so neither side can be fed the other side's messages.\<close>

theorem message_decoding_safe:
  "decode_client_message bs \<noteq> Panic \<and> decode_server_message bs \<noteq> Panic
   \<and> (\<forall>e m. decode_client_message bs = Ok (e, m) \<longrightarrow>
        wf_c2s m \<and> c2s_message_type m = message_type e \<and> is_client_to_server (message_type e))
   \<and> (\<forall>e m. decode_server_message bs = Ok (e, m) \<longrightarrow>
        wf_s2c m \<and> s2c_message_type m = message_type e \<and> is_server_to_client (message_type e))
   \<and> (\<forall>x. decode_client_message bs = Ok x \<longrightarrow> (\<forall>y. decode_server_message bs \<noteq> Ok y))"
  using decode_client_no_panic [of bs] decode_server_no_panic [of bs]
    decode_client_typed [of bs] decode_server_typed [of bs]
  by (fastforce simp: is_client_to_server_def is_server_to_client_def decode_client_message_def
      decode_server_message_def and_then_Ok_iff)

theorem message_decoding_safe_witness:
  "\<exists>e m. decode_client_message (case encode_client_message (C2S_Heartbeat 3) 1 0 0 of Ok bs \<Rightarrow> bs | _ \<Rightarrow> [])
      = Ok (e, m) \<and> is_client_to_server (message_type e)"
proof -
  obtain bs e where bs: "encode_client_message (C2S_Heartbeat 3) 1 0 0 = Ok bs"
    "decode_client_message bs = Ok (e, C2S_Heartbeat 3)"
    using client_codec.encode_defined [of "(C2S_Heartbeat 3, 1, 0, 0)"]
      client_codec.decode_encode [of "(C2S_Heartbeat 3, 1, 0, 0)"]
    by (fastforce simp: frame_sizes elim: map_ok.elims)
  then show ?thesis using message_decoding_safe [of bs] by auto
qed

end
