(* ===== verification/Server_Pipeline.thy ===== *)
theory Server_Pipeline
  imports Server_Managers Messages
begin

section \<open>Handlers, routers and the server pipeline\<close>

text \<open>
  \<open>src/server/handlers/\<close>, \<open>src/server/services/\<close>, \<open>src/server/routing/\<close> and \<open>src/server/networking/pipeline.rs\<close>. A
  handler is the function its \<open>handle\<close> method computes; the trait \<open>ServerInboundHandler\<close> is the locale
  \<open>inbound_handler\<close>, interpreted on the four handlers. \<open>process_frame\<close> returns its result with the new state of the
  pipeline, whose field \<open>pl_sent\<close> lists the frames offered to the outbound channel. The clock is an argument. The
  lemmas show that every request gets exactly one answer, correlated with it, and that frames of other sessions have
  no effect.
\<close>

subsection \<open>Handlers\<close>

type_synonym handler =
  "MessageEnvelope \<Rightarrow> ClientToServerMessage \<Rightarrow> Session \<Rightarrow> (RoutingError, ServerToClientMessage option) result"

abbreviation unhandled :: "ClientToServerMessage \<Rightarrow> (RoutingError, ServerToClientMessage option) result" where
  "unhandled m \<equiv> Err (UnhandledMessageType (message_type_to_u8 (c2s_message_type m)))"

definition process_echo :: "bytes \<Rightarrow> bytes" where
  "process_echo p = p"

fun auth_handle :: handler where
  "auth_handle env (C2S_AuthRequest tok ver) s = Ok (Some (S2C_AuthResponse True (sn_session_id s)))"
| "auth_handle env (C2S_ConnectRequest p) s = Ok (Some (S2C_ConnectionAccepted (sn_session_id s) p))"
| "auth_handle env m s = unhandled m"

fun echo_handle :: handler where
  "echo_handle env (C2S_RawEcho p) s = Ok (Some (S2C_RawEchoResponse (process_echo p)))"
| "echo_handle env m s = unhandled m"

fun heartbeat_handle :: handler where
  "heartbeat_handle env (C2S_Heartbeat seq) s = Ok (Some (S2C_HeartbeatResponse seq))"
| "heartbeat_handle env m s = unhandled m"

fun message_handle :: handler where
  "message_handle env (C2S_SendMessage r d) s = Ok (Some (S2C_SendMessageResponse (message_id env) True))"
| "message_handle env m s = unhandled m"

subsection \<open>Routers\<close>

type_synonym inbound_router = "MessageType \<rightharpoonup> handler"

definition inbound_router_new :: inbound_router where
  "inbound_router_new = Map.empty"

definition register_handler :: "MessageType \<Rightarrow> handler \<Rightarrow> inbound_router \<Rightarrow> inbound_router" where
  "register_handler t h router = router(t \<mapsto> h)"

definition standard_relay :: inbound_router where
  "standard_relay = register_handler ConnectRequest auth_handle (register_handler AuthRequest auth_handle
     (register_handler Heartbeat heartbeat_handle (register_handler SendMessage message_handle
     (register_handler RawEcho echo_handle inbound_router_new))))"

definition dispatch :: "inbound_router \<Rightarrow> handler" where
  "dispatch router env m s =
     (case router (message_type env) of
        None \<Rightarrow> Err (UnhandledMessageType (message_type_to_u8 (message_type env)))
      | Some h \<Rightarrow> h env m s)"

text \<open>The outbound router's counter is threaded through; \<open>now\<close> is the Unix time it reads.\<close>

definition build_frame ::
    "u64 \<Rightarrow> u64 \<Rightarrow> bytes \<Rightarrow> u64 \<Rightarrow> ServerToClientMessage \<Rightarrow> (RoutingError, Frame) result \<times> u64" where
  "build_frame now counter sid cid msg =
     (and_then (map_err (\<lambda>e. HandlerFailed (protocol_error_display e)) (encode_server_message msg counter cid now))
        (\<lambda>bs. map_err (\<lambda>e. HandlerFailed (protocol_error_display e)) (frame_new sid (replicate 8 0) bs)),
      counter + 1)"

definition router_send_to_connection ::
    "('tx \<Rightarrow> bool) \<Rightarrow> ('addr, 'tx) ConnectionManagerInner \<Rightarrow> u64 \<Rightarrow> u64 \<Rightarrow> u64 \<Rightarrow> bytes \<Rightarrow> u64 \<Rightarrow> ServerToClientMessage
      \<Rightarrow> (RoutingError, 'tx \<times> Frame) result \<times> u64" where
  "router_send_to_connection chan_open cm now counter conn sid cid msg =
     (let (r, counter') = build_frame now counter sid cid msg in
      (and_then r (send_to_connection chan_open cm conn), counter'))"

definition router_send_to_peer ::
    "('tx \<Rightarrow> bool) \<Rightarrow> ('addr, 'tx) ConnectionManagerInner \<Rightarrow> u64 \<Rightarrow> u64 \<Rightarrow> bytes \<Rightarrow> bytes \<Rightarrow> u64 \<Rightarrow> ServerToClientMessage
      \<Rightarrow> (RoutingError, 'tx \<times> Frame) result \<times> u64" where
  "router_send_to_peer chan_open cm now counter peer sid cid msg =
     (let (r, counter') = build_frame now counter sid cid msg in
      (and_then r (send_to_peer chan_open cm peer), counter'))"

subsection \<open>The pipeline\<close>

definition ECHO_SERVICE_PEER_ID :: bytes where "ECHO_SERVICE_PEER_ID = replicate 32 0xEE"

record pipeline =
  pl_session :: Session
  pl_sessions :: SessionMap
  pl_counter :: u64
  pl_sent :: "Frame list"

definition outbound_router_new :: u64 where "outbound_router_new = 1"

definition server_pipeline_new :: "Session \<Rightarrow> u64 \<Rightarrow> SessionMap \<Rightarrow> pipeline" where
  "server_pipeline_new s router_counter sm = \<lparr>pl_session = s, pl_sessions = sm, pl_counter = router_counter, pl_sent = []\<rparr>"

text \<open>\<open>let frame = outbound_router.build_frame(\<dots>)?; let _ = outbound_tx.send(frame).await;\<close>\<close>

definition answer :: "u64 \<Rightarrow> u64 \<Rightarrow> ServerToClientMessage \<Rightarrow> pipeline \<Rightarrow> ('snow EchoMeshError, unit) result \<times> pipeline" where
  "answer now cid msg p =
     (let (r, counter') = build_frame now (pl_counter p) (sn_session_id (pl_session p)) cid msg; p1 = p\<lparr>pl_counter := counter'\<rparr> in
      case r of
        Ok f \<Rightarrow> (Ok (), p1\<lparr>pl_sent := pl_sent p1 @ [f]\<rparr>)
      | Err e \<Rightarrow> (Err (Routing e), p1)
      | Panic \<Rightarrow> (Panic, p1))"

definition raw_echo :: "inbound_router \<Rightarrow> Frame \<Rightarrow> pipeline \<Rightarrow> ('snow EchoMeshError, unit) result \<times> pipeline" where
  "raw_echo router frame p =
     (let raw_msg = C2S_RawEcho (payload frame) in
      case envelope_new (c2s_message_type raw_msg) 0 0 0 (payload frame) of
        Ok env \<Rightarrow> (case dispatch router env raw_msg (pl_session p) of
            Ok (Some (S2C_RawEchoResponse echoed)) \<Rightarrow> (case frame_new (session_id frame) (nonce frame) echoed of
                Ok f \<Rightarrow> (Ok (), p\<lparr>pl_sent := pl_sent p @ [f]\<rparr>)
              | Err e \<Rightarrow> (Err (Protocol e), p)
              | Panic \<Rightarrow> (Panic, p))
          | Panic \<Rightarrow> (Panic, p)
          | _ \<Rightarrow> (Ok (), p))
      | Err e \<Rightarrow> (Err (Protocol e), p)
      | Panic \<Rightarrow> (Panic, p))"

definition process_frame ::
    "inbound_router \<Rightarrow> nat \<Rightarrow> u64 \<Rightarrow> pipeline \<Rightarrow> Frame \<Rightarrow> ('snow EchoMeshError, unit) result \<times> pipeline" where
  "process_frame router instant now p frame =
     (let is_echo_service = constant_time_eq (session_id frame) (take 16 ECHO_SERVICE_PEER_ID);
          is_current_session = constant_time_eq (session_id frame) (sn_session_id (pl_session p)) in
      if \<not> is_echo_service \<and> \<not> is_current_session then (Ok (), p)
      else
        let p1 = p\<lparr>pl_sessions := snd (touch_session (sn_session_id (pl_session p)) instant (pl_sessions p))\<rparr> in
        case decode_client_message (payload frame) of
          Ok (env, msg) \<Rightarrow> (case dispatch router env msg (pl_session p1) of
              Ok (Some response) \<Rightarrow> answer now (message_id env) response p1
            | Ok None \<Rightarrow> (Ok (), p1)
            | Err err \<Rightarrow> answer now (message_id env) (S2C_ErrorResponse 500 (lit ''internal processing error'')) p1
            | Panic \<Rightarrow> (Panic, p1))
        | Panic \<Rightarrow> (Panic, p1)
        | Err _ \<Rightarrow> if is_echo_service then raw_echo router frame p1 else (Ok (), p1))"

subsection \<open>The contract of a handler\<close>

text \<open>An answer that the outbound router can always send.\<close>

definition answer_ok :: "ServerToClientMessage \<Rightarrow> bool" where
  "answer_ok r \<longleftrightarrow> wf_s2c r \<and> length (s2c_encode r) \<le> MAX_ENVELOPE_PAYLOAD_SIZE \<and> s2c_is_response r
     \<and> s2c_message_type r \<noteq> ErrorResponse"

definition request_ok :: "ClientToServerMessage \<Rightarrow> bool" where
  "request_ok m \<longleftrightarrow> wf_c2s m \<and> length (c2s_encode m) \<le> MAX_ENVELOPE_PAYLOAD_SIZE"

locale inbound_handler =
  fixes handle :: handler and accepts :: "MessageType set"
  assumes answers: "c2s_message_type m \<in> accepts \<Longrightarrow> request_ok m \<Longrightarrow> length (sn_session_id s) = 16 \<Longrightarrow>
      \<exists>r. handle env m s = Ok (Some r) \<and> answer_ok r"
    and refuses: "c2s_message_type m \<notin> accepts \<Longrightarrow> handle env m s = unhandled m"
begin

lemma handle_defined:
  assumes "request_ok m" "length (sn_session_id s) = 16"
  obtains r where "handle env m s = Ok (Some r)" "answer_ok r" | "handle env m s = unhandled m" "c2s_message_type m \<notin> accepts"
  using assms answers refuses by metis

end

lemmas handler_defs = answer_ok_def request_ok_def s2c_is_response_def is_response_def

interpretation echo_h: inbound_handler echo_handle "{RawEcho}"
proof (unfold_locales, goal_cases)
  case (1 m s env)
  then show ?case by (cases m) (auto simp: handler_defs process_echo_def)
next
  case (2 m env s)
  then show ?case by (cases m) auto
qed

interpretation heartbeat_h: inbound_handler heartbeat_handle "{Heartbeat}"
proof (unfold_locales, goal_cases)
  case (1 m s env)
  then show ?case by (cases m) (auto simp: handler_defs frame_sizes)
next
  case (2 m env s)
  then show ?case by (cases m) auto
qed

interpretation message_h: inbound_handler message_handle "{SendMessage}"
proof (unfold_locales, goal_cases)
  case (1 m s env)
  then show ?case by (cases m) (auto simp: handler_defs frame_sizes)
next
  case (2 m env s)
  then show ?case by (cases m) auto
qed

interpretation auth_h: inbound_handler auth_handle "{AuthRequest, ConnectRequest}"
proof (unfold_locales, goal_cases)
  case (1 m s env)
  then show ?case by (cases m) (auto simp: handler_defs frame_sizes)
next
  case (2 m env s)
  then show ?case by (cases m) auto
qed

subsection \<open>The standard relay\<close>

definition handled_types :: "MessageType set" where
  "handled_types = {RawEcho, SendMessage, Heartbeat, AuthRequest, ConnectRequest}"

lemma standard_relay_eq:
  "standard_relay t = (if t = RawEcho then Some echo_handle else if t = SendMessage then Some message_handle
     else if t = Heartbeat then Some heartbeat_handle else if t = AuthRequest \<or> t = ConnectRequest then Some auth_handle else None)"
  by (simp add: standard_relay_def register_handler_def inbound_router_new_def)

text \<open>Every registered handler accepts the type it is registered for, so a message is dispatched to a handler that
  answers it.\<close>

lemma standard_relay_answers:
  assumes "message_type env = c2s_message_type m" "request_ok m" "length (sn_session_id s) = 16" "c2s_message_type m \<in> handled_types"
  obtains r where "dispatch standard_relay env m s = Ok (Some r)" "answer_ok r"
  using assms echo_h.answers [of m s env] message_h.answers [of m s env] heartbeat_h.answers [of m s env] auth_h.answers [of m s env]
  by (auto simp: dispatch_def standard_relay_eq handled_types_def)

lemma standard_relay_refuses:
  "message_type env \<notin> handled_types \<Longrightarrow>
     dispatch standard_relay env m s = Err (UnhandledMessageType (message_type_to_u8 (message_type env)))"
  by (auto simp: dispatch_def standard_relay_eq handled_types_def)

lemma c2s_decode_length:
  assumes "c2s_decode t bs = Ok m" shows "length (c2s_encode m) \<le> length bs"
  using assms
  by (cases t) (auto simp: c2s_decode_def field_reader_defs and_then_Ok_iff Let_def slice_to_def slice_from_def advance_def
      get_u16_def get_u32_def get_u64_def split: if_splits)

lemma decode_client_request_ok:
  assumes "decode_client_message bs = Ok (env, m)"
  shows "request_ok m \<and> message_type env = c2s_message_type m"
proof -
  have "c2s_decode (message_type env) (env_payload env) = Ok m"
    using assms by (auto simp: decode_client_message_def and_then_Ok_iff)
  then show ?thesis
    using decode_client_typed [OF assms] c2s_decode_length by (fastforce simp: request_ok_def wf_envelope_def)
qed

lemma answer_sends:
  assumes "wf_s2c msg" "length (s2c_encode msg) \<le> MAX_ENVELOPE_PAYLOAD_SIZE"
  obtains f where "answer now cid msg p = (Ok (), p\<lparr>pl_counter := pl_counter p + 1, pl_sent := pl_sent p @ [f]\<rparr>)"
    "session_id f = sn_session_id (pl_session p)" "nonce f = replicate 8 0"
    "decode_server_message (payload f) = Ok (built_envelope (s2c_message_type msg) (pl_counter p) cid now (s2c_encode msg), msg)"
proof (rule encode_server_fits [OF assms(2), of "pl_counter p" cid now])
  fix bs
  assume bs: "encode_server_message msg (pl_counter p) cid now = Ok bs" "length bs \<le> MAX_PAYLOAD_SIZE"
    "envelope_decode bs = Ok (built_envelope (s2c_message_type msg) (pl_counter p) cid now (s2c_encode msg))"
  show thesis
    by (rule that [of "\<lparr>session_id = sn_session_id (pl_session p), nonce = replicate 8 0, payload = bs\<rparr>"])
      (use bs assms in \<open>simp_all add: answer_def build_frame_def frame_new_def Let_def decode_server_message_def s2c_decode_encode\<close>)
qed

lemma error_answer_fits:
  "wf_s2c (S2C_ErrorResponse 500 (lit ''internal processing error''))"
  "length (s2c_encode (S2C_ErrorResponse 500 (lit ''internal processing error''))) \<le> MAX_ENVELOPE_PAYLOAD_SIZE"
proof -
  have "utf8_valid (lit ''internal processing error'')" by code_simp
  then show "wf_s2c (S2C_ErrorResponse 500 (lit ''internal processing error''))" by (simp add: lit_def)
qed (simp add: lit_def frame_sizes)

lemma pipeline_answers:
  assumes "session_id frame = sn_session_id (pl_session p) \<or> session_id frame = take 16 ECHO_SERVICE_PEER_ID"
    and "decode_client_message (payload frame) = Ok (env, m)" "length (sn_session_id (pl_session p)) = 16"
  shows "\<exists>f env' r. process_frame standard_relay instant now p frame = ((Ok () :: ('snow EchoMeshError, unit) result),
      p\<lparr>pl_sessions := snd (touch_session (sn_session_id (pl_session p)) instant (pl_sessions p)),
        pl_counter := pl_counter p + 1, pl_sent := pl_sent p @ [f]\<rparr>)
    \<and> session_id f = sn_session_id (pl_session p)
    \<and> decode_server_message (payload f) = Ok (env', r) \<and> correlation_id env' = message_id env \<and> message_id env' = pl_counter p
    \<and> is_response (message_type env')
    \<and> (r = S2C_ErrorResponse 500 (lit ''internal processing error'') \<longleftrightarrow> c2s_message_type m \<notin> handled_types)
    \<and> (c2s_message_type m \<in> handled_types \<longrightarrow> dispatch standard_relay env m (pl_session p) = Ok (Some r))"
proof -
  let ?p1 = "p\<lparr>pl_sessions := snd (touch_session (sn_session_id (pl_session p)) instant (pl_sessions p))\<rparr>"
  let ?err = "S2C_ErrorResponse 500 (lit ''internal processing error'')"
  obtain r where r: "wf_s2c r" "length (s2c_encode r) \<le> MAX_ENVELOPE_PAYLOAD_SIZE" "is_response (s2c_message_type r)"
    "r = ?err \<longleftrightarrow> c2s_message_type m \<notin> handled_types"
    "c2s_message_type m \<in> handled_types \<longrightarrow> dispatch standard_relay env m (pl_session p) = Ok (Some r)"
    "process_frame standard_relay instant now p frame = (answer now (message_id env) r ?p1 :: ('snow EchoMeshError, unit) result \<times> _)"
  proof (cases "c2s_message_type m \<in> handled_types")
    case True
    then obtain r where "dispatch standard_relay env m (pl_session p) = Ok (Some r)" "answer_ok r"
      using standard_relay_answers [of env m "pl_session p"] decode_client_request_ok [OF assms(2)] assms(3) by metis
    with True assms(1,2) show thesis
      by (intro that [of r]) (auto simp: process_frame_def answer_ok_def s2c_is_response_def constant_time_eq_iff Let_def)
  next
    case False
    then have "dispatch standard_relay env m (pl_session p) = Err (UnhandledMessageType (message_type_to_u8 (message_type env)))"
      using standard_relay_refuses decode_client_request_ok [OF assms(2)] by metis
    with False assms(1,2) error_answer_fits show thesis
      by (intro that [of ?err]) (auto simp: process_frame_def constant_time_eq_iff Let_def is_response_def)
  qed
  obtain f where "answer now (message_id env) r ?p1 = ((Ok () :: ('snow EchoMeshError, unit) result),
      ?p1\<lparr>pl_counter := pl_counter ?p1 + 1, pl_sent := pl_sent ?p1 @ [f]\<rparr>)"
    "session_id f = sn_session_id (pl_session ?p1)"
    "decode_server_message (payload f) = Ok (built_envelope (s2c_message_type r) (pl_counter ?p1) (message_id env) now (s2c_encode r), r)"
    by (rule answer_sends [OF r(1,2)])
  with r(3-6) show ?thesis
    by (intro exI [of _ f] exI [of _ "built_envelope (s2c_message_type r) (pl_counter p) (message_id env) now (s2c_encode r)"]
        exI [of _ r]) auto
qed

subsection \<open>Properties\<close>

text \<open>C11: the pipeline of the standard relay answers every well-formed request exactly once. A frame that is addressed to
  the session or to the echo service and carries a client message succeeds, refreshes the session, and offers exactly
  one frame to the client: addressed to the session, correlated with the request's message id, numbered by the router's
  counter, and decoding to a response: what the handler of the message's type answers, or the error with code 500
  exactly when the type has no handler.\<close>

theorem pipeline_answers_once:
  assumes "session_id frame = sn_session_id (pl_session p) \<or> session_id frame = take 16 ECHO_SERVICE_PEER_ID"
    and "decode_client_message (payload frame) = Ok (env, m)" "length (sn_session_id (pl_session p)) = 16"
  shows "\<exists>f env' r. process_frame standard_relay instant now p frame = ((Ok () :: ('snow EchoMeshError, unit) result),
      p\<lparr>pl_sessions := snd (touch_session (sn_session_id (pl_session p)) instant (pl_sessions p)),
        pl_counter := pl_counter p + 1, pl_sent := pl_sent p @ [f]\<rparr>)
    \<and> session_id f = sn_session_id (pl_session p)
    \<and> decode_server_message (payload f) = Ok (env', r) \<and> correlation_id env' = message_id env \<and> message_id env' = pl_counter p
    \<and> is_response (message_type env')
    \<and> (r = S2C_ErrorResponse 500 (lit ''internal processing error'') \<longleftrightarrow> c2s_message_type m \<notin> handled_types)
    \<and> (c2s_message_type m \<in> handled_types \<longrightarrow> dispatch standard_relay env m (pl_session p) = Ok (Some r))"
  using assms by (rule pipeline_answers)

definition sample_pipeline :: pipeline where
  "sample_pipeline = server_pipeline_new (session_new (replicate 16 0xEE) None 0) outbound_router_new Map.empty"

theorem pipeline_answers_once_witness:
  "\<exists>bs f p' env'. encode_client_message (C2S_Heartbeat 3) 9 0 0 = Ok bs \<and>
     process_frame standard_relay 1 0 sample_pipeline \<lparr>session_id = replicate 16 0xEE, nonce = replicate 8 0, payload = bs\<rparr>
       = ((Ok () :: (unit EchoMeshError, unit) result), p') \<and> pl_sent p' = [f] \<and>
     (\<exists>r. decode_server_message (payload f) = Ok (env', r)) \<and> correlation_id env' = 9"
proof -
  obtain bs where bs: "encode_client_message (C2S_Heartbeat 3) 9 0 0 = Ok bs"
    "envelope_decode bs = Ok (built_envelope Heartbeat 9 0 0 (put_u64 3))"
    using encode_client_fits [of "C2S_Heartbeat 3" 9 0 0] by (auto simp: frame_sizes)
  let ?f = "\<lparr>session_id = replicate 16 0xEE, nonce = replicate 8 0, payload = bs\<rparr>"
  have d: "decode_client_message (payload ?f) = Ok (built_envelope Heartbeat 9 0 0 (put_u64 3), C2S_Heartbeat 3)"
    using bs(2) c2s_decode_encode [of "C2S_Heartbeat 3"] by (simp add: decode_client_message_def)
  have "session_id ?f = sn_session_id (pl_session sample_pipeline)" "length (sn_session_id (pl_session sample_pipeline)) = 16"
    by (simp_all add: sample_pipeline_def server_pipeline_new_def session_new_def)
  with pipeline_answers_once [of ?f sample_pipeline, OF _ d, where 'snow = unit and instant = 1 and now = 0] bs(1)
  show ?thesis by (auto simp: sample_pipeline_def server_pipeline_new_def)
qed

text \<open>C28: everything else leaves no trace at the client. A frame addressed to any other session is ignored altogether. A
  payload that is no client message is ignored too, unless it is addressed to the echo service: then the very same
  frame is sent back if the payload has at most 1364 bytes, and otherwise the pipeline reports the payload as too
  large although it fits a frame, and sends nothing.\<close>

theorem pipeline_other_frames:
  defines "p1 \<equiv> \<lambda>p instant. p\<lparr>pl_sessions := snd (touch_session (sn_session_id (pl_session p)) instant (pl_sessions p))\<rparr>"
  assumes "wf_frame frame"
  shows "(session_id frame \<noteq> sn_session_id (pl_session p) \<longrightarrow> session_id frame \<noteq> take 16 ECHO_SERVICE_PEER_ID \<longrightarrow>
      process_frame standard_relay instant now p frame = ((Ok () :: ('snow EchoMeshError, unit) result), p))
    \<and> (\<forall>e. decode_client_message (payload frame) = Err e \<longrightarrow>
        (session_id frame \<noteq> take 16 ECHO_SERVICE_PEER_ID \<longrightarrow> session_id frame = sn_session_id (pl_session p) \<longrightarrow>
          process_frame standard_relay instant now p frame = ((Ok () :: ('snow EchoMeshError, unit) result), p1 p instant))
      \<and> (session_id frame = take 16 ECHO_SERVICE_PEER_ID \<longrightarrow>
          process_frame standard_relay instant now p frame =
            (if length (payload frame) \<le> MAX_ENVELOPE_PAYLOAD_SIZE
             then ((Ok () :: ('snow EchoMeshError, unit) result), (p1 p instant)\<lparr>pl_sent := pl_sent p @ [frame]\<rparr>)
             else (Err (Protocol (PayloadTooLarge (length (payload frame)) MAX_ENVELOPE_PAYLOAD_SIZE)), p1 p instant))))"
  using assms(2)
  by (auto simp: p1_def process_frame_def constant_time_eq_iff Let_def raw_echo_def envelope_new_eq dispatch_def standard_relay_eq
      process_echo_def frame_new_def wf_frame_def)

theorem pipeline_other_frames_witness:
  "process_frame standard_relay 1 0 sample_pipeline \<lparr>session_id = replicate 16 7, nonce = replicate 8 0, payload = [1, 2]\<rparr>
    = ((Ok () :: (unit EchoMeshError, unit) result), sample_pipeline)"
  using pipeline_other_frames [of "\<lparr>session_id = replicate 16 7, nonce = replicate 8 0, payload = [1, 2]\<rparr>" sample_pipeline 1 0, where 'snow = unit]
  by (simp add: sample_pipeline_def server_pipeline_new_def session_new_def ECHO_SERVICE_PEER_ID_def wf_frame_def frame_typed_def frame_sizes)

end
