(* ===== verification/Transition.thy ===== *)
theory Transition
  imports Main
begin

section \<open>Transition systems\<close>

text \<open>
  Reachability for the step relations of the development, and the contract of an inductive invariant: a predicate
  that holds initially and is kept by every step holds in every reachable state.
\<close>

inductive reachable_from :: "('s \<Rightarrow> bool) \<Rightarrow> ('s \<Rightarrow> 'l \<Rightarrow> 's \<Rightarrow> bool) \<Rightarrow> 's \<Rightarrow> bool" for init step where
  reach_init: "init s \<Longrightarrow> reachable_from init step s"
| reach_step: "reachable_from init step s \<Longrightarrow> step s l s' \<Longrightarrow> reachable_from init step s'"

text \<open>A run with its labels, in order.\<close>

inductive runs :: "('s \<Rightarrow> 'l \<Rightarrow> 's \<Rightarrow> bool) \<Rightarrow> 's \<Rightarrow> 'l list \<Rightarrow> 's \<Rightarrow> bool" for step where
  runs_nil: "runs step s [] s"
| runs_cons: "step s l s' \<Longrightarrow> runs step s' ls s'' \<Longrightarrow> runs step s (l # ls) s''"

inductive_cases runs_consE: "runs step s (l # ls) s''"

inductive_simps runs_simps: "runs step s [] s'" "runs step s (l # ls) s'"

lemma reachable_runs: "runs step s ls s' \<Longrightarrow> reachable_from init step s \<Longrightarrow> reachable_from init step s'"
  by (induction rule: runs.induct) (auto intro: reach_step)

locale invariant_system =
  fixes init :: "'s \<Rightarrow> bool" and step :: "'s \<Rightarrow> 'l \<Rightarrow> 's \<Rightarrow> bool" and inv :: "'s \<Rightarrow> bool"
  assumes inv_init: "init s \<Longrightarrow> inv s"
    and inv_step: "inv s \<Longrightarrow> step s l s' \<Longrightarrow> inv s'"
begin

lemma reachable_inv: "reachable_from init step s \<Longrightarrow> inv s"
  by (induction rule: reachable_from.induct) (auto intro: inv_init inv_step)

lemma runs_inv: "runs step s ls s' \<Longrightarrow> inv s \<Longrightarrow> inv s'"
  by (induction rule: runs.induct) (auto intro: inv_step)

end

end
