(* ===== verification/Client.thy ===== *)
theory Client
  imports Server_Pipeline Transition
begin

section \<open>The client\<close>

text \<open>
  \<open>src/client/\<close>: the outbound router that numbers and frames requests, the inbound router that matches responses with
  waiting requests and hands events to handlers, the handling of a received frame in the network task of
  \<open>EchoMeshClient::connect\<close>, and the request operations of the client. A \<open>oneshot\<close> sender is the index of the request
  that waits on its receiver; a call of an event handler is an effect in a list. The request operations are steps,
  since a response can arrive between the sending of a request and its registration. The lemmas show that a waiting
  request gets the response with its id, that the order of the two operations can lose a response, which frames make
  the network task panic, and how the task ends: by \<open>disconnect\<close>, by the end of its stream or by a panic, but not
  by the client being dropped.
\<close>

subsection \<open>Session and state\<close>

datatype ClientState = Disconnected | Connecting | Connected | Authenticated | Closing | ClientClosed

record 'addr ClientSession =
  cs_session_id :: bytes
  cs_server_addr :: 'addr
  is_authenticated :: bool

definition client_session_new :: "'addr \<Rightarrow> 'addr ClientSession" where
  "client_session_new addr = \<lparr>cs_session_id = take 16 ECHO_SERVICE_PEER_ID, cs_server_addr = addr, is_authenticated = False\<rparr>"

definition with_session_id :: "bytes \<Rightarrow> 'addr ClientSession \<Rightarrow> 'addr ClientSession" where
  "with_session_id sid s = s\<lparr>cs_session_id := sid\<rparr>"

subsection \<open>The outbound router\<close>

definition next_message_id :: "u64 \<Rightarrow> u64 \<times> u64" where
  "next_message_id counter = (counter, counter + 1)"

text \<open>The value is the message id and the frame queued; \<open>open\<close> tells whether the network task still receives.\<close>

definition client_send_message ::
    "bool \<Rightarrow> u64 \<Rightarrow> bytes \<Rightarrow> ClientToServerMessage \<Rightarrow> u64 \<Rightarrow> (RoutingError, u64 \<times> Frame) result \<times> u64" where
  "client_send_message open now sid msg counter =
     (let (msg_id, counter') = next_message_id counter in
      (and_then (map_err (\<lambda>e. HandlerFailed (protocol_error_display e)) (encode_client_message msg msg_id 0 now)) (\<lambda>bs.
       and_then (map_err (\<lambda>e. HandlerFailed (protocol_error_display e)) (frame_new sid (replicate 8 0) bs)) (\<lambda>f.
         if open then Ok (msg_id, f) else Err ChannelClosed)),
       counter'))"

definition client_send_frame :: "bool \<Rightarrow> Frame \<Rightarrow> (RoutingError, Frame) result" where
  "client_send_frame open f = (if open then Ok f else Err ChannelClosed)"

text \<open>\<open>send_echo\<close>: a request to the echo service that nobody waits for.\<close>

definition client_send_echo :: "bool \<Rightarrow> u64 \<Rightarrow> bytes \<Rightarrow> u64 \<Rightarrow> (RoutingError, Frame) result \<times> u64" where
  "client_send_echo open now p counter =
     (case client_send_message open now (take 16 ECHO_SERVICE_PEER_ID) (C2S_RawEcho p) counter of
        (r, counter') \<Rightarrow> (map_ok snd r, counter'))"

subsection \<open>The inbound router\<close>

datatype ('h) effect =
    Wake nat ServerToClientMessage
  | OnIncomingMessage 'h bytes bytes
  | OnDeliveryStatus 'h u64 DeliveryStatus
  | OnPeerEvent 'h bytes PeerStatus
  | OnRelayEvent 'h bytes u8

record 'h ClientInboundRouter =
  pending_requests :: "u64 \<rightharpoonup> nat"
  event_handlers :: "'h list"

definition client_inbound_new :: "'h ClientInboundRouter" where
  "client_inbound_new = \<lparr>pending_requests = Map.empty, event_handlers = []\<rparr>"

definition register_pending :: "u64 \<Rightarrow> nat \<Rightarrow> 'h ClientInboundRouter \<Rightarrow> 'h ClientInboundRouter" where
  "register_pending mid waiter r = r\<lparr>pending_requests := (pending_requests r)(mid \<mapsto> waiter)\<rparr>"

definition add_event_handler :: "'h \<Rightarrow> 'h ClientInboundRouter \<Rightarrow> 'h ClientInboundRouter" where
  "add_event_handler h r = r\<lparr>event_handlers := event_handlers r @ [h]\<rparr>"

fun dispatch_event :: "'h list \<Rightarrow> ServerToClientMessage \<Rightarrow> 'h effect list" where
  "dispatch_event hs (S2C_IncomingMessageEvent s d) = map (\<lambda>h. OnIncomingMessage h s d) hs"
| "dispatch_event hs (S2C_DeliveryStatusEvent i st) = map (\<lambda>h. OnDeliveryStatus h i st) hs"
| "dispatch_event hs (S2C_PeerEvent p st) = map (\<lambda>h. OnPeerEvent h p st) hs"
| "dispatch_event hs (S2C_RelayEvent sid st) = map (\<lambda>h. OnRelayEvent h sid st) hs"
| "dispatch_event hs _ = []"

definition client_dispatch ::
    "MessageEnvelope \<Rightarrow> ServerToClientMessage \<Rightarrow> 'h ClientInboundRouter \<Rightarrow> 'h effect list \<times> 'h ClientInboundRouter" where
  "client_dispatch env msg r =
     (if s2c_is_response msg \<and> correlation_id env \<noteq> 0 then
        let sender = pending_requests r (correlation_id env);
            r1 = r\<lparr>pending_requests := (pending_requests r)(correlation_id env := None)\<rparr> in
        case sender of
          Some waiter \<Rightarrow> ([Wake waiter msg], r1)
        | None \<Rightarrow> (dispatch_event (event_handlers r1) msg, r1)
      else (dispatch_event (event_handlers r) msg, r))"

text \<open>The arm of the network task for a received frame, with its \<open>unwrap()\<close>.\<close>

definition client_on_frame ::
    "Frame \<Rightarrow> 'h ClientInboundRouter \<Rightarrow> (unit, 'h effect list \<times> 'h ClientInboundRouter) result" where
  "client_on_frame frame r =
     (case decode_server_message (payload frame) of
        Panic \<Rightarrow> Panic
      | Ok (env, msg) \<Rightarrow> Ok (client_dispatch env msg r)
      | Err _ \<Rightarrow>
          (let synthetic_msg = S2C_RawEchoResponse (payload frame) in
           case envelope_new (s2c_message_type synthetic_msg) 0 0 0 (payload frame) of
             Ok synthetic_env \<Rightarrow> Ok (client_dispatch synthetic_env synthetic_msg r)
           | _ \<Rightarrow> Panic))"

subsection \<open>Requests\<close>

text \<open>A request of the client: its frame is queued but its waiter not yet registered (a request of \<open>send_echo\<close> stays so),
  it could not be sent (its id is used up all the same), it waits, it has its answer, or it has timed out or was dropped
  with the client (its entry in the table stays). The network task runs, has left its loop, or has panicked; it holds
  the receiver of the watch channel that \<open>disconnect\<close> sends into.\<close>

datatype request =
    Sent u64
  | Unsent u64 RoutingError
  | Waiting u64
  | Answered u64 ServerToClientMessage
  | TimedOutRequest u64

datatype network_task = Running | Finished | Crashed

record client =
  cl_counter :: u64
  cl_router :: "nat ClientInboundRouter"
  cl_requests :: "request list"
  cl_effects :: "nat effect list"
  cl_network :: network_task
  cl_state :: ClientState
  cl_shutdown :: bool
  cl_shutdown_unseen :: bool
  cl_dropped :: bool

definition client_init :: "client \<Rightarrow> bool" where
  "client_init c \<longleftrightarrow> cl_counter c = 1 \<and> cl_router c = client_inbound_new \<and> cl_requests c = [] \<and> cl_effects c = []
     \<and> cl_network c = Running \<and> cl_state c = Connected \<and> \<not> cl_shutdown c \<and> \<not> cl_shutdown_unseen c \<and> \<not> cl_dropped c"

fun wake :: "request \<Rightarrow> ServerToClientMessage \<Rightarrow> request" where
  "wake (Waiting mid) msg = Answered mid msg"
| "wake req msg = req"

fun give_up :: "request \<Rightarrow> request" where
  "give_up (Waiting mid) = TimedOutRequest mid"
| "give_up req = req"

fun apply_effect :: "nat effect \<Rightarrow> client \<Rightarrow> client" where
  "apply_effect (Wake i msg) c =
     c\<lparr>cl_requests := (if i < length (cl_requests c) then (cl_requests c)[i := wake (cl_requests c ! i) msg] else cl_requests c)\<rparr>"
| "apply_effect e c = c\<lparr>cl_effects := cl_effects c @ [e]\<rparr>"

datatype client_label =
    Request ClientToServerMessage | Registered nat | Arrived Frame | RequestTimedOut nat
  | HandlerAdded nat | NetworkEnded | Disconnect | ClientDropped | ShutdownChanged

text \<open>\<open>NetworkEnded\<close> is the end of the stream or an error on it. \<open>disconnect\<close> sends \<open>true\<close>, which reaches the task while it
  has the receiver. Dropping the client drops the sender and the requests in flight: from then on \<open>changed()\<close> is always
  ready. The arm of \<open>changed()\<close> leaves the loop only if the value is \<open>true\<close>.\<close>

inductive cstep :: "client \<Rightarrow> client_label \<Rightarrow> client \<Rightarrow> bool" where
  request: "\<not> cl_dropped c \<Longrightarrow>
    client_send_message (cl_network c = Running) now sid msg (cl_counter c) = (Ok (mid, f), counter') \<Longrightarrow>
    cstep c (Request msg) (c\<lparr>cl_counter := counter', cl_requests := cl_requests c @ [Sent mid]\<rparr>)"
| request_failed: "\<not> cl_dropped c \<Longrightarrow>
    client_send_message (cl_network c = Running) now sid msg (cl_counter c) = (Err e, counter') \<Longrightarrow>
    cstep c (Request msg) (c\<lparr>cl_counter := counter', cl_requests := cl_requests c @ [Unsent (cl_counter c) e]\<rparr>)"
| registered: "\<not> cl_dropped c \<Longrightarrow> i < length (cl_requests c) \<Longrightarrow> cl_requests c ! i = Sent mid \<Longrightarrow>
    cstep c (Registered i) (c\<lparr>cl_router := register_pending mid i (cl_router c), cl_requests := (cl_requests c)[i := Waiting mid]\<rparr>)"
| arrived: "cl_network c = Running \<Longrightarrow> client_on_frame f (cl_router c) = Ok (effects, r') \<Longrightarrow>
    cstep c (Arrived f) (fold apply_effect effects (c\<lparr>cl_router := r'\<rparr>))"
| arrived_panic: "cl_network c = Running \<Longrightarrow> client_on_frame f (cl_router c) = Panic \<Longrightarrow>
    cstep c (Arrived f) (c\<lparr>cl_network := Crashed\<rparr>)"
| timed_out: "\<not> cl_dropped c \<Longrightarrow> i < length (cl_requests c) \<Longrightarrow> cl_requests c ! i = Waiting mid \<Longrightarrow>
    cstep c (RequestTimedOut i) (c\<lparr>cl_requests := (cl_requests c)[i := TimedOutRequest mid]\<rparr>)"
| handler_added: "\<not> cl_dropped c \<Longrightarrow> cstep c (HandlerAdded h) (c\<lparr>cl_router := add_event_handler h (cl_router c)\<rparr>)"
| network_ended: "cl_network c = Running \<Longrightarrow> cstep c NetworkEnded (c\<lparr>cl_network := Finished\<rparr>)"
| disconnected: "\<not> cl_dropped c \<Longrightarrow>
    cstep c Disconnect (if cl_network c = Running
      then c\<lparr>cl_state := ClientClosed, cl_shutdown := True, cl_shutdown_unseen := True\<rparr> else c\<lparr>cl_state := ClientClosed\<rparr>)"
| client_dropped: "\<not> cl_dropped c \<Longrightarrow>
    cstep c ClientDropped (c\<lparr>cl_dropped := True, cl_requests := map give_up (cl_requests c)\<rparr>)"
| shutdown_changed: "cl_network c = Running \<Longrightarrow> cl_shutdown_unseen c \<or> cl_dropped c \<Longrightarrow>
    cstep c ShutdownChanged (c\<lparr>cl_shutdown_unseen := False, cl_network := (if cl_shutdown c then Finished else Running)\<rparr>)"

subsection \<open>Lemmas\<close>

lemma client_send_message_fits:
  assumes "length (c2s_encode msg) \<le> MAX_ENVELOPE_PAYLOAD_SIZE" "wf_c2s msg"
  obtains f where "client_send_message True now sid msg counter = (Ok (counter, f), counter + 1)" "session_id f = sid" "length sid = 16 \<longrightarrow> wf_frame f"
    "decode_client_message (payload f) = Ok (built_envelope (c2s_message_type msg) counter 0 now (c2s_encode msg), msg)"
proof (rule encode_client_fits [OF assms(1), of counter 0 now])
  fix bs
  assume bs: "encode_client_message msg counter 0 now = Ok bs" "length bs \<le> MAX_PAYLOAD_SIZE"
    "envelope_decode bs = Ok (built_envelope (c2s_message_type msg) counter 0 now (c2s_encode msg))"
  show thesis
    by (rule that [of "\<lparr>session_id = sid, nonce = replicate 8 0, payload = bs\<rparr>"])
      (use bs assms in \<open>simp_all add: client_send_message_def next_message_id_def frame_new_def decode_client_message_def c2s_decode_encode
        wf_frame_def frame_typed_def frame_sizes\<close>)
qed

text \<open>A request in the table is one that was registered under the id it carries.\<close>

fun request_id :: "request \<Rightarrow> u64" where
  "request_id (Sent mid) = mid"
| "request_id (Unsent mid e) = mid"
| "request_id (Waiting mid) = mid"
| "request_id (Answered mid msg) = mid"
| "request_id (TimedOutRequest mid) = mid"

definition client_inv :: "client \<Rightarrow> bool" where
  "client_inv c \<longleftrightarrow> cl_counter c = of_nat (Suc (length (cl_requests c)))
     \<and> (\<forall>i < length (cl_requests c). request_id (cl_requests c ! i) = of_nat (Suc i))
     \<and> (\<forall>mid i. pending_requests (cl_router c) mid = Some i \<longrightarrow> i < length (cl_requests c) \<and> mid = of_nat (Suc i)
          \<and> (\<exists>mid'. cl_requests c ! i = Waiting mid' \<or> cl_requests c ! i = TimedOutRequest mid'))
     \<and> (\<forall>i < length (cl_requests c). \<forall>mid msg. cl_requests c ! i = Answered mid msg \<longrightarrow> s2c_is_response msg)"

lemma dispatch_event_effects: "fold apply_effect (dispatch_event hs msg) c = c\<lparr>cl_effects := cl_effects c @ dispatch_event hs msg\<rparr>"
proof -
  have "fold apply_effect (map g hs) c = c\<lparr>cl_effects := cl_effects c @ map g hs\<rparr>"
    if "\<And>h c. apply_effect (g h) c = c\<lparr>cl_effects := cl_effects c @ [g h]\<rparr>" for g
    using that by (induction hs arbitrary: c) simp_all
  then show ?thesis by (cases msg) simp_all
qed

lemma client_dispatch_cases:
  obtains i where "client_dispatch env msg r = ([Wake i msg], r\<lparr>pending_requests := (pending_requests r)(correlation_id env := None)\<rparr>)"
      "pending_requests r (correlation_id env) = Some i" "s2c_is_response msg"
  | "client_dispatch env msg r = (dispatch_event (event_handlers r) msg, r)"
      "s2c_is_response msg \<Longrightarrow> correlation_id env \<noteq> 0 \<Longrightarrow> pending_requests r (correlation_id env) = None"
proof (cases "s2c_is_response msg \<and> correlation_id env \<noteq> 0")
  case True
  then show thesis
    by (cases "pending_requests r (correlation_id env)") (auto simp: client_dispatch_def Let_def fun_upd_idem intro: that)
qed (auto simp: client_dispatch_def intro: that)

lemma client_inv_wake:
  assumes "client_inv c" "pending_requests (cl_router c) cid = Some i" "s2c_is_response msg"
  shows "client_inv (apply_effect (Wake i msg) (c\<lparr>cl_router := (cl_router c)\<lparr>pending_requests := (pending_requests (cl_router c))(cid := None)\<rparr>\<rparr>))"
proof -
  obtain mid' where i: "i < length (cl_requests c)" "cid = of_nat (Suc i)"
    "cl_requests c ! i = Waiting mid' \<or> cl_requests c ! i = TimedOutRequest mid'"
    using assms(1,2) unfolding client_inv_def by blast
  have id: "request_id (wake req m) = request_id req" for req m by (cases req) auto
  have "wake (cl_requests c ! i) msg = Answered mid m \<Longrightarrow> s2c_is_response m" for mid m using i assms(3) by auto
  moreover have "mid = cid" if "pending_requests (cl_router c) mid = Some i" for mid
    using assms(1) that i(2) by (auto simp: client_inv_def)
  ultimately show ?thesis using assms(1) i(1)
    by (auto simp: client_inv_def id nth_list_update simp del: of_nat_Suc)
qed

lemma client_inv_step:
  assumes "client_inv c" "cstep c l c'"
  shows "client_inv c'"
  using assms(2)
proof (cases rule: cstep.cases)
  case (request now sid msg mid f counter')
  then have "mid = cl_counter c" "counter' = cl_counter c + 1"
    by (auto simp: client_send_message_def next_message_id_def and_then_Ok_iff split: if_splits)
  with request assms(1) show ?thesis
    by (fastforce simp: client_inv_def nth_append less_Suc_eq)
next
  case (request_failed now sid msg e counter')
  then have "counter' = cl_counter c + 1" by (auto simp: client_send_message_def next_message_id_def)
  with request_failed assms(1) show ?thesis
    by (fastforce simp: client_inv_def nth_append less_Suc_eq)
next
  case (registered i mid)
  then have "mid = of_nat (Suc i)" using assms(1) by (force simp: client_inv_def simp del: of_nat_Suc)
  with registered assms(1) show ?thesis
    by (auto simp: client_inv_def register_pending_def nth_list_update simp del: of_nat_Suc split: if_splits)
next
  case (arrived f effects r')
  obtain env msg where d: "client_dispatch env msg (cl_router c) = (effects, r')"
    using arrived by (auto simp: client_on_frame_def Let_def split: result.splits prod.splits)
  show ?thesis
  proof (cases rule: client_dispatch_cases [of env msg "cl_router c"])
    case (1 i)
    with d arrived client_inv_wake [OF assms(1) 1(2,3)] show ?thesis by auto
  next
    case 2
    with d arrived assms(1) show ?thesis by (auto simp: client_inv_def dispatch_event_effects)
  qed
next
  case (timed_out i mid)
  then show ?thesis using assms(1) 
    by (auto simp: client_inv_def nth_list_update simp del: of_nat_Suc split: if_splits) 
next
  case client_dropped
  have "request_id (give_up req) = request_id req" for req by (cases req) auto
  moreover have "give_up req = Answered mid msg \<longleftrightarrow> req = Answered mid msg" for req mid msg by (cases req) auto
  moreover have "\<exists>m. give_up req = Waiting m \<or> give_up req = TimedOutRequest m"
    if "\<exists>m. req = Waiting m \<or> req = TimedOutRequest m" for req using that by auto
  ultimately show ?thesis using client_dropped assms(1) by (simp add: client_inv_def del: of_nat_Suc)
qed (use assms(1) in \<open>simp_all add: client_inv_def add_event_handler_def\<close>)

interpretation client_sys: invariant_system client_init cstep client_inv
proof unfold_locales
  fix c show "client_init c \<Longrightarrow> client_inv c" by (simp add: client_init_def client_inv_def client_inbound_new_def)
qed (rule client_inv_step)

subsection \<open>Waiting requests stay registered\<close>

text \<open>Until the counter wraps around, a waiting request is in the table under its id.\<close>

definition waiting_ok :: "client \<Rightarrow> bool" where
  "waiting_ok c \<longleftrightarrow> (length (cl_requests c) < 2 ^ 64 - 1 \<longrightarrow> (\<forall>i < length (cl_requests c). \<forall>mid.
     cl_requests c ! i = Waiting mid \<longrightarrow> pending_requests (cl_router c) mid = Some i))"

lemma of_nat_Suc_inj: "i < 2 ^ 64 - 1 \<Longrightarrow> j < 2 ^ 64 - 1 \<Longrightarrow> (of_nat (Suc i) :: u64) = of_nat (Suc j) \<longleftrightarrow> i = j"
  by (auto simp: word_unat_eq_iff unat_of_nat simp del: of_nat_Suc)

lemma of_nat_Suc_nonzero: "i < 2 ^ 64 - 1 \<Longrightarrow> (of_nat (Suc i) :: u64) \<noteq> 0"
  by (auto simp: word_unat_eq_iff unat_of_nat simp del: of_nat_Suc)

lemma client_inv_pending:
  "client_inv c \<Longrightarrow> pending_requests (cl_router c) mid = Some i \<Longrightarrow> i < length (cl_requests c) \<and> mid = of_nat (Suc i)"
  by (simp add: client_inv_def del: of_nat_Suc)

lemma arrived_effect:
  assumes "cstep c (Arrived f) c'" "decode_server_message (payload f) = Ok (env, msg)"
  shows "c' = (let (effects, r') = client_dispatch env msg (cl_router c) in fold apply_effect effects (c\<lparr>cl_router := r'\<rparr>))"
  using assms(1) by (cases rule: cstep.cases) (use assms(2) in \<open>auto simp: client_on_frame_def\<close>)

lemma waiting_ok_dispatch:
  assumes "client_inv c" "waiting_ok c" "client_dispatch env msg (cl_router c) = (effects, r')"
  shows "waiting_ok (fold apply_effect effects (c\<lparr>cl_router := r'\<rparr>))"
proof (cases rule: client_dispatch_cases [of env msg "cl_router c"])
  case (1 i)
  have i: "i < length (cl_requests c)" using assms(1) 1(2) by (auto simp: client_inv_def)
  have "wake (cl_requests c ! i) msg \<noteq> Waiting mid" for mid by (cases "cl_requests c ! i") auto
  with 1 i assms(2,3) show ?thesis by (auto simp: waiting_ok_def nth_list_update)
next
  case 2
  with assms show ?thesis by (auto simp: waiting_ok_def dispatch_event_effects)
qed

lemma waiting_ok_registered:
  assumes "client_inv c" "waiting_ok c" "i < length (cl_requests c)" "cl_requests c ! i = Sent mid"
  shows "waiting_ok (c\<lparr>cl_router := register_pending mid i (cl_router c), cl_requests := (cl_requests c)[i := Waiting mid]\<rparr>)"
    (is "waiting_ok ?c")
proof -
  have "request_id (cl_requests c ! j) = of_nat (Suc j)" if "j < length (cl_requests c)" for j
    using assms(1) that by (simp add: client_inv_def del: of_nat_Suc)
  then have ids: "mid = of_nat (Suc i)" "cl_requests c ! j = Waiting m \<Longrightarrow> j < length (cl_requests c) \<Longrightarrow> m = of_nat (Suc j)" for j m
    using assms(3,4) by (metis request_id.simps)+
  have "pending_requests (cl_router ?c) m = Some j"
    if j: "length (cl_requests c) < 2 ^ 64 - 1" "j < length (cl_requests c)" "cl_requests ?c ! j = Waiting m" for j m
  proof (cases "j = i")
    case True
    with j assms(3) show ?thesis by (simp add: register_pending_def)
  next
    case False
    with j ids(2) [of j m] assms(2) have "m = of_nat (Suc j)" "pending_requests (cl_router c) m = Some j"
      by (auto simp: waiting_ok_def)
    with False j assms(3) ids(1) show ?thesis
      using of_nat_Suc_inj [of i j] by (simp add: register_pending_def del: of_nat_Suc)
  qed
  then show ?thesis by (simp add: waiting_ok_def)
qed

lemma waiting_ok_step:
  assumes "client_inv c" "waiting_ok c" "cstep c l c'"
  shows "waiting_ok c'"
  using assms(3)
proof (cases rule: cstep.cases)
  case (request now sid msg mid f counter')
  then show ?thesis using assms(2) by (auto simp: waiting_ok_def nth_append less_Suc_eq)
next
  case (request_failed now sid msg e counter')
  then show ?thesis using assms(2) by (auto simp: waiting_ok_def nth_append less_Suc_eq)
next
  case (registered i mid)
  then show ?thesis using waiting_ok_registered [OF assms(1,2)] by simp
next
  case (arrived f effects r')
  obtain env msg where "client_dispatch env msg (cl_router c) = (effects, r')"
    using arrived by (auto simp: client_on_frame_def Let_def split: result.splits prod.splits)
  then show ?thesis using waiting_ok_dispatch [OF assms(1,2)] arrived by simp
next
  case (timed_out i mid)
  then show ?thesis using assms(2) by (auto simp: waiting_ok_def nth_list_update)
next
  case client_dropped
  have "give_up req \<noteq> Waiting m" for req m by (cases req) auto
  with client_dropped show ?thesis by (simp add: waiting_ok_def)
qed (use assms(2) in \<open>simp_all add: waiting_ok_def add_event_handler_def\<close>)

interpretation waiting_sys: invariant_system client_init cstep "\<lambda>c. client_inv c \<and> waiting_ok c"
proof unfold_locales
  fix c show "client_init c \<Longrightarrow> client_inv c \<and> waiting_ok c"
    using client_sys.inv_init by (auto simp: client_init_def waiting_ok_def)
qed (use client_sys.inv_step waiting_ok_step in blast)

lemma waiting_pending:
  "waiting_ok c \<Longrightarrow> length (cl_requests c) < 2 ^ 64 - 1 \<Longrightarrow> i < length (cl_requests c) \<Longrightarrow> cl_requests c ! i = Waiting mid
   \<Longrightarrow> pending_requests (cl_router c) mid = Some i"
  by (simp add: waiting_ok_def)

lemma waiting_id:
  assumes "client_inv c" "length (cl_requests c) < 2 ^ 64 - 1" "i < length (cl_requests c)" "cl_requests c ! i = Waiting mid"
  shows "mid \<noteq> 0"
proof -
  have "request_id (cl_requests c ! i) = of_nat (Suc i)" using assms(1,3) by (simp add: client_inv_def del: of_nat_Suc)
  then have mid: "mid = of_nat (Suc i)" unfolding assms(4) by (simp only: request_id.simps)
  show ?thesis unfolding mid by (rule of_nat_Suc_nonzero [OF less_trans [OF assms(3,2)]])
qed

lemma dispatch_waiting:
  assumes "client_inv c" "pending_requests (cl_router c) mid = Some i" "mid \<noteq> 0"
    and "i < length (cl_requests c)" "cl_requests c ! i = Waiting mid" "s2c_is_response msg"
    and "client_dispatch env msg (cl_router c) = (effects, r')"
  shows "cl_requests (fold apply_effect effects (c\<lparr>cl_router := r'\<rparr>)) ! i
    = (if correlation_id env = mid then Answered mid msg else Waiting mid)"
proof (cases rule: client_dispatch_cases [of env msg "cl_router c"])
  case (1 j)
  note jc = client_inv_pending [OF assms(1) 1(2)] and ic = client_inv_pending [OF assms(1,2)]
  have reqs: "cl_requests (fold apply_effect effects (c\<lparr>cl_router := r'\<rparr>)) = (cl_requests c)[j := wake (cl_requests c ! j) msg]"
    using 1(1) assms(7) conjunct1 [OF jc] by simp
  show ?thesis
  proof (cases "j = i")
    case True
    have "correlation_id env = mid" using conjunct2 [OF jc] conjunct2 [OF ic] unfolding True by (rule trans [OF _ sym])
    then show ?thesis unfolding reqs using True assms(4,5) by simp
  next
    case False
    have "correlation_id env \<noteq> mid" using 1(2) assms(2) False by force
    then show ?thesis unfolding reqs using False assms(5) by simp
  qed
next
  case 2
  have "correlation_id env \<noteq> mid" using 2(2) [OF assms(6)] assms(2,3) by auto
  moreover have "cl_requests (fold apply_effect effects (c\<lparr>cl_router := r'\<rparr>)) = cl_requests c"
    using assms(7) 2(1) by (auto simp: dispatch_event_effects)
  ultimately show ?thesis using assms(5) by simp
qed

subsection \<open>The end of the network task\<close>

text \<open>A task that is over stays over, and answers nothing.\<close>

lemma over_step:
  assumes "cstep c l c'" "cl_network c \<noteq> Running"
  shows "cl_network c' = cl_network c" "length (cl_requests c) \<le> length (cl_requests c')"
    and "\<forall>i < length (cl_requests c'). \<forall>mid msg. cl_requests c' ! i = Answered mid msg \<longrightarrow>
      i < length (cl_requests c) \<and> cl_requests c ! i = Answered mid msg"
    and "l = Request msg \<Longrightarrow> \<exists>e. cl_requests c' = cl_requests c @ [Unsent (cl_counter c) e]"
proof -
  have gu: "give_up req = Answered mid msg \<longleftrightarrow> req = Answered mid msg" for req mid msg by (cases req) auto
  have no: "client_send_message False now sid msg k \<noteq> (Ok x, k')" for now sid msg k x k'
    by (auto simp: client_send_message_def next_message_id_def and_then_Ok_iff)
  show "cl_network c' = cl_network c" "length (cl_requests c) \<le> length (cl_requests c')"
    using assms by (cases rule: cstep.cases; simp)+
  show "\<forall>i < length (cl_requests c'). \<forall>mid msg. cl_requests c' ! i = Answered mid msg \<longrightarrow>
      i < length (cl_requests c) \<and> cl_requests c ! i = Answered mid msg"
    using assms by (cases rule: cstep.cases) (auto simp: gu nth_append nth_list_update split: if_splits)
  show "l = Request msg \<Longrightarrow> \<exists>e. cl_requests c' = cl_requests c @ [Unsent (cl_counter c) e]"
    using assms no by (cases rule: cstep.cases) auto
qed

text \<open>From \<open>disconnect\<close> on the task can leave its loop at any time, until it is over.\<close>

definition told_to_leave :: "client \<Rightarrow> bool" where
  "told_to_leave c \<longleftrightarrow> cl_network c \<noteq> Running \<or> cl_shutdown c \<and> (cl_shutdown_unseen c \<or> cl_dropped c)"

lemma fold_effects_control:
  "cl_network (fold apply_effect es c) = cl_network c \<and> cl_shutdown (fold apply_effect es c) = cl_shutdown c
   \<and> cl_shutdown_unseen (fold apply_effect es c) = cl_shutdown_unseen c \<and> cl_dropped (fold apply_effect es c) = cl_dropped c"
proof (induction es arbitrary: c)
  case (Cons e es)
  then show ?case by (cases e) simp_all
qed simp

lemma told_to_leave_step: "cstep c l c' \<Longrightarrow> told_to_leave c \<Longrightarrow> told_to_leave c'"
  by (erule cstep.cases) (auto simp: told_to_leave_def fold_effects_control)

lemma told_to_leave_runs: "runs cstep c ls c' \<Longrightarrow> told_to_leave c \<Longrightarrow> told_to_leave c'"
  by (induction rule: runs.induct) (auto dest: told_to_leave_step)

subsection \<open>Sample runs\<close>

definition fresh_client :: client where
  "fresh_client = \<lparr>cl_counter = 1, cl_router = client_inbound_new, cl_requests = [], cl_effects = [], cl_network = Running,
     cl_state = Connected, cl_shutdown = False, cl_shutdown_unseen = False, cl_dropped = False\<rparr>"

definition sent_client :: client where
  "sent_client = fresh_client\<lparr>cl_counter := 2, cl_requests := [Sent 1]\<rparr>"

definition waiting_client :: client where
  "waiting_client = fresh_client\<lparr>cl_counter := 2, cl_router := register_pending 1 0 client_inbound_new, cl_requests := [Waiting 1]\<rparr>"

lemmas sample_client_defs = fresh_client_def sent_client_def waiting_client_def

lemma ping_sent: "cstep fresh_client (Request (C2S_Heartbeat 42)) sent_client"
proof -
  obtain f where "client_send_message True 0 (replicate 16 0) (C2S_Heartbeat 42) 1 = (Ok (1, f), 1 + 1)"
    using client_send_message_fits [of "C2S_Heartbeat 42" 0 "replicate 16 0" 1] by (auto simp: frame_sizes)
  then show ?thesis
    using request [of fresh_client 0 "replicate 16 0" "C2S_Heartbeat 42" 1 f 2] by (simp add: sample_client_defs)
qed

lemma waiting_client_reachable: "reachable_from client_init cstep waiting_client"
proof -
  have "reachable_from client_init cstep fresh_client"
    by (rule reach_init) (simp add: client_init_def sample_client_defs)
  moreover have "cstep sent_client (Registered 0) waiting_client"
    using registered [of sent_client 0 1] by (simp add: sample_client_defs)
  ultimately show ?thesis using ping_sent by (meson reach_step)
qed

lemma heartbeat_response_frame:
  "\<exists>(f :: Frame) env. decode_server_message (payload f) = Ok (env, S2C_HeartbeatResponse 42) \<and> correlation_id env = 1"
proof -
  obtain bs where "envelope_decode bs = Ok (built_envelope HeartbeatResponse 1 1 0 (put_u64 42))"
    using encode_server_fits [of "S2C_HeartbeatResponse 42" 1 1 0] by (auto simp: frame_sizes)
  then have "decode_server_message bs = Ok (built_envelope HeartbeatResponse 1 1 0 (put_u64 42), S2C_HeartbeatResponse 42)"
    using s2c_decode_encode [of "S2C_HeartbeatResponse 42"] by (simp add: decode_server_message_def)
  then show ?thesis
    by (intro exI [of _ "\<lparr>session_id = [], nonce = [], payload = bs\<rparr>"]) auto
qed

lemma decode_server_bad_version:
  "b \<noteq> 1 \<Longrightarrow> 29 \<le> length rest \<Longrightarrow> decode_server_message (b # rest) = Err (UnsupportedVersion 1 b)"
  by (simp add: decode_server_message_def envelope_decode_def get_u8_def version_from_u8_def ENVELOPE_HEADER_SIZE_def)

subsection \<open>Properties\<close>

text \<open>C18: responses find their requests. In every reachable state of the client (before the 64-bit message counter wraps
  around), when a frame with a response arrives, a request that waits is completed by it exactly if the response
  carries the request's id as its correlation id, and otherwise keeps waiting; no other request can take it.\<close>

theorem response_finds_request:
  assumes "reachable_from client_init cstep c" "length (cl_requests c) < 2 ^ 64 - 1"
    and "i < length (cl_requests c)" "cl_requests c ! i = Waiting mid"
    and "decode_server_message (payload f) = Ok (env, msg)" "s2c_is_response msg" "cstep c (Arrived f) c'"
  shows "cl_requests c' ! i = (if correlation_id env = mid then Answered mid msg else Waiting mid)"
proof -
  have inv: "client_inv c" "waiting_ok c" using waiting_sys.reachable_inv [OF assms(1)] by simp_all
  note pending = waiting_pending [OF inv(2) assms(2-4)] and mid = waiting_id [OF inv(1) assms(2-4)]
  obtain effects r' where d: "client_dispatch env msg (cl_router c) = (effects, r')" by fastforce
  show ?thesis
    using dispatch_waiting [OF inv(1) pending mid assms(3,4,6) d] arrived_effect [OF assms(7,5)]
    by (simp only: d Let_def prod.case)
qed

theorem response_finds_request_witness:
  "\<exists>f c'. cstep waiting_client (Arrived f) c' \<and> cl_requests c' ! 0 = Answered 1 (S2C_HeartbeatResponse 42)"
proof -
  obtain f :: Frame and env where f: "decode_server_message (payload f) = Ok (env, S2C_HeartbeatResponse 42)" "correlation_id env = 1"
    using heartbeat_response_frame by blast
  obtain effects r' where "client_on_frame f (cl_router waiting_client) = Ok (effects, r')"
    using f(1) by (cases "client_dispatch env (S2C_HeartbeatResponse 42) (cl_router waiting_client)") (simp add: client_on_frame_def)
  then obtain c' where c': "cstep waiting_client (Arrived f) c'"
    using arrived [of waiting_client f effects r'] by (auto simp: sample_client_defs)
  have "cl_requests c' ! 0 = (if correlation_id env = 1 then Answered 1 (S2C_HeartbeatResponse 42) else Waiting 1)"
    by (rule response_finds_request [OF waiting_client_reachable _ _ _ f(1) _ c'])
      (simp_all add: sample_client_defs s2c_is_response_def is_response_def)
  with c' f(2) show ?thesis by auto
qed

text \<open>C35: which frames stop the client's network task: exactly those whose payload is no server message and longer than
  an envelope's payload may be. The task wraps such a payload in a synthetic envelope and unwraps the error; since the
  relay forwards raw frames unchanged, any registered peer can send one.\<close>

theorem client_frame_panics_iff:
  "(client_on_frame f r = Panic \<longleftrightarrow>
     (\<exists>e. decode_server_message (payload f) = Err e) \<and> MAX_ENVELOPE_PAYLOAD_SIZE < length (payload f))
   \<and> (\<exists>f. wf_frame f \<and> client_on_frame f r = Panic)"
proof -
  have iff: "client_on_frame f r = Panic \<longleftrightarrow>
     (\<exists>e. decode_server_message (payload f) = Err e) \<and> MAX_ENVELOPE_PAYLOAD_SIZE < length (payload f)" for f
    using decode_server_no_panic [of "payload f"]
    by (cases "decode_server_message (payload f)") (auto simp: client_on_frame_def envelope_new_eq Let_def)
  have "wf_frame \<lparr>session_id = replicate 16 1, nonce = replicate 8 0, payload = 255 # replicate 1393 0\<rparr>"
    by (simp add: wf_frame_def frame_typed_def frame_sizes)
  moreover have "decode_server_message (255 # replicate 1393 0) = Err (UnsupportedVersion 1 255)"
    by (rule decode_server_bad_version) simp_all
  ultimately show ?thesis using iff by (force simp: frame_sizes)
qed

text \<open>C34: a response can be lost to the order in which the client sends and registers. A client that sends a ping, whose
  correlated response arrives before the client has registered the request, drops the response and then waits for it:
  there is such a run from the initial state.\<close>

theorem response_lost_before_registration:
  "\<exists>c0 c f env. client_init c0 \<and> runs cstep c0 [Request (C2S_Heartbeat 42), Arrived f, Registered 0] c
    \<and> decode_server_message (payload f) = Ok (env, S2C_HeartbeatResponse 42) \<and> correlation_id env = 1
    \<and> cl_requests c = [Waiting 1] \<and> cl_effects c = []"
proof -
  obtain f :: Frame and env where f: "decode_server_message (payload f) = Ok (env, S2C_HeartbeatResponse 42)" "correlation_id env = 1"
    using heartbeat_response_frame by blast
  have "client_dispatch env (S2C_HeartbeatResponse 42) client_inbound_new = ([], client_inbound_new :: nat ClientInboundRouter)"
    using f(2) by (simp add: client_dispatch_def client_inbound_new_def Let_def)
  then have s2: "cstep sent_client (Arrived f) sent_client"
    using arrived [of sent_client f "[]" client_inbound_new] f(1) by (simp add: client_on_frame_def sample_client_defs)
  have s3: "cstep sent_client (Registered 0) waiting_client"
    using registered [of sent_client 0 1] by (simp add: sample_client_defs)
  have "runs cstep fresh_client [Request (C2S_Heartbeat 42), Arrived f, Registered 0] waiting_client"
    using ping_sent s2 s3 by (auto intro: runs.intros)
  with f show ?thesis
    by (intro exI [of _ fresh_client] exI [of _ waiting_client] exI [of _ f] exI [of _ env])
      (simp add: client_init_def sample_client_defs)
qed

text \<open>Disconnecting takes effect: whatever happens after \<open>disconnect\<close>, the network task is over or its next turn can end
  it; and once it is over, no request is answered any more and every further request fails.\<close>

theorem disconnect_ends_client:
  assumes "cstep c Disconnect c1" "runs cstep c1 ls c2"
  shows "cl_network c2 \<noteq> Running \<or> (\<exists>c3. cstep c2 ShutdownChanged c3 \<and> cl_network c3 = Finished)"
    and "cl_network c2 \<noteq> Running \<Longrightarrow> cstep c2 l c3 \<Longrightarrow> cl_network c3 \<noteq> Running
      \<and> (\<forall>i < length (cl_requests c3). \<forall>mid msg. cl_requests c3 ! i = Answered mid msg \<longrightarrow>
           i < length (cl_requests c2) \<and> cl_requests c2 ! i = Answered mid msg)
      \<and> (\<forall>msg. l = Request msg \<longrightarrow> (\<exists>e. cl_requests c3 = cl_requests c2 @ [Unsent (cl_counter c2) e]))"
proof -
  have "told_to_leave c1" using assms(1) by (cases rule: cstep.cases) (auto simp: told_to_leave_def)
  then have "told_to_leave c2" by (rule told_to_leave_runs [OF assms(2)])
  then show "cl_network c2 \<noteq> Running \<or> (\<exists>c3. cstep c2 ShutdownChanged c3 \<and> cl_network c3 = Finished)"
    using shutdown_changed [of c2] by (fastforce simp: told_to_leave_def)
next
  assume over: "cl_network c2 \<noteq> Running" and step: "cstep c2 l c3"
  show "cl_network c3 \<noteq> Running
      \<and> (\<forall>i < length (cl_requests c3). \<forall>mid msg. cl_requests c3 ! i = Answered mid msg \<longrightarrow>
           i < length (cl_requests c2) \<and> cl_requests c2 ! i = Answered mid msg)
      \<and> (\<forall>msg. l = Request msg \<longrightarrow> (\<exists>e. cl_requests c3 = cl_requests c2 @ [Unsent (cl_counter c2) e]))"
    using over_step [OF step over] over by auto
qed

text \<open>Dropping the client without \<open>disconnect\<close> does not end its network task: the task turns in its loop without waiting
  for anything, for as long as the stream stays open.\<close>

theorem dropped_client_spins:
  assumes "cl_network c = Running" "\<not> cl_shutdown c" "\<not> cl_shutdown_unseen c" "\<not> cl_dropped c" "cstep c ClientDropped c'"
  shows "cstep c' ShutdownChanged c'"
proof -
  have c': "cl_network c' = Running" "\<not> cl_shutdown c'" "\<not> cl_shutdown_unseen c'" "cl_dropped c'"
    using assms(5) by (cases rule: cstep.cases; use assms(1-3) in simp)+
  then have same: "c'\<lparr>cl_shutdown_unseen := False, cl_network := Running\<rparr> = c'" by (cases c') simp
  have "cstep c' ShutdownChanged (c'\<lparr>cl_shutdown_unseen := False, cl_network := Running\<rparr>)"
    using shutdown_changed [of c'] c' by simp
  then show ?thesis by (simp only: same)
qed

end
