(* ===== verification/Connect.thy ===== *)
theory Connect
  imports Listener Noise Client
begin

section \<open>Connecting\<close>

text \<open>
  Where the parts meet on one connection: \<open>EchoMeshClient::connect\<close> and \<open>disconnect\<close> of \<open>src/client/api.rs\<close>, which
  send the camouflage record and run the client's handshake, and the way the session function of
  \<open>src/server/routed_listener.rs\<close> receives its frames. The lemmas show that a client with the relay's token and public
  key gets an encrypted session on every fragmentation of what it sends, and that the routed listener's own reading of
  packets agrees with \<open>recv_frame\<close>.
\<close>

subsection \<open>The client's connection\<close>

record ('addr, 't) EchoMeshClient =
  emc_framed :: "'t NoiseFramedStream"
  emc_session :: "'addr ClientSession"
  emc_shutdown :: bool
  emc_state :: ClientState

text \<open>From the connected TCP stream on; \<open>show_noise\<close> is the display text of a Noise error, and \<open>connected\<close> the result
  of \<open>TcpStream::connect\<close>. The stream is also part of the value when the function fails, as what was done to it.\<close>

definition client_connect ::
    "('h, 't, 's) snow \<Rightarrow> ('s NoiseError \<Rightarrow> bytes) \<Rightarrow> 'addr \<Rightarrow> bytes \<Rightarrow> bytes \<Rightarrow> (io_error_kind, unit) result
      \<Rightarrow> Stream \<Rightarrow> ('s EchoMeshError, ('addr, 't) EchoMeshClient) result \<times> Stream" where
  "client_connect S show_noise relay_addr token server_pubkey connected =
     io_then (io_lift (map_err (\<lambda>e. Transport (TransportIo e)) connected)) (\<lambda>_.
     io_then (io_err (\<lambda>e. Transport (TransportIo e)) (stream_write_all (build (pseudo_tls_new token (lit ''cloudflare.com''))))) (\<lambda>_.
     io_then (io_err (\<lambda>e. Transport (MalformedHeader (show_noise e))) (client_noise_handshake S server_pubkey)) (\<lambda>noise_session stream.
       (Ok \<lparr>emc_framed = \<lparr>nf_stream = stream, nf_session = noise_session\<rparr>,
            emc_session = (client_session_new relay_addr)\<lparr>is_authenticated := True\<rparr>,
            emc_shutdown = False, emc_state = Connected\<rparr>, stream))))"

definition disconnect :: "('addr, 't) EchoMeshClient \<Rightarrow> ('s EchoMeshError, unit) result \<times> ('addr, 't) EchoMeshClient" where
  "disconnect c = (Ok (), c\<lparr>emc_state := ClientClosed, emc_shutdown := True\<rparr>)"

text \<open>The results of \<open>send_message\<close> and \<open>ping\<close>, from the outcome of the wait: \<open>None\<close> when the timeout expired,
  otherwise the answer or, as \<open>Err ()\<close>, that the sender of the answer was dropped. \<open>show\<close> is the debug text.\<close>

definition await_response :: "(unit, ServerToClientMessage) result option \<Rightarrow> ('s EchoMeshError, ServerToClientMessage) result" where
  "await_response outcome =
     (case outcome of None \<Rightarrow> Err (Transport Timeout) | Some r \<Rightarrow> map_err (\<lambda>_. Routing ChannelClosed) r)"

definition ping_result ::
    "(ServerToClientMessage \<Rightarrow> bytes) \<Rightarrow> (unit, ServerToClientMessage) result option \<Rightarrow> ('s EchoMeshError, u64) result" where
  "ping_result show outcome =
     and_then (await_response outcome) (\<lambda>resp. case resp of
        S2C_HeartbeatResponse seq \<Rightarrow> Ok seq
      | other \<Rightarrow> Err (Routing (HandlerFailed (lit ''unexpected response: '' @ show other))))"

subsection \<open>Reading packets in the routed listener\<close>

definition routed_recv :: "('h, 't, 's) snow \<Rightarrow> 't NoiseFramedStream \<Rightarrow> ('s NoiseError, Frame option) result \<times> 't NoiseFramedStream" where
  "routed_recv S s =
     (case on_stream stream_read_u16 s of
        (Panic, s1) \<Rightarrow> (Panic, s1)
      | (Err e, s1) \<Rightarrow> (if e = UnexpectedEof then Ok None else Err (NoiseIo e), s1)
      | (Ok w, s1) \<Rightarrow>
          (let len = unat w in
           if len = 0 \<or> len > ENCRYPTED_FRAME_SIZE then (Err (NoiseIo InvalidData), s1)
           else io_then (on_stream (io_err NoiseIo (stream_read_exact len))) (\<lambda>buf.
                io_then (on_session (decrypt_frame S buf)) (\<lambda>frame. io_lift (Ok (Some frame)))) s1))"

lemma routed_recv_eq:
  "routed_recv S s =
     (case on_stream stream_read_u16 s of
        (Ok w, s1) \<Rightarrow> if unat w = 0 \<or> unat w > ENCRYPTED_FRAME_SIZE then (Err (NoiseIo InvalidData), s1) else recv_frame S s
      | _ \<Rightarrow> recv_frame S s)"
  by (auto simp: routed_recv_def recv_frame_def Let_def split: prod.splits result.splits)

text \<open>The packets accepted are the same, since an empty packet holds no frame.\<close>

lemma routed_recv_agrees:
  assumes "snow_tag S"
  shows "routed_recv S s = (Ok (Some f), s') \<longleftrightarrow> recv_frame S s = (Ok (Some f), s')"
    "fst (routed_recv S s) = Ok None \<longleftrightarrow> fst (recv_frame S s) = Ok None"
proof -
  obtain r s1 where r: "on_stream stream_read_u16 s = (r, s1)" by fastforce
  have none: "fst (recv_frame S s) \<noteq> Ok None" "\<And>f s'. recv_frame S s = (Ok (Some f), s') \<Longrightarrow> 0 < unat w \<and> unat w \<le> ENCRYPTED_FRAME_SIZE"
    if "r = Ok w" for w
  proof -
    show "fst (recv_frame S s) \<noteq> Ok None"
      using r that by (auto simp: recv_frame_def Let_def io_then_def io_lift_def split: prod.splits result.splits if_splits)
    fix f s' assume "recv_frame S s = (Ok (Some f), s')"
    then obtain ct where "incoming (nf_stream s) = put_u16 (of_nat ENCRYPTED_FRAME_SIZE) @ ct @ incoming (nf_stream s')"
      by (rule recv_frame_Some [OF assms])
    then have "w = of_nat ENCRYPTED_FRAME_SIZE" using r that by (simp add: on_stream_def stream_read_u16_append)
    then show "0 < unat w \<and> unat w \<le> ENCRYPTED_FRAME_SIZE" by (simp add: frame_sizes)
  qed
  show "routed_recv S s = (Ok (Some f), s') \<longleftrightarrow> recv_frame S s = (Ok (Some f), s')"
  proof (cases r)
    case (Ok w)
    then show ?thesis
      using none(2) [OF Ok, of f s'] by (cases "recv_frame S s = (Ok (Some f), s')") (auto simp: routed_recv_eq r)
  qed (simp_all add: routed_recv_eq r)
  show "fst (routed_recv S s) = Ok None \<longleftrightarrow> fst (recv_frame S s) = Ok None"
    using none(1) by (cases r) (auto simp: routed_recv_eq r)
qed

subsection \<open>Properties\<close>

text \<open>C3: a client with the relay's token and public key gets a session. The client's \<open>connect\<close> succeeds on the answer
  the relay gives; what it writes is its camouflage record and its handshake message; and however the network
  fragments that (the first read returns any non-empty part, the rest comes later, followed by anything), the routed
  listener starts a session whose handshake succeeds, consumes exactly those bytes and writes that answer. Both sides
  then hold connected sessions.\<close>

theorem client_gets_session:
  assumes "token \<noteq> []" "snow_nk S chan n priv pub"
  shows "\<exists>wire m1 m2 a b. wire = build (pseudo_tls_new token (lit ''cloudflare.com'')) @ m1 \<and> chan n a b \<and> chan n b a
    \<and> (\<forall>c rest. write_fault c = None \<longrightarrow> incoming c = m2 @ rest \<longrightarrow>
        (\<exists>client. client_connect S show_noise addr token pub (Ok ()) c
            = (Ok client, c\<lparr>incoming := rest, outgoing := outgoing c @ wire\<rparr>)
          \<and> nf_session (emc_framed client) = a \<and> nf_stream (emc_framed client) = c\<lparr>incoming := rest, outgoing := outgoing c @ wire\<rparr>
          \<and> emc_state client = Connected))
    \<and> (\<forall>initial later tail. initial \<noteq> [] \<longrightarrow> initial @ later = wire @ tail \<longrightarrow>
        (\<exists>ps later'. routed_handle_connection (token_validator_new token) cfg_insecure var stalled (Ok initial) later
            = Ok (NoiseSession ps, later')
          \<and> (\<forall>s. incoming s = unread ps \<and> write_fault s = None \<longrightarrow>
              server_noise_handshake S priv s = (Ok b, s\<lparr>incoming := tail, outgoing := outgoing s @ m2\<rparr>))))"
proof -
  obtain m1 m2 a b where chan: "chan n a b" "chan n b a"
    and server: "\<And>s rest. write_fault s = None \<Longrightarrow> incoming s = m1 @ rest \<Longrightarrow>
        server_noise_handshake S priv s = (Ok b, s\<lparr>incoming := rest, outgoing := outgoing s @ m2\<rparr>)"
    and client: "\<And>c rest. write_fault c = None \<Longrightarrow> incoming c = m2 @ rest \<Longrightarrow>
        client_noise_handshake S pub c = (Ok a, c\<lparr>incoming := rest, outgoing := outgoing c @ m1\<rparr>)"
    using handshake_agrees [OF assms(2)] by blast
  let ?hello = "build (pseudo_tls_new token (lit ''cloudflare.com''))"
  have host: "length (lit ''cloudflare.com'') \<le> 3926" "utf8_valid (lit ''cloudflare.com'')" by code_simp+
  have "\<exists>ps later'. routed_handle_connection (token_validator_new token) cfg_insecure var stalled (Ok initial) later
            = Ok (NoiseSession ps, later')
          \<and> (\<forall>s. incoming s = unread ps \<and> write_fault s = None \<longrightarrow>
              server_noise_handshake S priv s = (Ok b, s\<lparr>incoming := tail, outgoing := outgoing s @ m2\<rparr>))"
    if "initial \<noteq> []" "initial @ later = (?hello @ m1) @ tail" for initial later tail
    using hello_starts_session [OF assms(1) host that(1), of later "m1 @ tail" cfg_insecure var stalled] that(2) server by auto
  moreover have "client_connect S show_noise addr token pub (Ok ()) c =
      (Ok \<lparr>emc_framed = \<lparr>nf_stream = c\<lparr>incoming := rest, outgoing := outgoing c @ ?hello @ m1\<rparr>, nf_session = a\<rparr>,
            emc_session = (client_session_new addr)\<lparr>is_authenticated := True\<rparr>, emc_shutdown = False, emc_state = Connected\<rparr>,
       c\<lparr>incoming := rest, outgoing := outgoing c @ ?hello @ m1\<rparr>)"
    if "write_fault c = None" "incoming c = m2 @ rest" for c rest
    using client [of "c\<lparr>outgoing := outgoing c @ ?hello\<rparr>" rest] that
    by (simp add: client_connect_def io_then_def io_lift_def io_err_def stream_write_all_def)
  ultimately show ?thesis using chan
    by (intro exI [of _ "?hello @ m1"] exI [of _ m1] exI [of _ m2] exI [of _ a] exI [of _ b]) simp
qed

theorem client_gets_session_witness:
  "\<exists>wire m2 b client c'. client_connect counting_snow (\<lambda>_. []) () [5, 6] [2] (Ok ()) (sample_stream\<lparr>incoming := m2\<rparr>) = (Ok client, c')
     \<and> outgoing c' = wire
     \<and> (\<exists>ps later. routed_handle_connection (token_validator_new [5, 6]) False None TimedOut (Ok wire) [] = Ok (NoiseSession ps, later)
          \<and> (\<exists>s'. server_noise_handshake counting_snow [1] (sample_stream\<lparr>incoming := unread ps\<rparr>) = (Ok b, s') \<and> outgoing s' = m2))"
proof -
  obtain wire m1 m2 a b where wire: "wire = build (pseudo_tls_new [5, 6] (lit ''cloudflare.com'')) @ m1"
    and client: "\<forall>c rest. write_fault c = None \<longrightarrow> incoming c = m2 @ rest \<longrightarrow>
        (\<exists>client. client_connect counting_snow (\<lambda>_. []) () [5, 6] [2] (Ok ()) c
            = (Ok client, c\<lparr>incoming := rest, outgoing := outgoing c @ wire\<rparr>)
          \<and> nf_session (emc_framed client) = a \<and> nf_stream (emc_framed client) = c\<lparr>incoming := rest, outgoing := outgoing c @ wire\<rparr>
          \<and> emc_state client = Connected)"
    and server: "\<forall>initial later tail. initial \<noteq> [] \<longrightarrow> initial @ later = wire @ tail \<longrightarrow>
        (\<exists>ps later'. routed_handle_connection (token_validator_new [5, 6]) False None TimedOut (Ok initial) later
            = Ok (NoiseSession ps, later')
          \<and> (\<forall>s. incoming s = unread ps \<and> write_fault s = None \<longrightarrow>
              server_noise_handshake counting_snow [1] s = (Ok b, s\<lparr>incoming := tail, outgoing := outgoing s @ m2\<rparr>)))"
    using client_gets_session [OF _ counting_snow_nk [of 0 "[1]" "[2]"], of "[5, 6]" "\<lambda>_. []" "()" False None TimedOut]
    by (elim meta_impE exE conjE) (simp, rule that)
  obtain cl where cl: "client_connect counting_snow (\<lambda>_. []) () [5, 6] [2] (Ok ()) (sample_stream\<lparr>incoming := m2\<rparr>)
      = (Ok cl, sample_stream\<lparr>incoming := [], outgoing := wire\<rparr>)"
    using client [THEN spec, THEN spec, of "sample_stream\<lparr>incoming := m2\<rparr>" "[]"] by (auto simp: sample_stream_def)
  have "wire \<noteq> []" using wire by (simp add: build_def Let_def)
  then obtain ps later where "routed_handle_connection (token_validator_new [5, 6]) False None TimedOut (Ok wire) [] = Ok (NoiseSession ps, later)"
    "server_noise_handshake counting_snow [1] (sample_stream\<lparr>incoming := unread ps\<rparr>) = (Ok b, sample_stream\<lparr>incoming := [], outgoing := m2\<rparr>)"
    using server [THEN spec, THEN spec, THEN spec, of wire "[]" "[]"] by (auto simp: sample_stream_def)
  with cl show ?thesis by (intro exI [of _ wire] exI [of _ m2]) auto
qed

end
