(* ===== verification/Debug_Output.thy ===== *)
theory Debug_Output
  imports Relay_Config Connect
begin

section \<open>Debug output\<close>

text \<open>
  The implementations of \<open>Debug\<close> and \<open>Display\<close> for the values that carry secrets, in every module: the text that
  \<open>{:?}\<close> writes into logs and error messages. \<open>debug_struct\<close> writes the name of the type and its fields; how the
  standard library writes a string (\<open>esc\<close>), a path, an address or an instant is an argument. The lemmas show that
  the output of each type is a function of its public part, and that the one type with a derived implementation, the
  listener's configuration, writes the token.
\<close>

subsection \<open>Writing fields\<close>

fun join_comma :: "bytes list \<Rightarrow> bytes" where
  "join_comma [] = []"
| "join_comma [x] = x"
| "join_comma (x # y # zs) = x @ lit '', '' @ join_comma (y # zs)"

definition debug_struct :: "string \<Rightarrow> (string \<times> bytes) list \<Rightarrow> bytes" where
  "debug_struct name fs =
     lit name @ lit '' { '' @ join_comma (map (\<lambda>(f, v). lit f @ lit '': '' @ v) fs) @ lit '' }''"

definition quoted :: "bytes \<Rightarrow> bytes" where
  "quoted t = [34] @ t @ [34]"

abbreviation redacted :: bytes where
  "redacted \<equiv> quoted (lit ''[REDACTED]'')"

definition debug_bytes :: "bytes \<Rightarrow> bytes" where
  "debug_bytes bs = lit ''['' @ join_comma (map (\<lambda>b. decimal (unat b)) bs) @ lit '']''"

definition debug_bool :: "bool \<Rightarrow> bytes" where
  "debug_bool b = (if b then lit ''true'' else lit ''false'')"

definition debug_option :: "bytes option \<Rightarrow> bytes" where
  "debug_option v = (case v of Some t \<Rightarrow> lit ''Some('' @ t @ lit '')'' | None \<Rightarrow> lit ''None'')"

subsection \<open>Frames, envelopes and messages\<close>

definition frame_debug :: "Frame \<Rightarrow> bytes" where
  "frame_debug f = debug_struct ''Frame''
     [(''session_id'', redacted), (''nonce'', debug_bytes (nonce f)), (''payload_len'', decimal (length (payload f)))]"

fun version_debug :: "ProtocolVersion \<Rightarrow> bytes" where
  "version_debug V1 = lit ''V1''"

fun message_type_debug :: "MessageType \<Rightarrow> bytes" where
  "message_type_debug AuthRequest = lit ''AuthRequest''"
| "message_type_debug ConnectRequest = lit ''ConnectRequest''"
| "message_type_debug DisconnectRequest = lit ''DisconnectRequest''"
| "message_type_debug SendMessage = lit ''SendMessage''"
| "message_type_debug Ack = lit ''Ack''"
| "message_type_debug Heartbeat = lit ''Heartbeat''"
| "message_type_debug KeyExchange = lit ''KeyExchange''"
| "message_type_debug RelayRequest = lit ''RelayRequest''"
| "message_type_debug RawEcho = lit ''RawEcho''"
| "message_type_debug AuthResponse = lit ''AuthResponse''"
| "message_type_debug ConnectionAccepted = lit ''ConnectionAccepted''"
| "message_type_debug ConnectionRejected = lit ''ConnectionRejected''"
| "message_type_debug HeartbeatResponse = lit ''HeartbeatResponse''"
| "message_type_debug ErrorResponse = lit ''ErrorResponse''"
| "message_type_debug SendMessageResponse = lit ''SendMessageResponse''"
| "message_type_debug RawEchoResponse = lit ''RawEchoResponse''"
| "message_type_debug IncomingMessageEvent = lit ''IncomingMessageEvent''"
| "message_type_debug DeliveryStatusEvent = lit ''DeliveryStatusEvent''"
| "message_type_debug PeerEvent = lit ''PeerEvent''"
| "message_type_debug RelayEvent = lit ''RelayEvent''"

definition envelope_debug :: "MessageEnvelope \<Rightarrow> bytes" where
  "envelope_debug e = debug_struct ''MessageEnvelope''
     [(''version'', version_debug (version e)), (''message_type'', message_type_debug (message_type e)),
      (''flags'', decimal (unat (flags e))), (''message_id'', decimal (unat (message_id e))),
      (''correlation_id'', decimal (unat (correlation_id e))), (''timestamp'', decimal (unat (timestamp e))),
      (''payload_len'', decimal (length (env_payload e))), (''payload'', redacted)]"

fun c2s_debug :: "ClientToServerMessage \<Rightarrow> bytes" where
  "c2s_debug (C2S_AuthRequest tok ver) = debug_struct ''AuthRequest'' [(''token'', redacted), (''client_version'', decimal (unat ver))]"
| "c2s_debug (C2S_ConnectRequest p) = debug_struct ''ConnectRequest'' [(''peer_id'', quoted (hex_encode p))]"
| "c2s_debug (C2S_DisconnectRequest c) = debug_struct ''DisconnectRequest'' [(''reason_code'', decimal (unat c))]"
| "c2s_debug (C2S_SendMessage r d) = debug_struct ''SendMessage''
     [(''recipient_id'', quoted (hex_encode r)), (''data_len'', decimal (length d)), (''data'', redacted)]"
| "c2s_debug (C2S_Ack i) = debug_struct ''Ack'' [(''acknowledged_message_id'', decimal (unat i))]"
| "c2s_debug (C2S_Heartbeat i) = debug_struct ''Heartbeat'' [(''sequence'', decimal (unat i))]"
| "c2s_debug (C2S_KeyExchange k) = debug_struct ''KeyExchange'' [(''ephemeral_pubkey'', redacted)]"
| "c2s_debug (C2S_RelayRequest p) = debug_struct ''RelayRequest'' [(''target_peer_id'', quoted (hex_encode p))]"
| "c2s_debug (C2S_RawEcho d) = debug_struct ''RawEcho'' [(''payload_len'', decimal (length d))]"

fun delivery_status_debug :: "DeliveryStatus \<Rightarrow> bytes" where
  "delivery_status_debug Delivered = lit ''Delivered''"
| "delivery_status_debug Dropped = lit ''Dropped''"
| "delivery_status_debug Queued = lit ''Queued''"
| "delivery_status_debug Failed = lit ''Failed''"

fun peer_status_debug :: "PeerStatus \<Rightarrow> bytes" where
  "peer_status_debug Online = lit ''Online''"
| "peer_status_debug Offline = lit ''Offline''"
| "peer_status_debug RelayActive = lit ''RelayActive''"

fun s2c_debug :: "(bytes \<Rightarrow> bytes) \<Rightarrow> ServerToClientMessage \<Rightarrow> bytes" where
  "s2c_debug esc (S2C_AuthResponse ok sid) = debug_struct ''AuthResponse'' [(''success'', debug_bool ok), (''session_id'', redacted)]"
| "s2c_debug esc (S2C_ConnectionAccepted sid p) = debug_struct ''ConnectionAccepted''
     [(''session_id'', redacted), (''assigned_peer_id'', redacted)]"
| "s2c_debug esc (S2C_ConnectionRejected c t) = debug_struct ''ConnectionRejected''
     [(''reason_code'', decimal (unat c)), (''message'', quoted (esc t))]"
| "s2c_debug esc (S2C_HeartbeatResponse i) = debug_struct ''HeartbeatResponse'' [(''sequence'', decimal (unat i))]"
| "s2c_debug esc (S2C_ErrorResponse c t) = debug_struct ''ErrorResponse'' [(''code'', decimal (unat c)), (''message'', quoted (esc t))]"
| "s2c_debug esc (S2C_SendMessageResponse i ok) = debug_struct ''SendMessageResponse''
     [(''message_id'', decimal (unat i)), (''accepted'', debug_bool ok)]"
| "s2c_debug esc (S2C_RawEchoResponse d) = debug_struct ''RawEchoResponse'' [(''payload_len'', decimal (length d))]"
| "s2c_debug esc (S2C_IncomingMessageEvent p d) = debug_struct ''IncomingMessageEvent''
     [(''sender_id'', quoted (hex_encode p)), (''data_len'', decimal (length d)), (''data'', redacted)]"
| "s2c_debug esc (S2C_DeliveryStatusEvent i st) = debug_struct ''DeliveryStatusEvent''
     [(''message_id'', decimal (unat i)), (''status'', delivery_status_debug st)]"
| "s2c_debug esc (S2C_PeerEvent p st) = debug_struct ''PeerEvent''
     [(''peer_id'', quoted (hex_encode p)), (''status'', peer_status_debug st)]"
| "s2c_debug esc (S2C_RelayEvent sid st) = debug_struct ''RelayEvent'' [(''session_id'', redacted), (''status'', decimal (unat st))]"

subsection \<open>Hellos, validators, keys and sessions\<close>

definition hello_debug :: "(bytes \<Rightarrow> bytes) \<Rightarrow> ParsedClientHello \<Rightarrow> bytes" where
  "hello_debug esc h = debug_struct ''ParsedClientHello''
     [(''legacy_version'', lit ''0x'' @ hex_encode (put_u16 (legacy_version h))), (''random'', redacted),
      (''session_id_len'', decimal (length (hello_session_id h))), (''cipher_suites_count'', decimal (length (cipher_suites h))),
      (''sni'', debug_option (map_option (\<lambda>t. quoted (esc t)) (sni h))), (''is_tls13'', debug_bool (is_tls13 h))]"

definition validator_debug :: "(bytes \<Rightarrow> bytes) \<Rightarrow> TokenValidator \<Rightarrow> bytes" where
  "validator_debug esc v = debug_struct ''TokenValidator''
     [(''secret'', redacted), (''expected_sni'', debug_option (map_option (\<lambda>t. quoted (esc t)) (expected_sni v))),
      (''insecure_no_token'', debug_bool (insecure_no_token v))]"

definition noise_session_debug :: "'t \<Rightarrow> bytes" where
  "noise_session_debug t = debug_struct ''NoiseSession''
     [(''pattern'', quoted NOISE_PATTERN), (''state'', quoted (lit ''[ENCRYPTED]''))]"

definition key_pair_debug :: "(path \<Rightarrow> bytes) \<Rightarrow> KeyPair \<Rightarrow> bytes" where
  "key_pair_debug show_path kp = debug_struct ''KeyPair''
     [(''public_key_base64'', quoted (kp_public_key_base64 kp)), (''key_path'', show_path (kp_key_path kp)),
      (''pub_path'', show_path (kp_pub_path kp)), (''private_key'', redacted)]"

definition relay_secrets_debug :: "(bytes \<Rightarrow> bytes) \<Rightarrow> (path \<Rightarrow> bytes) \<Rightarrow> RelaySecrets \<Rightarrow> bytes" where
  "relay_secrets_debug esc show_path s = debug_struct ''RelaySecrets''
     [(''url'', quoted (esc (url s))), (''public_key_hex'', quoted (public_key_hex s)),
      (''public_key_base64'', quoted (public_key_base64 s)), (''secret_token'', redacted), (''private_key'', redacted),
      (''key_file'', debug_option (map_option show_path (key_file s)))]"

definition relay_secrets_display :: "RelaySecrets \<Rightarrow> bytes" where
  "relay_secrets_display s = lit ''EchoMesh Relay: '' @ url s @ lit '' (public key: '' @ public_key_base64 s @ lit '')''"

definition client_session_debug :: "('addr \<Rightarrow> bytes) \<Rightarrow> 'addr ClientSession \<Rightarrow> bytes" where
  "client_session_debug show_addr s = debug_struct ''ClientSession''
     [(''session_id'', redacted), (''server_addr'', show_addr (cs_server_addr s)), (''is_authenticated'', debug_bool (is_authenticated s))]"

definition session_debug :: "(nat \<Rightarrow> bytes) \<Rightarrow> Session \<Rightarrow> bytes" where
  "session_debug show_instant s = debug_struct ''Session''
     [(''session_id'', redacted), (''peer_id'', debug_option (map_option (\<lambda>p. quoted (hex_encode p)) (sn_peer_id s))),
      (''authenticated_at'', show_instant (authenticated_at s)), (''last_seen'', show_instant (last_seen s))]"

definition connection_debug :: "('addr \<Rightarrow> bytes) \<Rightarrow> (nat \<Rightarrow> bytes) \<Rightarrow> ('addr, 'tx) Connection \<Rightarrow> bytes" where
  "connection_debug show_addr show_instant c = debug_struct ''Connection''
     [(''id'', lit ''ConnectionId('' @ decimal (unat (cn_id c)) @ lit '')''), (''peer_addr'', show_addr (cn_peer_addr c)),
      (''connected_at'', show_instant (cn_connected_at c))]"

text \<open>\<open>derive(Debug)\<close> writes every field; the address is its display text and the timeout a number of seconds.\<close>

definition listener_config_debug :: "(bytes \<Rightarrow> bytes) \<Rightarrow> (path \<Rightarrow> bytes) \<Rightarrow> ListenerConfig \<Rightarrow> bytes" where
  "listener_config_debug esc show_path c = debug_struct ''ListenerConfig''
     [(''bind_addr'', bind_addr c), (''max_connections'', decimal (cfg_max_connections c)),
      (''fallback_target'', quoted (esc (fallback_target c))), (''secret_token'', debug_bytes (cfg_secret_token c)),
      (''handshake_timeout'', decimal (handshake_timeout_secs c) @ lit ''s''),
      (''secrets'', relay_secrets_debug esc show_path (secrets c)), (''insecure_no_token'', debug_bool (cfg_insecure_no_token c))]"

subsection \<open>Public parts\<close>

text \<open>A message with its credentials, keys, session ids and contents erased; lengths remain.\<close>

fun c2s_public :: "ClientToServerMessage \<Rightarrow> ClientToServerMessage" where
  "c2s_public (C2S_AuthRequest tok ver) = C2S_AuthRequest [] ver"
| "c2s_public (C2S_SendMessage r d) = C2S_SendMessage r (replicate (length d) 0)"
| "c2s_public (C2S_KeyExchange k) = C2S_KeyExchange []"
| "c2s_public (C2S_RawEcho d) = C2S_RawEcho (replicate (length d) 0)"
| "c2s_public m = m"

fun s2c_public :: "ServerToClientMessage \<Rightarrow> ServerToClientMessage" where
  "s2c_public (S2C_AuthResponse ok sid) = S2C_AuthResponse ok []"
| "s2c_public (S2C_ConnectionAccepted sid p) = S2C_ConnectionAccepted [] []"
| "s2c_public (S2C_RawEchoResponse d) = S2C_RawEchoResponse (replicate (length d) 0)"
| "s2c_public (S2C_IncomingMessageEvent p d) = S2C_IncomingMessageEvent p (replicate (length d) 0)"
| "s2c_public (S2C_RelayEvent sid st) = S2C_RelayEvent [] st"
| "s2c_public m = m"

lemma c2s_debug_public: "c2s_public m = c2s_public m' \<Longrightarrow> c2s_debug m = c2s_debug m'"
  by (cases m; cases m') (auto dest: arg_cong [where f = length])

lemma s2c_debug_public: "s2c_public m = s2c_public m' \<Longrightarrow> s2c_debug esc m = s2c_debug esc m'"
  by (cases m; cases m') (auto dest: arg_cong [where f = length])

subsection \<open>Debug output of a byte vector is unambiguous\<close>

lemma decimal_digits: "\<forall>b \<in> set (decimal n). 48 \<le> b \<and> b \<le> 57"
proof (induction n rule: decimal.induct)
  case (1 n)
  have "\<forall>d \<in> set [0..<10]. 48 \<le> (48 + of_nat d :: u8) \<and> (48 + of_nat d :: u8) \<le> 57" by code_simp
  then have "48 \<le> (48 + of_nat d :: u8) \<and> (48 + of_nat d :: u8) \<le> 57" if "d < 10" for d using that by simp
  with 1 show ?case by (auto simp: decimal.simps [of n])
qed

lemma decimal_nonempty: "decimal n \<noteq> []"
  by (subst decimal.simps) simp

lemma digit_inj: "d < 10 \<Longrightarrow> e < 10 \<Longrightarrow> (48 + of_nat d :: u8) = 48 + of_nat e \<Longrightarrow> d = e"
proof -
  have "unat (of_nat n :: u8) = n" if "n < 10" for n using that by (simp add: unat_of_nat)
  then show "d < 10 \<Longrightarrow> e < 10 \<Longrightarrow> (48 + of_nat d :: u8) = 48 + of_nat e \<Longrightarrow> d = e" by (metis add_left_cancel)
qed

lemma decimal_inj: "decimal m = decimal n \<Longrightarrow> m = n"
proof (induction m arbitrary: n rule: decimal.induct)
  case (1 m)
  have short: "decimal k = [48 + of_nat k]" if "k < 10" for k using that by (simp add: decimal.simps)
  have long: "decimal k = decimal (k div 10) @ [48 + of_nat (k mod 10)]" if "\<not> k < 10" for k using that by (subst decimal.simps) simp
  consider "m < 10" "n < 10" | "m < 10" "\<not> n < 10" | "\<not> m < 10" "n < 10" | "\<not> m < 10" "\<not> n < 10" by blast
  then show ?case
  proof cases
    case 1
    with \<open>decimal m = decimal n\<close> show ?thesis by (simp add: short digit_inj)
  next
    case 4
    then have "decimal (m div 10) = decimal (n div 10)" "(48 + of_nat (m mod 10) :: u8) = 48 + of_nat (n mod 10)"
      using \<open>decimal m = decimal n\<close> unfolding long [OF 4(1)] long [OF 4(2)] by simp_all
    then have "m div 10 = n div 10" "m mod 10 = n mod 10" using "1.IH" 4(1) digit_inj by simp_all
    then show ?thesis by (metis div_mult_mod_eq)
  qed (use \<open>decimal m = decimal n\<close> in \<open>simp_all add: short long decimal_nonempty decimal_nonempty [symmetric]\<close>)
qed

lemma digits_prefix:
  assumes "x @ u = y @ v" "\<forall>b \<in> set x. 48 \<le> b" "\<forall>b \<in> set y. 48 \<le> b" "u = [] \<or> hd u < 48" "v = [] \<or> hd v < (48 :: u8)"
  shows "x = y \<and> u = v"
proof -
  have "takeWhile (\<lambda>b. 48 \<le> b) (z @ w) = z" if "\<forall>b \<in> set z. 48 \<le> b" "w = [] \<or> hd w < 48" for z w :: bytes
    using that by (cases w) (auto simp: takeWhile_append2 not_le)
  with assms show ?thesis by (metis append_eq_append_conv)
qed

lemma join_comma_Cons: "join_comma (x # xs) = x @ concat (map ((@) (lit '', '')) xs)"
  by (induction xs arbitrary: x) simp_all

lemma debug_items_inj:
  fixes xs ys :: bytes
  shows "concat (map (\<lambda>b. lit '', '' @ decimal (unat b)) xs) = concat (map (\<lambda>b. lit '', '' @ decimal (unat b)) ys) \<Longrightarrow> xs = ys"
proof (induction xs arbitrary: ys)
  case Nil
  have "lit '', '' \<noteq> []" by code_simp
  with Nil show ?case by (cases ys) auto
next
  case (Cons x xs)
  let ?tail = "\<lambda>zs :: bytes. concat (map (\<lambda>b. lit '', '' @ decimal (unat b)) zs)"
  have comma: "lit '', '' = [44, 32]" by code_simp
  obtain y ys' where ys: "ys = y # ys'" using Cons.prems comma by (cases ys) auto
  have end_ok: "?tail zs = [] \<or> hd (?tail zs) < 48" for zs by (cases zs) (simp_all add: comma)
  have "decimal (unat x) @ ?tail xs = decimal (unat y) @ ?tail ys'" using Cons.prems ys by simp
  then have "decimal (unat x) = decimal (unat y) \<and> ?tail xs = ?tail ys'"
    using decimal_digits end_ok by (intro digits_prefix) auto
  then have "unat x = unat y" "xs = ys'" using Cons.IH decimal_inj by blast+
  then show ?case using ys by (simp add: word_unat_eq_iff)
qed

lemma debug_bytes_inj: "debug_bytes xs = debug_bytes ys \<Longrightarrow> xs = ys"
proof -
  have head: "join_comma (map (\<lambda>b. decimal (unat b)) (z # zs)) = decimal (unat z) @ concat (map (\<lambda>b. lit '', '' @ decimal (unat b)) zs)" for z zs
    by (simp add: join_comma_Cons comp_def)
  assume "debug_bytes xs = debug_bytes ys"
  then have eq: "join_comma (map (\<lambda>b. decimal (unat b)) xs) = join_comma (map (\<lambda>b. decimal (unat b)) ys)" by (simp add: debug_bytes_def)
  show "xs = ys"
  proof (cases xs)
    case Nil
    with eq show ?thesis by (cases ys) (simp_all add: join_comma_Cons decimal_nonempty)
  next
    case (Cons x xs')
    with eq obtain y ys' where ys: "ys = y # ys'" by (cases ys) (simp_all add: join_comma_Cons decimal_nonempty)
    have "concat (map (\<lambda>b. lit '', '' @ decimal (unat b)) xs) = concat (map (\<lambda>b. lit '', '' @ decimal (unat b)) ys)"
      using eq unfolding Cons ys head by simp
    then show ?thesis by (rule debug_items_inj)
  qed
qed

subsection \<open>Properties\<close>

text \<open>Secrets stay out of debug output where the code redacts them. Two values that agree on their public parts are
  written in the same way: for messages, what remains without tokens, keys, session ids and contents; for frames and
  envelopes, everything but the session id and the bytes of the payload; for a hello, everything but its random, the
  bytes of its session id and its cipher suites; and no token, private key or session id of a validator, key pair,
  set of secrets or session matters at all.\<close>

theorem debug_redacts:
  "(c2s_public m = c2s_public m' \<longrightarrow> c2s_debug m = c2s_debug m')
   \<and> (s2c_public r = s2c_public r' \<longrightarrow> s2c_debug esc r = s2c_debug esc r')
   \<and> (nonce f = nonce f' \<and> length (payload f) = length (payload f') \<longrightarrow> frame_debug f = frame_debug f')
   \<and> (length p = length (env_payload e) \<longrightarrow> envelope_debug (e\<lparr>env_payload := p\<rparr>) = envelope_debug e)
   \<and> (length i = length (hello_session_id h) \<and> length cs = length (cipher_suites h) \<longrightarrow>
        hello_debug esc (h\<lparr>random := k, hello_session_id := i, cipher_suites := cs\<rparr>) = hello_debug esc h)
   \<and> validator_debug esc (v\<lparr>secret := k\<rparr>) = validator_debug esc v
   \<and> noise_session_debug t = noise_session_debug t'
   \<and> key_pair_debug show_path (kp\<lparr>kp_private_key := k\<rparr>) = key_pair_debug show_path kp
   \<and> relay_secrets_debug esc show_path (s\<lparr>rs_secret_token := k, secret_token_hex := i, private_key := p, private_key_hex := th\<rparr>)
       = relay_secrets_debug esc show_path s
   \<and> relay_secrets_display (s\<lparr>rs_secret_token := k, secret_token_hex := i, private_key := p, private_key_hex := th\<rparr>)
       = relay_secrets_display s
   \<and> client_session_debug show_addr (c\<lparr>cs_session_id := k\<rparr>) = client_session_debug show_addr c
   \<and> session_debug show_instant (sn\<lparr>sn_session_id := k\<rparr>) = session_debug show_instant sn"
  by (intro conjI impI; (erule c2s_debug_public | erule s2c_debug_public)?)
    (simp_all add: frame_debug_def envelope_debug_def hello_debug_def validator_debug_def noise_session_debug_def key_pair_debug_def
      relay_secrets_debug_def relay_secrets_display_def client_session_debug_def session_debug_def)

theorem debug_redacts_witness:
  "c2s_debug (C2S_AuthRequest [1, 2, 3] 7) = c2s_debug (C2S_AuthRequest [9] 7)
   \<and> s2c_debug id (S2C_IncomingMessageEvent (replicate 32 1) [1]) = s2c_debug id (S2C_IncomingMessageEvent (replicate 32 1) [2])"
  using debug_redacts [of "C2S_AuthRequest [1, 2, 3] 7" "C2S_AuthRequest [9] 7" "S2C_IncomingMessageEvent (replicate 32 1) [1]"
      "S2C_IncomingMessageEvent (replicate 32 1) [2]" id] by simp

text \<open>The listener's configuration is not redacted. Its derived debug output contains the token: configurations that
  differ in the token only are never written in the same way.\<close>

theorem config_debug_shows_token:
  "listener_config_debug esc show_path (c\<lparr>cfg_secret_token := t\<rparr>) = listener_config_debug esc show_path (c\<lparr>cfg_secret_token := t'\<rparr>)
    \<longleftrightarrow> t = t'"
  using debug_bytes_inj [of t t'] by (auto simp: listener_config_debug_def debug_struct_def)

end
