(* ===== verification/Pipeline_Relay.thy ===== *)
theory Pipeline_Relay
  imports Server_Pipeline Transition
begin

section \<open>The sessions of the pipeline listener\<close>

text \<open>
  What \<open>handle_authenticated_noise_session\<close> of \<open>src/server/listener.rs\<close> does to the tables the listener's connections
  share: after the handshake it registers the connection, creates a session and binds it, and at the end it removes
  the connection and then the session. Each of these takes a lock of its own, so all connections together are a step
  relation in which the operations of different connections interleave. The lemmas show that the connection table
  holds exactly the connections between their registration and their removal, and that the session table, where all
  connections use one id, does not.
\<close>

subsection \<open>The operations of one session\<close>

record ('addr, 'tx) pipeline_relay =
  pr_connections :: "('addr, 'tx) ConnectionManagerInner"
  pr_counter :: u64
  pr_sessions :: SessionMap

definition DEFAULT_SESSION_ID :: bytes where
  "DEFAULT_SESSION_ID = take 16 ECHO_SERVICE_PEER_ID"

text \<open>\<open>handshake\<close> is the result of \<open>server_noise_handshake\<close>; an error of it ends the session before it begins.\<close>

definition session_register ::
    "('e, 'n) result \<Rightarrow> 'addr \<Rightarrow> 'tx \<Rightarrow> nat \<Rightarrow> ('addr, 'tx) pipeline_relay \<Rightarrow> ('e, u64) result \<times> ('addr, 'tx) pipeline_relay" where
  "session_register handshake addr tx now st =
     (case handshake of
        Panic \<Rightarrow> (Panic, st)
      | Err e \<Rightarrow> (Err e, st)
      | Ok noise \<Rightarrow>
          let (conn, counter', cm) = register addr tx now (pr_counter st) (pr_connections st) in
          (Ok conn, st\<lparr>pr_connections := cm, pr_counter := counter'\<rparr>))"

definition session_create :: "nat \<Rightarrow> ('addr, 'tx) pipeline_relay \<Rightarrow> Session \<times> ('addr, 'tx) pipeline_relay" where
  "session_create now st =
     (let (s, sm) = create_session DEFAULT_SESSION_ID None now (pr_sessions st) in (s, st\<lparr>pr_sessions := sm\<rparr>))"

definition session_bind :: "u64 \<Rightarrow> ('addr, 'tx) pipeline_relay \<Rightarrow> ('addr, 'tx) pipeline_relay" where
  "session_bind conn st = st\<lparr>pr_connections := bind_session conn DEFAULT_SESSION_ID None (pr_connections st)\<rparr>"

definition session_unregister :: "u64 \<Rightarrow> ('addr, 'tx) pipeline_relay \<Rightarrow> ('addr, 'tx) pipeline_relay" where
  "session_unregister conn st = st\<lparr>pr_connections := unregister conn (pr_connections st)\<rparr>"

definition session_remove :: "('addr, 'tx) pipeline_relay \<Rightarrow> ('addr, 'tx) pipeline_relay" where
  "session_remove st = st\<lparr>pr_sessions := snd (remove_session DEFAULT_SESSION_ID (pr_sessions st))\<rparr>"

subsection \<open>All sessions\<close>

text \<open>How far a session has come: it is registered, has its session, runs, has left the connection table, is over.\<close>

datatype session_phase = Entered | Created | Served | Unregistered | Gone

record ('addr, 'tx) pipeline_world =
  pw_relay :: "('addr, 'tx) pipeline_relay"
  pw_sessions :: "(u64 \<times> session_phase) list"

definition pipeline_world_init :: "('addr, 'tx) pipeline_world \<Rightarrow> bool" where
  "pipeline_world_init w \<longleftrightarrow>
     w = \<lparr>pw_relay = \<lparr>pr_connections = connection_manager_new, pr_counter = 1, pr_sessions = Map.empty\<rparr>, pw_sessions = []\<rparr>"

datatype pipeline_label = Enter | HandshakeFailed | Create nat | Bind nat | FrameSeen nat | Unregister nat | Remove nat

definition in_phase :: "('addr, 'tx) pipeline_world \<Rightarrow> nat \<Rightarrow> u64 \<Rightarrow> session_phase \<Rightarrow> bool" where
  "in_phase w i conn ph \<longleftrightarrow> i < length (pw_sessions w) \<and> pw_sessions w ! i = (conn, ph)"

inductive pipeline_step :: "('addr, 'tx) pipeline_world \<Rightarrow> pipeline_label \<Rightarrow> ('addr, 'tx) pipeline_world \<Rightarrow> bool" where
  enter: "session_register (Ok () :: (unit, unit) result) addr tx now (pw_relay w) = (Ok conn, r) \<Longrightarrow>
    pipeline_step w Enter (w\<lparr>pw_relay := r, pw_sessions := pw_sessions w @ [(conn, Entered)]\<rparr>)"
| handshake_failed: "session_register (Err () :: (unit, unit) result) addr tx now (pw_relay w) = (Err e, r) \<Longrightarrow>
    pipeline_step w HandshakeFailed (w\<lparr>pw_relay := r\<rparr>)"
| create: "in_phase w i conn Entered \<Longrightarrow> session_create now (pw_relay w) = (s, r) \<Longrightarrow>
    pipeline_step w (Create i) (w\<lparr>pw_relay := r, pw_sessions := (pw_sessions w)[i := (conn, Created)]\<rparr>)"
| bind: "in_phase w i conn Created \<Longrightarrow>
    pipeline_step w (Bind i) (w\<lparr>pw_relay := session_bind conn (pw_relay w), pw_sessions := (pw_sessions w)[i := (conn, Served)]\<rparr>)"
| frame_seen: "in_phase w i conn Served \<Longrightarrow>
    pipeline_step w (FrameSeen i) (w\<lparr>pw_relay := (pw_relay w)\<lparr>pr_sessions :=
      snd (touch_session DEFAULT_SESSION_ID now (pr_sessions (pw_relay w)))\<rparr>\<rparr>)"
| unregister: "in_phase w i conn Served \<Longrightarrow>
    pipeline_step w (Unregister i)
      (w\<lparr>pw_relay := session_unregister conn (pw_relay w), pw_sessions := (pw_sessions w)[i := (conn, Unregistered)]\<rparr>)"
| remove: "in_phase w i conn Unregistered \<Longrightarrow>
    pipeline_step w (Remove i) (w\<lparr>pw_relay := session_remove (pw_relay w), pw_sessions := (pw_sessions w)[i := (conn, Gone)]\<rparr>)"

lemmas session_defs = session_register_def session_create_def session_bind_def session_unregister_def session_remove_def
  register_def connection_id_next_def create_session_def remove_session_def touch_session_def Let_def

subsection \<open>The tables\<close>

definition sessions_shared :: "('addr, 'tx) pipeline_world \<Rightarrow> bool" where
  "sessions_shared w \<longleftrightarrow> dom (pr_sessions (pw_relay w)) \<subseteq> {DEFAULT_SESSION_ID}"

text \<open>The sessions in the connection table, by their numbers.\<close>

definition listed :: "('addr, 'tx) pipeline_world \<Rightarrow> nat set" where
  "listed w = {i. i < length (pw_sessions w) \<and> snd (pw_sessions w ! i) \<in> {Entered, Created, Served}}"

definition conn_of :: "nat \<Rightarrow> u64" where
  "conn_of i = of_nat (Suc i)"

text \<open>Ids count the sessions, so they are unique until the counter wraps around.\<close>

definition tables_ok :: "('addr, 'tx) pipeline_world \<Rightarrow> bool" where
  "tables_ok w \<longleftrightarrow> pr_counter (pw_relay w) = conn_of (length (pw_sessions w))
     \<and> (\<forall>i < length (pw_sessions w). fst (pw_sessions w ! i) = conn_of i)
     \<and> (length (pw_sessions w) < 2 ^ 64 - 1 \<longrightarrow>
          cm_inv (pr_connections (pw_relay w)) \<and> dom (connections (pr_connections (pw_relay w))) = conn_of ` listed w)"

lemma dom_unregister: "dom (connections (unregister conn cm)) = dom (connections cm) - {conn}"
  by (simp add: unregister_def)

lemma conn_of_inj: "inj_on conn_of {..< 2 ^ 64 - 1}"
  by (auto simp: inj_on_def conn_of_def word_unat_eq_iff unat_of_nat simp del: of_nat_Suc)

lemma listed_below: "listed w \<subseteq> {..< length (pw_sessions w)}"
  by (auto simp: listed_def)

lemma listed_inj: "length (pw_sessions w) \<le> 2 ^ 64 - 1 \<Longrightarrow> inj_on conn_of (listed w)"
  by (rule inj_on_subset [OF conn_of_inj]) (use listed_below [of w] in auto)

lemma listed_update:
  assumes "in_phase w i conn ph"
  shows "listed (w\<lparr>pw_relay := r, pw_sessions := (pw_sessions w)[i := (conn, ph')]\<rparr>)
    = (if ph' \<in> {Entered, Created, Served} then insert i (listed w) else listed w - {i})"
  using assms by (auto simp: listed_def in_phase_def nth_list_update split: if_splits)

lemma listed_append: "listed (w\<lparr>pw_relay := r, pw_sessions := pw_sessions w @ [(conn, Entered)]\<rparr>) = insert (length (pw_sessions w)) (listed w)"
  by (auto simp: listed_def nth_append less_Suc_eq)

lemma in_phase_conn: "tables_ok w \<Longrightarrow> in_phase w i conn ph \<Longrightarrow> conn = conn_of i"
  by (force simp: tables_ok_def in_phase_def)

lemma in_phase_listed: "in_phase w i conn ph \<Longrightarrow> ph \<in> {Entered, Created, Served} \<Longrightarrow> i \<in> listed w"
  by (auto simp: listed_def in_phase_def)

lemma tables_ok_update:
  assumes "tables_ok w" "in_phase w i conn ph" "pr_counter r = pr_counter (pw_relay w)"
    and "length (pw_sessions w) < 2 ^ 64 - 1 \<Longrightarrow> cm_inv (pr_connections r)
      \<and> dom (connections (pr_connections r)) = conn_of ` (if ph' \<in> {Entered, Created, Served} then insert i (listed w) else listed w - {i})"
  shows "tables_ok (w\<lparr>pw_relay := r, pw_sessions := (pw_sessions w)[i := (conn, ph')]\<rparr>)"
  using assms in_phase_conn [OF assms(1,2)] listed_update [OF assms(2), where r = r and ph' = ph']
  by (auto simp: tables_ok_def in_phase_def nth_list_update)

lemma tables_ok_enter:
  assumes "tables_ok w" "session_register (Ok () :: (unit, unit) result) addr tx now (pw_relay w) = (Ok conn, r)"
  shows "tables_ok (w\<lparr>pw_relay := r, pw_sessions := pw_sessions w @ [(conn, Entered)]\<rparr>)"
proof -
  let ?n = "length (pw_sessions w)" and ?cm = "pr_connections (pw_relay w)"
  have conn: "conn = conn_of ?n" "pr_counter r = conn_of (Suc ?n)"
    "pr_connections r = snd (snd (register addr tx now (pr_counter (pw_relay w)) ?cm))" "dom (connections (pr_connections r)) = insert conn (dom (connections ?cm))"
    using assms by (auto simp: session_defs tables_ok_def conn_of_def)
  then show ?thesis
    using assms(1) by (simp add: tables_ok_def listed_append nth_append less_Suc_eq cm_inv_register)
qed

lemma tables_ok_step:
  assumes "tables_ok w" "pipeline_step w l w'"
  shows "tables_ok w'"
  using assms(2)
proof (cases rule: pipeline_step.cases)
  case (enter addr tx now conn r)
  then show ?thesis using tables_ok_enter [OF assms(1)] by simp
next
  case (handshake_failed addr tx now e r)
  then have "w' = w" by (simp add: session_register_def)
  then show ?thesis using assms(1) by simp
next
  case (create i conn now s r)
  then have r: "i \<in> listed w" "pr_counter r = pr_counter (pw_relay w)" "pr_connections r = pr_connections (pw_relay w)"
    by (auto simp: in_phase_listed session_defs)
  show ?thesis unfolding create(2)
    by (rule tables_ok_update [OF assms(1) create(3) r(2)]) (use assms(1) r(1,3) in \<open>simp add: tables_ok_def insert_absorb\<close>)
next
  case (bind i conn)
  note i = in_phase_conn [OF assms(1) bind(3)] in_phase_listed [OF bind(3)]
  show ?thesis unfolding bind(2)
  proof (rule tables_ok_update [OF assms(1) bind(3)])
    assume "length (pw_sessions w) < 2 ^ 64 - 1"
    then have "cm_inv (pr_connections (pw_relay w))" "dom (connections (pr_connections (pw_relay w))) = conn_of ` listed w"
      using assms(1) by (simp_all add: tables_ok_def)
    with i show "cm_inv (pr_connections (session_bind conn (pw_relay w)))
      \<and> dom (connections (pr_connections (session_bind conn (pw_relay w))))
        = conn_of ` (if Served \<in> {Entered, Created, Served} then insert i (listed w) else listed w - {i})"
      using cm_inv_bind [of "pr_connections (pw_relay w)" conn DEFAULT_SESSION_ID None]
      by (simp add: session_bind_def insert_absorb) (simp add: bind_session_def)
  qed (simp add: session_bind_def)
next
  case (frame_seen i conn now)
  then show ?thesis using assms(1) by (simp add: tables_ok_def listed_def)
next
  case (unregister i conn)
  note i = in_phase_conn [OF assms(1) unregister(3)] in_phase_listed [OF unregister(3)]
  show ?thesis unfolding unregister(2)
  proof (rule tables_ok_update [OF assms(1) unregister(3)])
    assume "length (pw_sessions w) < 2 ^ 64 - 1"
    moreover from this have "conn_of ` (listed w - {i}) = conn_of ` listed w - {conn_of i}"
      using listed_inj [of w] i(2) by (auto simp: inj_on_def)
    ultimately show "cm_inv (pr_connections (session_unregister conn (pw_relay w)))
      \<and> dom (connections (pr_connections (session_unregister conn (pw_relay w))))
        = conn_of ` (if Unregistered \<in> {Entered, Created, Served} then insert i (listed w) else listed w - {i})"
      using assms(1) i(1) by (simp add: tables_ok_def session_unregister_def cm_inv_unregister dom_unregister)
  qed (simp add: session_unregister_def)
next
  case (remove i conn)
  then have "i \<notin> listed w" by (auto simp: listed_def in_phase_def)
  then show ?thesis unfolding remove(2)
    by (intro tables_ok_update [OF assms(1) remove(3)]) (use assms(1) in \<open>simp_all add: tables_ok_def session_remove_def\<close>)
qed

lemma sessions_shared_step:
  assumes "sessions_shared w" "pipeline_step w l w'" shows "sessions_shared w'"
  using assms(2) by (cases rule: pipeline_step.cases)
    (use assms(1) in \<open>auto simp: sessions_shared_def session_defs split: option.splits\<close>)

interpretation pipeline_sys: invariant_system pipeline_world_init pipeline_step "\<lambda>w. tables_ok w \<and> sessions_shared w"
proof unfold_locales
  fix w :: "('addr, 'tx) pipeline_world"
  show "pipeline_world_init w \<Longrightarrow> tables_ok w \<and> sessions_shared w"
    using cm_inv_new by (auto simp: pipeline_world_init_def tables_ok_def sessions_shared_def connection_manager_new_def conn_of_def listed_def)
qed (use tables_ok_step sessions_shared_step in blast)

lemma pipeline_tables_reachable:
  assumes "reachable_from pipeline_world_init pipeline_step w" "length (pw_sessions w) < 2 ^ 64 - 1"
  shows "inj_on (\<lambda>i. fst (pw_sessions w ! i)) (listed w)
    \<and> dom (connections (pr_connections (pw_relay w))) = (\<lambda>i. fst (pw_sessions w ! i)) ` listed w
    \<and> active_connections (pr_connections (pw_relay w)) = card (listed w)
    \<and> ran (session_to_conn (pr_connections (pw_relay w))) \<subseteq> (\<lambda>i. fst (pw_sessions w ! i)) ` listed w
    \<and> session_count (pr_sessions (pw_relay w)) \<le> 1"
proof -
  have inv: "tables_ok w" "sessions_shared w" using pipeline_sys.reachable_inv [OF assms(1)] by blast+
  have tables: "cm_inv (pr_connections (pw_relay w))" "dom (connections (pr_connections (pw_relay w))) = conn_of ` listed w"
    using inv(1) assms(2) by (simp_all add: tables_ok_def)
  have ids: "fst (pw_sessions w ! i) = conn_of i" if "i \<in> listed w" for i
    using inv(1) that by (auto simp: tables_ok_def listed_def)
  have inj: "inj_on conn_of (listed w)" using listed_inj [of w] assms(2) by simp
  have "card (dom (pr_sessions (pw_relay w))) \<le> card {DEFAULT_SESSION_ID}"
    using inv(2) by (intro card_mono) (auto simp: sessions_shared_def)
  moreover have "ran (session_to_conn (pr_connections (pw_relay w))) \<subseteq> conn_of ` listed w"
    using tables(1) unfolding cm_inv_def tables(2) by blast
  moreover have "(\<lambda>i. fst (pw_sessions w ! i)) ` listed w = conn_of ` listed w" by (rule image_cong) (simp_all add: ids)
  moreover have "inj_on (\<lambda>i. fst (pw_sessions w ! i)) (listed w)" using inj inj_on_cong [of "listed w" "\<lambda>i. fst (pw_sessions w ! i)" conn_of] ids by blast
  ultimately show ?thesis
    using tables(2) card_image [OF inj] by (simp add: active_connections_def session_count_def)
qed

subsection \<open>Two sessions with one id\<close>

lemma session_starts:
  assumes "n = length (pw_sessions w)"
  shows "\<exists>w'. runs pipeline_step w [Enter, Create n, Bind n] w' \<and> pw_sessions w' = pw_sessions w @ [(pr_counter (pw_relay w), Served)]
    \<and> pr_counter (pw_relay w') = pr_counter (pw_relay w) + 1"
proof -
  let ?c = "pr_counter (pw_relay w)" and ?ss = "pw_sessions w"
  let ?r1 = "snd (session_register (Ok () :: (unit, unit) result) undefined undefined 0 (pw_relay w))"
  let ?w1 = "w\<lparr>pw_relay := ?r1, pw_sessions := ?ss @ [(?c, Entered)]\<rparr>"
  let ?w2 = "?w1\<lparr>pw_relay := snd (session_create 0 ?r1), pw_sessions := (?ss @ [(?c, Entered)])[n := (?c, Created)]\<rparr>"
  let ?w3 = "?w2\<lparr>pw_relay := session_bind ?c (pw_relay ?w2), pw_sessions := (pw_sessions ?w2)[n := (?c, Served)]\<rparr>"
  have "pipeline_step w Enter ?w1" by (rule enter) (simp add: session_defs)
  moreover have "pipeline_step ?w1 (Create n) ?w2"
    using create [of ?w1 n ?c 0 "fst (session_create 0 ?r1)" "snd (session_create 0 ?r1)"] assms by (simp add: in_phase_def)
  moreover have "pipeline_step ?w2 (Bind n) ?w3" by (rule bind) (use assms in \<open>simp add: in_phase_def\<close>)
  ultimately have "runs pipeline_step w [Enter, Create n, Bind n] ?w3" by (meson runs_cons runs_nil)
  then show ?thesis using assms by (intro exI [of _ ?w3]) (simp add: session_defs)
qed

lemma session_ends:
  assumes "in_phase w i conn Served"
  shows "\<exists>w'. runs pipeline_step w [Unregister i, Remove i] w' \<and> pw_sessions w' = (pw_sessions w)[i := (conn, Gone)]
    \<and> pr_sessions (pw_relay w') DEFAULT_SESSION_ID = None"
proof -
  let ?w1 = "w\<lparr>pw_relay := session_unregister conn (pw_relay w), pw_sessions := (pw_sessions w)[i := (conn, Unregistered)]\<rparr>"
  let ?w2 = "?w1\<lparr>pw_relay := session_remove (pw_relay ?w1), pw_sessions := (pw_sessions ?w1)[i := (conn, Gone)]\<rparr>"
  have "pipeline_step w (Unregister i) ?w1" by (rule unregister [OF assms])
  moreover have "pipeline_step ?w1 (Remove i) ?w2" by (rule remove) (use assms in \<open>simp add: in_phase_def\<close>)
  ultimately have "runs pipeline_step w [Unregister i, Remove i] ?w2" by (meson runs_cons runs_nil)
  then show ?thesis by (intro exI [of _ ?w2]) (simp add: session_defs)
qed

definition empty_pipeline_world :: "('addr, 'tx) pipeline_world" where
  "empty_pipeline_world = \<lparr>pw_relay = \<lparr>pr_connections = connection_manager_new, pr_counter = 1, pr_sessions = Map.empty\<rparr>, pw_sessions = []\<rparr>"

lemma empty_pipeline_world_init: "pipeline_world_init empty_pipeline_world"
  by (simp add: pipeline_world_init_def empty_pipeline_world_def)

lemma first_session:
  "\<exists>w :: ('addr, 'tx) pipeline_world. reachable_from pipeline_world_init pipeline_step w \<and> pw_sessions w = [(1, Served)] \<and> pr_counter (pw_relay w) = 2"
proof -
  obtain w :: "('addr, 'tx) pipeline_world" where "runs pipeline_step empty_pipeline_world [Enter, Create 0, Bind 0] w"
    "pw_sessions w = [(1, Served)]" "pr_counter (pw_relay w) = 2"
    using session_starts [of 0 empty_pipeline_world] by (auto simp: empty_pipeline_world_def)
  then show ?thesis using reachable_runs [OF _ reach_init [of pipeline_world_init]] empty_pipeline_world_init by blast
qed

lemma shared_session_lost:
  "\<exists>w :: ('addr, 'tx) pipeline_world. reachable_from pipeline_world_init pipeline_step w \<and> in_phase w 1 2 Served
    \<and> session_count (pr_sessions (pw_relay w)) = 0
    \<and> (\<forall>now. touch_session DEFAULT_SESSION_ID now (pr_sessions (pw_relay w)) = (None, pr_sessions (pw_relay w)))"
proof -
  obtain w1 :: "('addr, 'tx) pipeline_world" where w1: "reachable_from pipeline_world_init pipeline_step w1"
    "pw_sessions w1 = [(1, Served)]" "pr_counter (pw_relay w1) = 2" using first_session by blast
  obtain w2 where w2: "runs pipeline_step w1 [Enter, Create 1, Bind 1] w2" "pw_sessions w2 = [(1, Served), (2, Served)]"
    using session_starts [of 1 w1] w1 by auto
  obtain w3 where w3: "runs pipeline_step w2 [Unregister 0, Remove 0] w3" "pw_sessions w3 = [(1, Gone), (2, Served)]"
    "pr_sessions (pw_relay w3) DEFAULT_SESSION_ID = None"
    using session_ends [of w2 0 1] w2(2) by (auto simp: in_phase_def)
  have r: "reachable_from pipeline_world_init pipeline_step w3"
    by (rule reachable_runs [OF w3(1) reachable_runs [OF w2(1) w1(1)]])
  then have "sessions_shared w3" using pipeline_sys.reachable_inv by blast
  then have "pr_sessions (pw_relay w3) = Map.empty" using w3(3) by (fastforce simp: sessions_shared_def dom_def)
  with r w3(2) show ?thesis by (intro exI [of _ w3]) (simp add: session_count_def touch_session_def in_phase_def)
qed

subsection \<open>Properties\<close>

text \<open>C27: the tables of the pipeline listener, however the operations of its connections interleave. In every reachable
  state, until the 64-bit counter wraps around, the connection table holds exactly the connections between their
  registration and their removal, under distinct ids, and its indices lead only to them. The session table is
  different: since every connection uses the same session id, it never holds more than one session, and the end of one
  connection removes the session of the others, whose frames then refresh nothing.\<close>

theorem pipeline_tables:
  "(\<forall>w :: ('addr, 'tx) pipeline_world. reachable_from pipeline_world_init pipeline_step w \<and> length (pw_sessions w) < 2 ^ 64 - 1 \<longrightarrow>
      inj_on (\<lambda>i. fst (pw_sessions w ! i)) (listed w)
      \<and> dom (connections (pr_connections (pw_relay w))) = (\<lambda>i. fst (pw_sessions w ! i)) ` listed w
      \<and> active_connections (pr_connections (pw_relay w)) = card (listed w)
      \<and> ran (session_to_conn (pr_connections (pw_relay w))) \<subseteq> (\<lambda>i. fst (pw_sessions w ! i)) ` listed w
      \<and> session_count (pr_sessions (pw_relay w)) \<le> 1)
   \<and> (\<exists>w :: ('addr, 'tx) pipeline_world. reachable_from pipeline_world_init pipeline_step w \<and> in_phase w 1 2 Served
      \<and> session_count (pr_sessions (pw_relay w)) = 0
      \<and> (\<forall>now. touch_session DEFAULT_SESSION_ID now (pr_sessions (pw_relay w)) = (None, pr_sessions (pw_relay w))))"
  using pipeline_tables_reachable shared_session_lost by blast

theorem pipeline_tables_witness:
  "\<exists>w :: (unit, nat) pipeline_world. pw_sessions w = [(1, Served)] \<and> dom (connections (pr_connections (pw_relay w))) = {1}"
proof -
  obtain w :: "(unit, nat) pipeline_world" where w: "reachable_from pipeline_world_init pipeline_step w" "pw_sessions w = [(1, Served)]"
    using first_session by blast
  have "listed w = {0}" using w(2) by (auto simp: listed_def)
  then have "dom (connections (pr_connections (pw_relay w))) = {1}"
    using pipeline_tables [THEN conjunct1, rule_format, of w] w by simp
  with w(2) show ?thesis by blast
qed

end
