(* ===== verification/Transports.thy ===== *)
theory Transports
  imports Noise
begin

section \<open>Packet transports\<close>

text \<open>
  \<open>src/transport/traits.rs\<close>, \<open>tcp.rs\<close>, \<open>memory.rs\<close> and \<open>secure.rs\<close>: the trait \<open>Transport\<close> as a locale, its two
  implementations, and the encrypted transport on top of either. An operation that has to wait gives no value
  (\<open>None\<close>). The lemmas show that both implementations deliver packets unchanged and in order, and that the encrypted
  transport delivers frames over each of them.
\<close>

subsection \<open>TCP\<close>

record TcpTransport =
  tcp_stream :: Stream
  max_frame_size :: nat

definition tcp_transport_new :: "Stream \<Rightarrow> TcpTransport" where
  "tcp_transport_new s = \<lparr>tcp_stream = s, max_frame_size = MAX_NOISE_MSG_LEN\<rparr>"

definition with_max_frame_size :: "nat \<Rightarrow> TcpTransport \<Rightarrow> TcpTransport" where
  "with_max_frame_size m t = t\<lparr>max_frame_size := m\<rparr>"

definition on_tcp :: "(Stream \<Rightarrow> (io_error_kind, 'a) result \<times> Stream) \<Rightarrow> TcpTransport \<Rightarrow> (TransportError, 'a) result \<times> TcpTransport" where
  "on_tcp m t = (case m (tcp_stream t) of (r, s) \<Rightarrow> (map_err TransportIo r, t\<lparr>tcp_stream := s\<rparr>))"

definition tcp_send :: "bytes \<Rightarrow> TcpTransport \<Rightarrow> (TransportError, unit) result \<times> TcpTransport" where
  "tcp_send frame t =
     (if length frame > max_frame_size t \<or> length frame > 65535 then (Err (Oversized (length frame) (max_frame_size t)), t)
      else io_then (on_tcp (stream_write_all (put_u16 (of_nat (length frame))))) (\<lambda>_. on_tcp (stream_write_all frame)) t)"

definition tcp_receive :: "TcpTransport \<Rightarrow> (TransportError, bytes option) result \<times> TcpTransport" where
  "tcp_receive t =
     (case stream_read_exact 2 (tcp_stream t) of
        (Panic, s) \<Rightarrow> (Panic, t\<lparr>tcp_stream := s\<rparr>)
      | (Err e, s) \<Rightarrow> (if e = UnexpectedEof then Ok None else Err (TransportIo e), t\<lparr>tcp_stream := s\<rparr>)
      | (Ok len_buf, s) \<Rightarrow>
          (let len = unat (of_nat (nat_from_be len_buf) :: u16) in
           if len > max_frame_size t then (Err (Oversized len (max_frame_size t)), t\<lparr>tcp_stream := s\<rparr>)
           else io_then (on_tcp (stream_read_exact len)) (\<lambda>buf. io_lift (Ok (Some buf))) (t\<lparr>tcp_stream := s\<rparr>)))"

text \<open>\<open>shut\<close> is the error of writes after the shutdown.\<close>

definition tcp_close :: "io_error_kind \<Rightarrow> TcpTransport \<Rightarrow> (TransportError, unit) result \<times> TcpTransport" where
  "tcp_close shut t =
     (case write_fault (tcp_stream t) of
        None \<Rightarrow> (Ok (), t\<lparr>tcp_stream := (tcp_stream t)\<lparr>write_fault := Some shut\<rparr>\<rparr>)
      | Some e \<Rightarrow> (Err (TransportIo e), t))"

subsection \<open>Memory\<close>

text \<open>One side of a pair: the channel it sends into, as the packets the other side has not taken yet, its capacity and
  whether the other side still exists; and the channel it receives from, in the same way.\<close>

record MemoryTransport =
  mem_tx :: "bytes list"
  mem_capacity :: nat
  mem_tx_open :: bool
  mem_rx :: "bytes list"
  mem_rx_open :: bool
  mem_closed :: bool

text \<open>A channel of capacity zero panics.\<close>

definition mem_pair :: "nat \<Rightarrow> (unit, MemoryTransport \<times> MemoryTransport) result" where
  "mem_pair buffer_size =
     (if buffer_size = 0 then Panic
      else let side = \<lparr>mem_tx = [], mem_capacity = buffer_size, mem_tx_open = True, mem_rx = [], mem_rx_open = True, mem_closed = False\<rparr>
           in Ok (side, side))"

definition mem_send :: "bytes \<Rightarrow> MemoryTransport \<Rightarrow> ((TransportError, unit) result \<times> MemoryTransport) option" where
  "mem_send frame t =
     (if mem_closed t \<or> \<not> mem_tx_open t then Some (Err ConnectionClosed, t)
      else if length (mem_tx t) < mem_capacity t then Some (Ok (), t\<lparr>mem_tx := mem_tx t @ [frame]\<rparr>)
      else None)"

definition mem_receive :: "MemoryTransport \<Rightarrow> ((TransportError, bytes option) result \<times> MemoryTransport) option" where
  "mem_receive t =
     (if mem_closed t then Some (Ok None, t)
      else (case mem_rx t of
          p # ps \<Rightarrow> Some (Ok (Some p), t\<lparr>mem_rx := ps\<rparr>)
        | [] \<Rightarrow> if mem_rx_open t then None else Some (Ok None, t\<lparr>mem_closed := True\<rparr>)))"

definition mem_close :: "MemoryTransport \<Rightarrow> (TransportError, unit) result \<times> MemoryTransport" where
  "mem_close t = (Ok (), t\<lparr>mem_closed := True\<rparr>)"

subsection \<open>The encrypted transport\<close>

record ('tr, 't) SecureTransport =
  sec_transport :: 'tr
  sec_session :: 't

fun crypto_error :: "'s NoiseError \<Rightarrow> 's CryptoError" where
  "crypto_error (Snow e) = CryptoSnow e"
| "crypto_error _ = DecryptionFailed"

definition secure_send_frame ::
    "('h, 't, 's) snow \<Rightarrow> (bytes \<Rightarrow> 'tr \<Rightarrow> ((TransportError, unit) result \<times> 'tr) option) \<Rightarrow> Frame \<Rightarrow> ('tr, 't) SecureTransport
      \<Rightarrow> (('s CryptoError, unit) result \<times> ('tr, 't) SecureTransport) option" where
  "secure_send_frame S send frame c =
     (case map_err (\<lambda>_. CryptoKey (lit ''frame encoding failed'')) (frame_encode frame []) of
        Panic \<Rightarrow> Some (Panic, c)
      | Err e \<Rightarrow> Some (Err e, c)
      | Ok raw_frame \<Rightarrow>
          (case noise_encrypt S raw_frame (length raw_frame + NOISE_TAG_LEN) (sec_session c) of
             (Panic, t) \<Rightarrow> Some (Panic, c\<lparr>sec_session := t\<rparr>)
           | (Err e, t) \<Rightarrow> Some (Err (crypto_error e), c\<lparr>sec_session := t\<rparr>)
           | (Ok cipher_text, t) \<Rightarrow>
               map_option (\<lambda>(r, tr). (map_err (\<lambda>_. CryptoKey (lit ''transport send failed'')) r, c\<lparr>sec_session := t, sec_transport := tr\<rparr>))
                 (send cipher_text (sec_transport c))))"

definition secure_recv_frame ::
    "('h, 't, 's) snow \<Rightarrow> ('tr \<Rightarrow> ((TransportError, bytes option) result \<times> 'tr) option) \<Rightarrow> ('tr, 't) SecureTransport
      \<Rightarrow> (('s CryptoError, Frame option) result \<times> ('tr, 't) SecureTransport) option" where
  "secure_recv_frame S receive c =
     map_option (\<lambda>(r, tr). let c = c\<lparr>sec_transport := tr\<rparr> in
       (case r of
          Panic \<Rightarrow> (Panic, c)
        | Err _ \<Rightarrow> (Err (CryptoKey (lit ''transport recv failed'')), c)
        | Ok None \<Rightarrow> (Ok None, c)
        | Ok (Some packet) \<Rightarrow>
            (case noise_decrypt S packet (length packet) (sec_session c) of
               (Panic, t) \<Rightarrow> (Panic, c\<lparr>sec_session := t\<rparr>)
             | (Err e, t) \<Rightarrow> (Err (crypto_error e), c\<lparr>sec_session := t\<rparr>)
             | (Ok plain_buf, t) \<Rightarrow>
                 (map_ok Some (map_err (\<lambda>_. CryptoKey (lit ''frame parsing failed'')) (from_slice plain_buf)), c\<lparr>sec_session := t\<rparr>))))
       (receive (sec_transport c))"

text \<open>Sending and receiving several frames.\<close>

fun secure_send_frames ::
    "('h, 't, 's) snow \<Rightarrow> (bytes \<Rightarrow> 'tr \<Rightarrow> ((TransportError, unit) result \<times> 'tr) option) \<Rightarrow> Frame list \<Rightarrow> ('tr, 't) SecureTransport
      \<Rightarrow> ('tr, 't) SecureTransport option" where
  "secure_send_frames S send [] c = Some c"
| "secure_send_frames S send (f # fs) c =
     (case secure_send_frame S send f c of Some (Ok _, c1) \<Rightarrow> secure_send_frames S send fs c1 | _ \<Rightarrow> None)"

fun secure_recv_frames ::
    "('h, 't, 's) snow \<Rightarrow> ('tr \<Rightarrow> ((TransportError, bytes option) result \<times> 'tr) option) \<Rightarrow> nat \<Rightarrow> ('tr, 't) SecureTransport
      \<Rightarrow> (Frame list \<times> ('tr, 't) SecureTransport) option" where
  "secure_recv_frames S receive 0 c = Some ([], c)"
| "secure_recv_frames S receive (Suc n) c =
     (case secure_recv_frame S receive c of
        Some (Ok (Some f), c1) \<Rightarrow> map_option (\<lambda>(fs, c2). (f # fs, c2)) (secure_recv_frames S receive n c1)
      | _ \<Rightarrow> None)"

subsection \<open>The contract of a transport\<close>

text \<open>What \<open>Transport\<close> promises: a packet that fits is put on the wire, and a side whose unread input starts with what
  was put there receives that packet and nothing more. \<open>can_send n\<close> says that the next \<open>n\<close> packets need not wait.\<close>

locale packet_transport =
  fixes send :: "bytes \<Rightarrow> 'tr \<Rightarrow> ((TransportError, unit) result \<times> 'tr) option"
    and receive :: "'tr \<Rightarrow> ((TransportError, bytes option) result \<times> 'tr) option"
    and out :: "'tr \<Rightarrow> 'u list" and inp :: "'tr \<Rightarrow> 'u list"
    and can_send :: "nat \<Rightarrow> 'tr \<Rightarrow> bool" and can_receive :: "'tr \<Rightarrow> bool" and fits :: "'tr \<Rightarrow> nat \<Rightarrow> bool"
  assumes packet: "can_send (Suc n) a \<Longrightarrow> fits a (length p) \<Longrightarrow>
      \<exists>w a'. send p a = Some (Ok (), a') \<and> out a' = out a @ w \<and> can_send n a' \<and> fits a' = fits a
        \<and> (\<forall>b rest. can_receive b \<longrightarrow> fits b (length p) \<longrightarrow> inp b = w @ rest \<longrightarrow>
            (\<exists>b'. receive b = Some (Ok (Some p), b') \<and> inp b' = rest \<and> can_receive b' \<and> fits b' = fits b))"
begin

lemma secure_frame:
  assumes "snow_transport S chan" "chan (Suc n) (sec_session a) t" "wf_frame f"
    and "can_send (Suc m) (sec_transport a)" "fits (sec_transport a) ENCRYPTED_FRAME_SIZE"
  shows "\<exists>w a' t'. secure_send_frame S send f a = Some (Ok (), a') \<and> out (sec_transport a') = out (sec_transport a) @ w
    \<and> chan n (sec_session a') t' \<and> can_send m (sec_transport a') \<and> fits (sec_transport a') = fits (sec_transport a)
    \<and> (\<forall>b rest. sec_session b = t \<longrightarrow> can_receive (sec_transport b) \<longrightarrow> fits (sec_transport b) ENCRYPTED_FRAME_SIZE \<longrightarrow>
        inp (sec_transport b) = w @ rest \<longrightarrow>
        (\<exists>b'. secure_recv_frame S receive b = Some (Ok (Some f), b') \<and> inp (sec_transport b') = rest \<and> sec_session b' = t'
          \<and> can_receive (sec_transport b') \<and> fits (sec_transport b') = fits (sec_transport b)))"
proof -
  obtain raw where raw: "frame_encode f [] = Ok raw" "length raw = FRAME_SIZE" "from_slice raw = Ok f"
    by (rule encoded_frame [OF assms(3)])
  then have "length raw + NOISE_TAG_LEN \<le> MAX_NOISE_MSG_LEN" by (simp add: frame_sizes)
  from snow_transport_message [OF assms(1,2) this] obtain ct s t' where ct:
    "write_message S raw (length raw + NOISE_TAG_LEN) (sec_session a) = (Ok ct, s)" "length ct = length raw + NOISE_TAG_LEN"
    "read_message S ct (length ct) t = (Ok raw, t')" "chan n s t'" .
  then have len: "length ct = ENCRYPTED_FRAME_SIZE" using raw(2) by (simp add: ENCRYPTED_FRAME_SIZE_def)
  then have "fits (sec_transport a) (length ct)" using assms(5) by simp
  from packet [OF assms(4) this] obtain w a' where w: "send ct (sec_transport a) = Some (Ok (), a')" "out a' = out (sec_transport a) @ w"
    "can_send m a'" "fits a' = fits (sec_transport a)"
    "\<And>b rest. can_receive b \<Longrightarrow> fits b (length ct) \<Longrightarrow> inp b = w @ rest \<Longrightarrow>
      \<exists>b'. receive b = Some (Ok (Some ct), b') \<and> inp b' = rest \<and> can_receive b' \<and> fits b' = fits b" by auto
  have send: "secure_send_frame S send f a = Some (Ok (), a\<lparr>sec_session := s, sec_transport := a'\<rparr>)"
    using raw(1) ct(1) w(1) by (simp add: secure_send_frame_def noise_encrypt_def io_err_def)
  have "\<exists>b'. secure_recv_frame S receive b = Some (Ok (Some f), b') \<and> inp (sec_transport b') = rest \<and> sec_session b' = t'
          \<and> can_receive (sec_transport b') \<and> fits (sec_transport b') = fits (sec_transport b)"
    if b: "sec_session b = t" "can_receive (sec_transport b)" "fits (sec_transport b) ENCRYPTED_FRAME_SIZE" "inp (sec_transport b) = w @ rest" for b rest
  proof -
    obtain tr where "receive (sec_transport b) = Some (Ok (Some ct), tr)" "inp tr = rest" "can_receive tr" "fits tr = fits (sec_transport b)"
      using w(5) [of "sec_transport b" rest] b len by auto
    then show ?thesis using b(1) ct(3) raw(3) by (simp add: secure_recv_frame_def noise_decrypt_def io_err_def)
  qed
  with send w(2-4) ct(4) show ?thesis
    by (intro exI [of _ w] exI [of _ "a\<lparr>sec_session := s, sec_transport := a'\<rparr>"] exI [of _ t']) simp
qed

lemma secure_frames:
  assumes "snow_transport S chan" "\<forall>f \<in> set fs. wf_frame f" "chan (n + length fs) (sec_session a) t"
    and "can_send (length fs) (sec_transport a)" "fits (sec_transport a) ENCRYPTED_FRAME_SIZE"
  shows "\<exists>w a' t'. secure_send_frames S send fs a = Some a' \<and> out (sec_transport a') = out (sec_transport a) @ w \<and> chan n (sec_session a') t'
    \<and> (\<forall>b rest. sec_session b = t \<longrightarrow> can_receive (sec_transport b) \<longrightarrow> fits (sec_transport b) ENCRYPTED_FRAME_SIZE \<longrightarrow>
        inp (sec_transport b) = w @ rest \<longrightarrow>
        (\<exists>b'. secure_recv_frames S receive (length fs) b = Some (fs, b') \<and> inp (sec_transport b') = rest \<and> sec_session b' = t'))"
  using assms(2-5)
proof (induction fs arbitrary: a t)
  case Nil
  show ?case by (rule exI [of _ "[]"], rule exI [of _ a], rule exI [of _ t]) (use Nil in simp)
next
  case (Cons f fs)
  have pre: "chan (Suc (n + length fs)) (sec_session a) t" "wf_frame f" "can_send (Suc (length fs)) (sec_transport a)"
    using Cons.prems by simp_all
  obtain w1 a1 t1 where one: "secure_send_frame S send f a = Some (Ok (), a1)" "out (sec_transport a1) = out (sec_transport a) @ w1"
    "chan (n + length fs) (sec_session a1) t1" "can_send (length fs) (sec_transport a1)" "fits (sec_transport a1) = fits (sec_transport a)"
    and recv: "\<And>b rest. sec_session b = t \<Longrightarrow> can_receive (sec_transport b) \<Longrightarrow> fits (sec_transport b) ENCRYPTED_FRAME_SIZE \<Longrightarrow>
        inp (sec_transport b) = w1 @ rest \<Longrightarrow>
        (\<exists>b'. secure_recv_frame S receive b = Some (Ok (Some f), b') \<and> inp (sec_transport b') = rest \<and> sec_session b' = t1
          \<and> can_receive (sec_transport b') \<and> fits (sec_transport b') = fits (sec_transport b))"
    using secure_frame [OF assms(1) pre Cons.prems(4)] by blast
  have fits1: "fits (sec_transport a1) ENCRYPTED_FRAME_SIZE" using one(5) Cons.prems(4) by simp
  obtain w a' t' where rest: "secure_send_frames S send fs a1 = Some a'" "out (sec_transport a') = out (sec_transport a1) @ w" "chan n (sec_session a') t'"
    "\<And>b rest. sec_session b = t1 \<Longrightarrow> can_receive (sec_transport b) \<Longrightarrow> fits (sec_transport b) ENCRYPTED_FRAME_SIZE \<Longrightarrow>
        inp (sec_transport b) = w @ rest \<Longrightarrow>
        (\<exists>b'. secure_recv_frames S receive (length fs) b = Some (fs, b') \<and> inp (sec_transport b') = rest \<and> sec_session b' = t')"
    using Cons.IH [OF _ one(3,4) fits1] Cons.prems(1) by auto
  have "\<exists>b'. secure_recv_frames S receive (length (f # fs)) b = Some (f # fs, b') \<and> inp (sec_transport b') = tail \<and> sec_session b' = t'"
    if b: "sec_session b = t" "can_receive (sec_transport b)" "fits (sec_transport b) ENCRYPTED_FRAME_SIZE" "inp (sec_transport b) = (w1 @ w) @ tail" for b tail
  proof -
    obtain b1 where b1: "secure_recv_frame S receive b = Some (Ok (Some f), b1)" "inp (sec_transport b1) = w @ tail" "sec_session b1 = t1"
      "can_receive (sec_transport b1)" "fits (sec_transport b1) ENCRYPTED_FRAME_SIZE"
      using recv [of b "w @ tail"] b by auto
    then show ?thesis using rest(4) [of b1 tail] by auto
  qed
  with one(1,2) rest(1-3) show ?case
    by (intro exI [of _ "w1 @ w"] exI [of _ a'] exI [of _ t']) simp
qed

end

subsection \<open>Both transports keep the contract\<close>

definition tcp_out :: "TcpTransport \<Rightarrow> bytes" where "tcp_out t = outgoing (tcp_stream t)"
definition tcp_inp :: "TcpTransport \<Rightarrow> bytes" where "tcp_inp t = incoming (tcp_stream t)"
definition tcp_fits :: "TcpTransport \<Rightarrow> nat \<Rightarrow> bool" where "tcp_fits t n \<longleftrightarrow> n \<le> max_frame_size t \<and> n \<le> 65535"

lemma tcp_receive_packet:
  assumes "tcp_fits b (length p)" "tcp_inp b = (put_u16 (of_nat (length p)) @ p) @ rest"
  shows "tcp_receive b = (Ok (Some p), b\<lparr>tcp_stream := (tcp_stream b)\<lparr>incoming := rest\<rparr>\<rparr>)"
proof -
  have len: "length p < 65536" using assms(1) by (simp add: tcp_fits_def)
  have "stream_read_exact 2 (tcp_stream b) = (Ok (put_u16 (of_nat (length p))), (tcp_stream b)\<lparr>incoming := p @ rest\<rparr>)"
    using assms(2) by (simp add: stream_read_exact_append tcp_inp_def)
  moreover have "stream_read_exact (length p) ((tcp_stream b)\<lparr>incoming := p @ rest\<rparr>) = (Ok p, (tcp_stream b)\<lparr>incoming := rest\<rparr>)"
    by (simp add: stream_read_exact_append)
  moreover have "unat (of_nat (nat_from_be (put_u16 (of_nat (length p)))) :: u16) = length p"
    using get_u16_put [of "of_nat (length p)" "[]"] len by (simp add: get_u16_def)
  ultimately show ?thesis using assms(1)
    by (simp add: tcp_receive_def on_tcp_def io_then_def io_lift_def Let_def tcp_fits_def)
qed

interpretation tcp: packet_transport "\<lambda>p t. Some (tcp_send p t)" "\<lambda>t. Some (tcp_receive t)" tcp_out tcp_inp
  "\<lambda>n t. write_fault (tcp_stream t) = None" "\<lambda>t. True" tcp_fits
proof unfold_locales
  fix n :: nat and a :: TcpTransport and p :: bytes
  assume a: "write_fault (tcp_stream a) = None" "tcp_fits a (length p)"
  let ?w = "put_u16 (of_nat (length p)) @ p"
  let ?a = "a\<lparr>tcp_stream := (tcp_stream a)\<lparr>outgoing := outgoing (tcp_stream a) @ ?w\<rparr>\<rparr>"
  have "tcp_send p a = (Ok (), ?a)"
    using a by (simp add: tcp_send_def on_tcp_def io_then_def stream_write_all_def tcp_fits_def)
  moreover have "\<exists>b'. tcp_receive b = (Ok (Some p), b') \<and> tcp_inp b' = rest \<and> tcp_fits b' = tcp_fits b"
    if "tcp_fits b (length p)" "tcp_inp b = ?w @ rest" for b rest
    using tcp_receive_packet [OF that] by (simp add: tcp_inp_def tcp_fits_def fun_eq_iff)
  ultimately show "\<exists>w a'. Some (tcp_send p a) = Some (Ok (), a') \<and> tcp_out a' = tcp_out a @ w \<and> write_fault (tcp_stream a') = None
      \<and> tcp_fits a' = tcp_fits a
      \<and> (\<forall>b rest. True \<longrightarrow> tcp_fits b (length p) \<longrightarrow> tcp_inp b = w @ rest \<longrightarrow>
          (\<exists>b'. Some (tcp_receive b) = Some (Ok (Some p), b') \<and> tcp_inp b' = rest \<and> True \<and> tcp_fits b' = tcp_fits b))"
    using a by (intro exI [of _ ?w] exI [of _ ?a]) (simp add: tcp_out_def tcp_fits_def [abs_def])
qed

interpretation mem: packet_transport mem_send mem_receive mem_tx mem_rx
  "\<lambda>n t. \<not> mem_closed t \<and> mem_tx_open t \<and> length (mem_tx t) + n \<le> mem_capacity t" "\<lambda>t. \<not> mem_closed t" "\<lambda>t n. True"
proof unfold_locales
  fix n :: nat and a :: MemoryTransport and p :: bytes
  assume a: "\<not> mem_closed a \<and> mem_tx_open a \<and> length (mem_tx a) + Suc n \<le> mem_capacity a"
  then show "\<exists>w a'. mem_send p a = Some (Ok (), a') \<and> mem_tx a' = mem_tx a @ w
      \<and> (\<not> mem_closed a' \<and> mem_tx_open a' \<and> length (mem_tx a') + n \<le> mem_capacity a') \<and> (\<lambda>n. True) = (\<lambda>n. True)
      \<and> (\<forall>b rest. \<not> mem_closed b \<longrightarrow> True \<longrightarrow> mem_rx b = w @ rest \<longrightarrow>
          (\<exists>b'. mem_receive b = Some (Ok (Some p), b') \<and> mem_rx b' = rest \<and> \<not> mem_closed b' \<and> (\<lambda>n. True) = (\<lambda>n. True)))"
    by (intro exI [of _ "[p]"] exI [of _ "a\<lparr>mem_tx := mem_tx a @ [p]\<rparr>"]) (simp add: mem_send_def mem_receive_def)
qed

subsection \<open>Properties\<close>

text \<open>C14: the encrypted transport delivers frames in order and unchanged over both transports: over TCP whenever the
  limits of both sides admit an encrypted frame, and over the memory pair as long as the channel has room.\<close>

theorem secure_transport_delivers:
  assumes "snow_transport S chan" "\<forall>f \<in> set fs. wf_frame f"
  shows "(chan (n + length fs) (sec_session a) t \<and> write_fault (tcp_stream (sec_transport a)) = None
      \<and> ENCRYPTED_FRAME_SIZE \<le> max_frame_size (sec_transport a) \<longrightarrow>
     (\<exists>w a' t'. secure_send_frames S (\<lambda>p t. Some (tcp_send p t)) fs a = Some a'
       \<and> outgoing (tcp_stream (sec_transport a')) = outgoing (tcp_stream (sec_transport a)) @ w \<and> chan n (sec_session a') t'
       \<and> (\<forall>b rest. sec_session b = t \<longrightarrow> ENCRYPTED_FRAME_SIZE \<le> max_frame_size (sec_transport b) \<longrightarrow>
           incoming (tcp_stream (sec_transport b)) = w @ rest \<longrightarrow>
           (\<exists>b'. secure_recv_frames S (\<lambda>t. Some (tcp_receive t)) (length fs) b = Some (fs, b')
             \<and> incoming (tcp_stream (sec_transport b')) = rest \<and> sec_session b' = t'))))
   \<and> (chan (n + length fs) (sec_session c) t \<and> \<not> mem_closed (sec_transport c) \<and> mem_tx_open (sec_transport c)
      \<and> length (mem_tx (sec_transport c)) + length fs \<le> mem_capacity (sec_transport c) \<longrightarrow>
     (\<exists>w c' t'. secure_send_frames S mem_send fs c = Some c' \<and> mem_tx (sec_transport c') = mem_tx (sec_transport c) @ w
       \<and> chan n (sec_session c') t'
       \<and> (\<forall>b rest. sec_session b = t \<longrightarrow> \<not> mem_closed (sec_transport b) \<longrightarrow> mem_rx (sec_transport b) = w @ rest \<longrightarrow>
           (\<exists>b'. secure_recv_frames S mem_receive (length fs) b = Some (fs, b')
             \<and> mem_rx (sec_transport b') = rest \<and> sec_session b' = t'))))"
proof (intro conjI impI)
  assume "chan (n + length fs) (sec_session a) t \<and> write_fault (tcp_stream (sec_transport a)) = None
    \<and> ENCRYPTED_FRAME_SIZE \<le> max_frame_size (sec_transport a)"
  moreover have "tcp_fits t' ENCRYPTED_FRAME_SIZE \<longleftrightarrow> ENCRYPTED_FRAME_SIZE \<le> max_frame_size t'" for t'
    by (auto simp: tcp_fits_def frame_sizes)
  ultimately show "\<exists>w a' t'. secure_send_frames S (\<lambda>p t. Some (tcp_send p t)) fs a = Some a'
       \<and> outgoing (tcp_stream (sec_transport a')) = outgoing (tcp_stream (sec_transport a)) @ w \<and> chan n (sec_session a') t'
       \<and> (\<forall>b rest. sec_session b = t \<longrightarrow> ENCRYPTED_FRAME_SIZE \<le> max_frame_size (sec_transport b) \<longrightarrow>
           incoming (tcp_stream (sec_transport b)) = w @ rest \<longrightarrow>
           (\<exists>b'. secure_recv_frames S (\<lambda>t. Some (tcp_receive t)) (length fs) b = Some (fs, b')
             \<and> incoming (tcp_stream (sec_transport b')) = rest \<and> sec_session b' = t'))"
    using tcp.secure_frames [OF assms, of n a t] by (simp add: tcp_out_def tcp_inp_def)
next
  assume "chan (n + length fs) (sec_session c) t \<and> \<not> mem_closed (sec_transport c) \<and> mem_tx_open (sec_transport c)
      \<and> length (mem_tx (sec_transport c)) + length fs \<le> mem_capacity (sec_transport c)"
  then show "\<exists>w c' t'. secure_send_frames S mem_send fs c = Some c' \<and> mem_tx (sec_transport c') = mem_tx (sec_transport c) @ w
       \<and> chan n (sec_session c') t'
       \<and> (\<forall>b rest. sec_session b = t \<longrightarrow> \<not> mem_closed (sec_transport b) \<longrightarrow> mem_rx (sec_transport b) = w @ rest \<longrightarrow>
           (\<exists>b'. secure_recv_frames S mem_receive (length fs) b = Some (fs, b')
             \<and> mem_rx (sec_transport b') = rest \<and> sec_session b' = t'))"
    using mem.secure_frames [OF assms, of n c t] by simp
qed

definition sample_tcp :: TcpTransport where "sample_tcp = tcp_transport_new sample_stream"

theorem secure_transport_delivers_witness:
  "\<exists>w a'. secure_send_frames counting_snow (\<lambda>p t. Some (tcp_send p t)) sample_frames \<lparr>sec_transport = sample_tcp, sec_session = (0, 0)\<rparr> = Some a'
    \<and> outgoing (tcp_stream (sec_transport a')) = w
    \<and> (\<exists>b'. secure_recv_frames counting_snow (\<lambda>t. Some (tcp_receive t)) 2
         \<lparr>sec_transport = tcp_transport_new (sample_stream\<lparr>incoming := w\<rparr>), sec_session = (0, 0)\<rparr> = Some (sample_frames, b'))"
proof -
  let ?a = "\<lparr>sec_transport = sample_tcp, sec_session = (0, 0)\<rparr>"
  have two: "length sample_frames = 2" by (simp add: sample_frames_def)
  have "\<exists>w a' t'. secure_send_frames counting_snow (\<lambda>p t. Some (tcp_send p t)) sample_frames ?a = Some a'
       \<and> outgoing (tcp_stream (sec_transport a')) = outgoing (tcp_stream (sec_transport ?a)) @ w \<and> counting_chan 0 (sec_session a') t'
       \<and> (\<forall>b rest. sec_session b = (0, 0) \<longrightarrow> ENCRYPTED_FRAME_SIZE \<le> max_frame_size (sec_transport b) \<longrightarrow>
           incoming (tcp_stream (sec_transport b)) = w @ rest \<longrightarrow>
           (\<exists>b'. secure_recv_frames counting_snow (\<lambda>t. Some (tcp_receive t)) (length sample_frames) b = Some (sample_frames, b')
             \<and> incoming (tcp_stream (sec_transport b')) = rest \<and> sec_session b' = t'))"
    using secure_transport_delivers [OF counting_snow_transport sample_frames_wf, of 0 ?a "(0, 0)", THEN conjunct1]
    by (simp only: counting_chan_def sample_tcp_def tcp_transport_new_def sample_stream_def frame_sizes) simp
  then obtain w a' where "secure_send_frames counting_snow (\<lambda>p t. Some (tcp_send p t)) sample_frames ?a = Some a'"
    "outgoing (tcp_stream (sec_transport a')) = w"
    and r: "\<And>b. sec_session b = (0, 0) \<Longrightarrow> ENCRYPTED_FRAME_SIZE \<le> max_frame_size (sec_transport b) \<Longrightarrow>
       incoming (tcp_stream (sec_transport b)) = w \<Longrightarrow>
       \<exists>b'. secure_recv_frames counting_snow (\<lambda>t. Some (tcp_receive t)) 2 b = Some (sample_frames, b')"
    unfolding two by (fastforce simp: sample_tcp_def tcp_transport_new_def sample_stream_def)
  moreover have "\<exists>b'. secure_recv_frames counting_snow (\<lambda>t. Some (tcp_receive t)) 2
      \<lparr>sec_transport = tcp_transport_new (sample_stream\<lparr>incoming := w\<rparr>), sec_session = (0, 0)\<rparr> = Some (sample_frames, b')"
    by (rule r) (simp_all add: tcp_transport_new_def frame_sizes)
  ultimately show ?thesis by blast
qed

end
