(* ===== verification/Listener_Tasks.thy ===== *)
theory Listener_Tasks
  imports Server_Pipeline Transition
begin

section \<open>The accept loop and the session task\<close>

text \<open>
  Two loops as step relations. First, \<open>run_with_shutdown\<close> of both listeners: the accept loop, the semaphore that
  bounds the number of connections, the watch channel that tells the loop to stop, and the connection tasks, each of
  which holds a permit until it ends. Second, the
  loop of \<open>handle_authenticated_noise_session\<close> in \<open>src/server/listener.rs\<close>: one task that both processes inbound
  frames, whose answers it puts into a bounded channel of 64 frames, and empties that channel. The lemmas bound the
  number of connections, show that a shutdown comes to an end, and that the session task can block itself for good.
\<close>

subsection \<open>Accepting connections\<close>

datatype accept_phase = Accepting | AwaitingPermit | Stopped

record accept_state =
  max_connections :: nat
  available_permits :: nat
  tasks :: nat
  accept_phase :: accept_phase
  shutdown_value :: bool
  shutdown_unseen :: bool
  sender_dropped :: bool

definition accept_init :: "accept_state \<Rightarrow> bool" where
  "accept_init st \<longleftrightarrow> available_permits st = max_connections st \<and> tasks st = 0 \<and> accept_phase st = Accepting"

datatype accept_label = AcceptOk | AcceptFailed | PermitAcquired | TaskEnded | ShutdownSent bool | SenderDropped | ShutdownChanged

text \<open>The watch channel holds a value; \<open>changed()\<close> is ready when a value was sent that the loop has not seen, with \<open>Ok\<close>,
  or else when the sender was dropped, with \<open>Err\<close>. The pipeline listener (\<open>eager\<close>) looks at the value in either case; the
  routed listener ignores it after \<open>Err\<close> while it accepts, but not while it waits for a permit. If the value is not
  \<open>true\<close> the loop continues, which drops a connection that waits for its permit. The pipeline listener tries to take a
  permit before it looks at the watch channel; the routed listener waits for both at once. A stopped loop has dropped
  its receiver.\<close>

definition heeds :: "bool \<Rightarrow> accept_state \<Rightarrow> bool" where
  "heeds eager st \<longleftrightarrow> (if eager \<or> accept_phase st = AwaitingPermit then shutdown_value st
     else shutdown_unseen st \<and> shutdown_value st)"

inductive accept_step :: "bool \<Rightarrow> accept_state \<Rightarrow> accept_label \<Rightarrow> accept_state \<Rightarrow> bool" for eager where
  accept_ok: "accept_phase st = Accepting \<Longrightarrow> accept_step eager st AcceptOk (st\<lparr>accept_phase := AwaitingPermit\<rparr>)"
| accept_failed: "accept_phase st = Accepting \<Longrightarrow> accept_step eager st AcceptFailed st"
| permit: "accept_phase st = AwaitingPermit \<Longrightarrow> available_permits st > 0 \<Longrightarrow>
    accept_step eager st PermitAcquired
      (st\<lparr>available_permits := available_permits st - 1, tasks := tasks st + 1, accept_phase := Accepting\<rparr>)"
| task_ended: "tasks st > 0 \<Longrightarrow>
    accept_step eager st TaskEnded (st\<lparr>available_permits := available_permits st + 1, tasks := tasks st - 1\<rparr>)"
| shutdown_sent: "accept_phase st \<noteq> Stopped \<Longrightarrow> \<not> sender_dropped st \<Longrightarrow>
    accept_step eager st (ShutdownSent v) (st\<lparr>shutdown_value := v, shutdown_unseen := True\<rparr>)"
| dropped: "accept_phase st \<noteq> Stopped \<Longrightarrow> \<not> sender_dropped st \<Longrightarrow>
    accept_step eager st SenderDropped (st\<lparr>sender_dropped := True\<rparr>)"
| changed: "accept_phase st \<noteq> Stopped \<Longrightarrow> shutdown_unseen st \<or> sender_dropped st \<Longrightarrow>
    \<not> (eager \<and> accept_phase st = AwaitingPermit \<and> available_permits st > 0) \<Longrightarrow>
    accept_step eager st ShutdownChanged
      (st\<lparr>shutdown_unseen := False, accept_phase := (if heeds eager st then Stopped else Accepting)\<rparr>)"

definition pipeline_accept_step :: "accept_state \<Rightarrow> accept_label \<Rightarrow> accept_state \<Rightarrow> bool" where
  "pipeline_accept_step = accept_step True"

definition routed_accept_step :: "accept_state \<Rightarrow> accept_label \<Rightarrow> accept_state \<Rightarrow> bool" where
  "routed_accept_step = accept_step False"

abbreviation accept_loops :: "(accept_state \<Rightarrow> accept_label \<Rightarrow> accept_state \<Rightarrow> bool) set" where
  "accept_loops \<equiv> {pipeline_accept_step, routed_accept_step}"

lemma accept_loop_cases: "step \<in> accept_loops \<longleftrightarrow> (\<exists>eager. step = accept_step eager)"
  by (metis (full_types) insert_iff empty_iff pipeline_accept_step_def routed_accept_step_def)

definition active_connections_of :: "accept_state \<Rightarrow> nat" where
  "active_connections_of st = max_connections st - available_permits st"

definition accept_inv :: "accept_state \<Rightarrow> bool" where
  "accept_inv st \<longleftrightarrow> tasks st + available_permits st = max_connections st"

interpretation accept_sys: invariant_system accept_init "accept_step eager" accept_inv for eager
proof unfold_locales
  fix st show "accept_init st \<Longrightarrow> accept_inv st" by (simp add: accept_init_def accept_inv_def)
next
  fix st l st' show "accept_inv st \<Longrightarrow> accept_step eager st l st' \<Longrightarrow> accept_inv st'"
    by (erule accept_step.cases) (auto simp: accept_inv_def)
qed

inductive_simps accept_step_simps:
  "accept_step eager st TaskEnded st'" "accept_step eager st AcceptOk st'" "accept_step eager st AcceptFailed st'"
  "accept_step eager st PermitAcquired st'" "accept_step eager st (ShutdownSent v) st'" "accept_step eager st SenderDropped st'"
  "accept_step eager st ShutdownChanged st'"

text \<open>A stopped loop only lets its connections end.\<close>

lemma stopped_step:
  "accept_step eager st l st' \<Longrightarrow> accept_phase st = Stopped \<Longrightarrow>
     accept_phase st' = Stopped \<and> l = TaskEnded \<and> tasks st = Suc (tasks st')"
  by (erule accept_step.cases) auto

lemma stopped_runs:
  "runs (accept_step eager) st ls st' \<Longrightarrow> accept_phase st = Stopped \<Longrightarrow>
     accept_phase st' = Stopped \<and> ls = replicate (length ls) TaskEnded \<and> tasks st = length ls + tasks st'"
  by (induction rule: runs.induct) (auto dest!: stopped_step)

lemma stopped_stuck_iff:
  "accept_phase st = Stopped \<Longrightarrow> (\<exists>l st'. accept_step eager st l st') \<longleftrightarrow> tasks st > 0"
  by (metis stopped_step task_ended zero_less_Suc)

lemma stopped_end:
  assumes "runs (accept_step eager) st ls st'" "accept_phase st = Stopped" "accept_inv st"
  shows "ls = replicate (tasks st - tasks st') TaskEnded \<and> length ls \<le> max_connections st \<and> accept_phase st' = Stopped
    \<and> ((\<nexists>l st''. accept_step eager st' l st'') \<longleftrightarrow> active_connections_of st' = 0)"
proof -
  have inv: "accept_inv st'" using accept_sys.runs_inv assms(1,3) by blast
  have stop: "accept_phase st' = Stopped" "ls = replicate (length ls) TaskEnded" "tasks st = length ls + tasks st'"
    using stopped_runs assms(1,2) by blast+
  have "tasks st - tasks st' = length ls" "length ls \<le> max_connections st" "tasks st' = active_connections_of st'"
    using stop(3) inv assms(3) by (simp_all add: accept_inv_def active_connections_of_def)
  then show ?thesis using stop(1,2) stopped_stuck_iff [OF stop(1), of eager] by auto
qed

text \<open>A shutdown that was sent stays visible until the loop stops.\<close>

definition told_to_stop :: "accept_state \<Rightarrow> bool" where
  "told_to_stop st \<longleftrightarrow> accept_phase st = Stopped \<or> shutdown_value st \<and> shutdown_unseen st"

lemma told_step:
  "accept_step eager st l st' \<Longrightarrow> told_to_stop st \<Longrightarrow> l \<noteq> ShutdownSent False \<Longrightarrow> told_to_stop st'"
  by (erule accept_step.cases) (auto simp: told_to_stop_def heeds_def)

lemma told_runs:
  "runs (accept_step eager) st ls st' \<Longrightarrow> told_to_stop st \<Longrightarrow> ShutdownSent False \<notin> set ls \<Longrightarrow> told_to_stop st'"
  by (induction rule: runs.induct) (auto dest: told_step)

lemma told_stops:
  assumes "told_to_stop st"
  shows "\<exists>ls st'. runs (accept_step eager) st ls st' \<and> set ls \<subseteq> {PermitAcquired, ShutdownChanged} \<and> length ls \<le> 2
    \<and> accept_phase st' = Stopped"
proof -
  let ?seen = "\<lambda>st. st\<lparr>shutdown_unseen := False, accept_phase := Stopped\<rparr>"
  let ?go = "st\<lparr>available_permits := available_permits st - 1, tasks := tasks st + 1, accept_phase := Accepting\<rparr>"
  consider "accept_phase st = Stopped" | "eager \<and> accept_phase st = AwaitingPermit \<and> available_permits st > 0"
    | "accept_phase st \<noteq> Stopped" "\<not> (eager \<and> accept_phase st = AwaitingPermit \<and> available_permits st > 0)" by blast
  then show ?thesis
  proof cases
    case 1
    then show ?thesis by (intro exI [of _ "[]"] exI [of _ st]) (simp add: runs_nil)
  next
    case 2
    then have "runs (accept_step eager) st [PermitAcquired, ShutdownChanged] (?seen ?go)"
      using assms by (simp add: runs_simps accept_step_simps told_to_stop_def heeds_def)
    then show ?thesis by (intro exI [of _ "[PermitAcquired, ShutdownChanged]"] exI [of _ "?seen ?go"]) simp
  next
    case 3
    then have "runs (accept_step eager) st [ShutdownChanged] (?seen st)"
      using assms by (simp add: runs_simps accept_step_simps told_to_stop_def heeds_def)
    then show ?thesis by (intro exI [of _ "[ShutdownChanged]"] exI [of _ "?seen st"]) simp
  qed
qed

subsection \<open>The session task of the pipeline listener\<close>

definition SESSION_CHANNEL_CAPACITY :: nat where "SESSION_CHANNEL_CAPACITY = 64"

text \<open>\<open>awaiting\<close> is the send that \<open>process_frame\<close> is suspended on; while it is, the task polls nothing else.\<close>

record session_task =
  st_pipeline :: pipeline
  outbound_rx :: "Frame list"
  awaiting :: "Frame option"
  task_over :: bool

definition session_task_new :: "Session \<Rightarrow> SessionMap \<Rightarrow> session_task" where
  "session_task_new s sm = \<lparr>st_pipeline = server_pipeline_new s outbound_router_new sm, outbound_rx = [], awaiting = None, task_over = False\<rparr>"

definition session_task_init :: "session_task \<Rightarrow> bool" where
  "session_task_init t \<longleftrightarrow> t = session_task_new (pl_session (st_pipeline t)) (pl_sessions (st_pipeline t))
     \<and> sn_session_id (pl_session (st_pipeline t)) = take 16 ECHO_SERVICE_PEER_ID"

datatype task_label = FrameReceived Frame | SendCompleted | FrameWritten | ReadEnded | WriteFailed

text \<open>The frames that \<open>process_frame\<close> offered to the channel in this call.\<close>

definition offered :: "pipeline \<Rightarrow> pipeline \<Rightarrow> Frame list" where
  "offered p p' = drop (length (pl_sent p)) (pl_sent p')"

inductive task_step :: "session_task \<Rightarrow> task_label \<Rightarrow> session_task \<Rightarrow> bool" where
  frame_received: "\<not> task_over t \<Longrightarrow> awaiting t = None \<Longrightarrow> wf_frame f \<Longrightarrow>
    process_frame standard_relay instant now (st_pipeline t) f = ((r :: (unit EchoMeshError, unit) result), p') \<Longrightarrow>
    task_step t (FrameReceived f) (t\<lparr>st_pipeline := p',
      awaiting := (case offered (st_pipeline t) p' of g # _ \<Rightarrow> Some g | [] \<Rightarrow> None)\<rparr>)"
| send_completed: "\<not> task_over t \<Longrightarrow> awaiting t = Some g \<Longrightarrow> length (outbound_rx t) < SESSION_CHANNEL_CAPACITY \<Longrightarrow>
    task_step t SendCompleted (t\<lparr>outbound_rx := outbound_rx t @ [g], awaiting := None\<rparr>)"
| frame_written: "\<not> task_over t \<Longrightarrow> awaiting t = None \<Longrightarrow> outbound_rx t = g # q \<Longrightarrow>
    task_step t FrameWritten (t\<lparr>outbound_rx := q\<rparr>)"
| read_ended: "\<not> task_over t \<Longrightarrow> awaiting t = None \<Longrightarrow> task_step t ReadEnded (t\<lparr>task_over := True\<rparr>)"
| write_failed: "\<not> task_over t \<Longrightarrow> awaiting t = None \<Longrightarrow> outbound_rx t \<noteq> [] \<Longrightarrow>
    task_step t WriteFailed (t\<lparr>outbound_rx := [], task_over := True\<rparr>)"

text \<open>Blocked: suspended on a send into the full channel that only this task empties.\<close>

definition self_blocked :: "session_task \<Rightarrow> bool" where
  "self_blocked t \<longleftrightarrow> \<not> task_over t \<and> awaiting t \<noteq> None \<and> length (outbound_rx t) \<ge> SESSION_CHANNEL_CAPACITY"

lemma self_blocked_stuck: "self_blocked t \<Longrightarrow> \<not> task_step t l t'"
  by (auto simp: self_blocked_def elim: task_step.cases)

text \<open>An echo frame is answered with itself, so a run of them fills the channel.\<close>

definition echo_frame :: Frame where
  "echo_frame = \<lparr>session_id = take 16 ECHO_SERVICE_PEER_ID, nonce = replicate 8 0, payload = [1]\<rparr>"

lemma echo_frame_processed:
  "\<exists>p'. process_frame standard_relay instant now p echo_frame = ((Ok () :: (unit EchoMeshError, unit) result), p')
     \<and> offered p p' = [echo_frame] \<and> pl_session p' = pl_session p"
  by (simp add: process_frame_def echo_frame_def constant_time_eq_iff Let_def decode_client_message_def envelope_decode_def
      raw_echo_def envelope_new_eq dispatch_def standard_relay_eq process_echo_def frame_new_def frame_sizes offered_def)

definition queued :: "nat \<Rightarrow> session_task \<Rightarrow> bool" where
  "queued n t \<longleftrightarrow> outbound_rx t = replicate n echo_frame \<and> awaiting t = None \<and> \<not> task_over t"

lemma echo_received:
  assumes "queued n t"
  shows "\<exists>t'. task_step t (FrameReceived echo_frame) t' \<and> outbound_rx t' = replicate n echo_frame \<and> awaiting t' = Some echo_frame
    \<and> \<not> task_over t'"
proof -
  obtain p' where p': "process_frame standard_relay 0 0 (st_pipeline t) echo_frame = ((Ok () :: (unit EchoMeshError, unit) result), p')"
    "offered (st_pipeline t) p' = [echo_frame]"
    using echo_frame_processed by blast
  have "wf_frame echo_frame"
    by (simp add: echo_frame_def wf_frame_def frame_typed_def frame_sizes ECHO_SERVICE_PEER_ID_def)
  with assms frame_received [OF _ _ _ p'(1)] p'(2) show ?thesis by (fastforce simp: queued_def)
qed

lemma echo_queued:
  assumes "queued n t" "n < SESSION_CHANNEL_CAPACITY"
  shows "\<exists>t'. runs task_step t [FrameReceived echo_frame, SendCompleted] t' \<and> queued (Suc n) t'"
proof -
  obtain t1 where t1: "task_step t (FrameReceived echo_frame) t1" "outbound_rx t1 = replicate n echo_frame"
    "awaiting t1 = Some echo_frame" "\<not> task_over t1"
    using echo_received [OF assms(1)] by blast
  then have "task_step t1 SendCompleted (t1\<lparr>outbound_rx := outbound_rx t1 @ [echo_frame], awaiting := None\<rparr>)"
    using assms(2) by (intro send_completed) auto
  with t1 show ?thesis
    by (auto simp: queued_def replicate_append_same [symmetric] intro!: runs.intros exI)
qed

lemma queue_fills:
  "reachable_from session_task_init task_step t \<Longrightarrow> queued 0 t \<Longrightarrow> n \<le> SESSION_CHANNEL_CAPACITY \<Longrightarrow>
     \<exists>t'. reachable_from session_task_init task_step t' \<and> queued n t'"
proof (induction n)
  case (Suc n)
  then obtain t' where "reachable_from session_task_init task_step t'" "queued n t'" by auto
  with Suc.prems(3) show ?case using echo_queued [of n t'] reachable_runs by fastforce
qed auto

subsection \<open>Properties\<close>


definition sample_accept :: accept_state where
  "sample_accept = \<lparr>max_connections = 1, available_permits = 1, tasks = 0, accept_phase = Accepting,
     shutdown_value = False, shutdown_unseen = False, sender_dropped = False\<rparr>"

lemma sample_accept_run:
  "runs (accept_step eager) sample_accept [AcceptOk, PermitAcquired, ShutdownSent True]
     (sample_accept\<lparr>available_permits := 0, tasks := 1, shutdown_value := True, shutdown_unseen := True\<rparr>)"
  by (simp add: runs_simps accept_step_simps sample_accept_def)

lemma sample_accept_reachable:
  "reachable_from accept_init (accept_step eager)
     (sample_accept\<lparr>available_permits := 0, tasks := 1, shutdown_value := True, shutdown_unseen := True\<rparr>)"
  by (rule reachable_runs [OF sample_accept_run reach_init]) (simp add: accept_init_def sample_accept_def)




text \<open>When the sender is dropped without a shutdown, \<open>changed()\<close> is always ready: the loop can turn without waiting for
  anything, and the routed listener may drop a connection although a permit is free.\<close>

theorem dropped_sender_spins:
  assumes "step \<in> accept_loops" "accept_phase st = Accepting" "sender_dropped st" "\<not> shutdown_value st" "\<not> shutdown_unseen st"
  shows "step st ShutdownChanged st"
    and "available_permits st > 0 \<Longrightarrow> runs routed_accept_step st [AcceptOk, ShutdownChanged] st"
  using assms by (auto simp: pipeline_accept_step_def routed_accept_step_def runs_simps accept_step_simps heeds_def)

text \<open>C31: the session task of the pipeline listener can block itself. Because the same task fills and empties the
  answer channel, a client that has 65 requests processed without an answer being written in between (which the fair
  choice between the two branches allows) leaves the task waiting for room that only it could make: a reachable state
  without any further step, neither reading nor writing nor ending.\<close>

theorem session_task_deadlocks:
  "\<exists>t. reachable_from session_task_init task_step t \<and> \<not> task_over t \<and> (\<forall>l t'. \<not> task_step t l t')"
proof -
  let ?t0 = "session_task_new (session_new (take 16 ECHO_SERVICE_PEER_ID) None 0) Map.empty"
  have "reachable_from session_task_init task_step ?t0"
    by (rule reach_init) (simp add: session_task_init_def session_task_new_def server_pipeline_new_def session_new_def)
  moreover have "queued 0 ?t0" by (simp add: queued_def session_task_new_def)
  ultimately obtain t where t: "reachable_from session_task_init task_step t" "queued SESSION_CHANNEL_CAPACITY t"
    using queue_fills by blast
  obtain t' where t': "task_step t (FrameReceived echo_frame) t'" "outbound_rx t' = replicate SESSION_CHANNEL_CAPACITY echo_frame"
    "awaiting t' = Some echo_frame" "\<not> task_over t'"
    using echo_received [OF t(2)] by blast
  then have "self_blocked t'" by (simp add: self_blocked_def)
  moreover have "reachable_from session_task_init task_step t'" using t(1) t'(1) by (rule reach_step)
  ultimately show ?thesis using self_blocked_stuck t'(4) by blast
qed

end
