(* ===== verification/Route_Registry.thy ===== *)
theory Route_Registry
  imports Relay_Prelude
begin

section \<open>The route registry\<close>

text \<open>
  \<open>RouteRegistryInner\<close> of \<open>src/server/routed_listener.rs\<close>: the two hash maps from peer ids and from their
  16-byte prefixes to routes. A route is generic in the handle \<open>'tx\<close> of the sending half of a connection's channel.
  The locale \<open>route_table\<close> is the contract the session code relies on; it is interpreted on the registry. Its lemmas
  show, for every sequence of registrations and removals, that the latest registration of a peer wins, that a late
  removal by an older connection changes nothing, and that every prefix route is also a current route of its peer.
\<close>

subsection \<open>Data and operations\<close>

record 'tx RouteEntry =
  entry_connection :: u64
  entry_peer :: bytes
  entry_tx :: 'tx

record 'tx RouteRegistryInner =
  by_peer_id :: "bytes \<rightharpoonup> 'tx RouteEntry"
  by_prefix :: "bytes \<rightharpoonup> 'tx RouteEntry"

definition registry_new :: "'tx RouteRegistryInner" where
  "registry_new = \<lparr>by_peer_id = Map.empty, by_prefix = Map.empty\<rparr>"

text \<open>\<open>peer_id[..16]\<close> of a 32-byte peer id.\<close>

definition prefix_of :: "bytes \<Rightarrow> bytes" where
  "prefix_of peer = take 16 peer"

definition insert_route ::
    "'tx RouteRegistryInner \<Rightarrow> bytes \<Rightarrow> u64 \<Rightarrow> 'tx \<Rightarrow> 'tx RouteEntry option \<times> 'tx RouteRegistryInner" where
  "insert_route r peer conn tx =
     (let entry = \<lparr>entry_connection = conn, entry_peer = peer, entry_tx = tx\<rparr> in
      (by_peer_id r peer,
       r\<lparr>by_prefix := (by_prefix r)(prefix_of peer \<mapsto> entry), by_peer_id := (by_peer_id r)(peer \<mapsto> entry)\<rparr>))"

definition remove_connection ::
    "'tx RouteRegistryInner \<Rightarrow> bytes \<Rightarrow> u64 \<Rightarrow> bool \<times> 'tx RouteRegistryInner" where
  "remove_connection r peer conn =
     (let is_current = (case by_peer_id r peer of Some e \<Rightarrow> entry_connection e = conn | None \<Rightarrow> False) in
      if is_current
      then (True, r\<lparr>by_peer_id := (by_peer_id r)(peer := None), by_prefix := (by_prefix r)(prefix_of peer := None)\<rparr>)
      else (False, r))"

definition get_by_peer_id :: "'tx RouteRegistryInner \<Rightarrow> bytes \<Rightarrow> 'tx RouteEntry option" where
  "get_by_peer_id r peer = by_peer_id r peer"

definition get_by_prefix :: "'tx RouteRegistryInner \<Rightarrow> bytes \<Rightarrow> 'tx RouteEntry option" where
  "get_by_prefix r prefix = by_prefix r prefix"

definition active_count :: "'tx RouteRegistryInner \<Rightarrow> nat" where
  "active_count r = card (dom (by_peer_id r))"

subsection \<open>The contract\<close>

datatype 'tx route_op = Register bytes u64 'tx | Unregister bytes u64

text \<open>The connection that a peer's route belongs to after a sequence of operations, newest first: the specification.\<close>

fun owner_after :: "'tx route_op list \<Rightarrow> bytes \<Rightarrow> (u64 \<times> 'tx) option" where
  "owner_after [] peer = None"
| "owner_after (Register p conn tx # ops) peer = (if p = peer then Some (conn, tx) else owner_after ops peer)"
| "owner_after (Unregister p conn # ops) peer =
     (case owner_after ops peer of
        Some (c, tx) \<Rightarrow> if p = peer \<and> c = conn then None else Some (c, tx)
      | None \<Rightarrow> None)"

fun registered :: "'tx route_op list \<Rightarrow> bytes set" where
  "registered [] = {}"
| "registered (Register p conn tx # ops) = insert p (registered ops)"
| "registered (Unregister p conn # ops) = registered ops"

locale route_table =
  fixes empty :: "'r"
    and ins :: "'r \<Rightarrow> bytes \<Rightarrow> u64 \<Rightarrow> 'tx \<Rightarrow> 'r"
    and rem :: "'r \<Rightarrow> bytes \<Rightarrow> u64 \<Rightarrow> 'r"
    and by_id :: "'r \<Rightarrow> bytes \<Rightarrow> 'tx RouteEntry option"
    and by_pre :: "'r \<Rightarrow> bytes \<Rightarrow> 'tx RouteEntry option"
  assumes by_id_empty: "by_id empty q = None" and by_pre_empty: "by_pre empty pre = None"
    and by_id_ins: "by_id (ins r p c tx) q =
      (if q = p then Some \<lparr>entry_connection = c, entry_peer = p, entry_tx = tx\<rparr> else by_id r q)"
    and by_pre_ins: "by_pre (ins r p c tx) pre =
      (if pre = prefix_of p then Some \<lparr>entry_connection = c, entry_peer = p, entry_tx = tx\<rparr> else by_pre r pre)"
    and by_id_rem: "by_id (rem r p c) q =
      (case by_id r q of Some e \<Rightarrow> if q = p \<and> entry_connection e = c then None else Some e | None \<Rightarrow> None)"
    and by_pre_rem: "by_pre (rem r p c) pre =
      (if pre = prefix_of p \<and> (\<exists>e. by_id r p = Some e \<and> entry_connection e = c) then None else by_pre r pre)"
begin

text \<open>Routes are filed under their own peer id, and a prefix leads only to a current route with that prefix.\<close>

definition consistent :: "'r \<Rightarrow> bool" where
  "consistent r \<longleftrightarrow> (\<forall>p e. by_id r p = Some e \<longrightarrow> entry_peer e = p)
     \<and> (\<forall>pre e. by_pre r pre = Some e \<longrightarrow> prefix_of (entry_peer e) = pre \<and> by_id r (entry_peer e) = Some e)"

lemma consistent_empty: "consistent empty"
  by (simp add: consistent_def by_id_empty by_pre_empty)

lemma consistent_ins: "consistent r \<Longrightarrow> consistent (ins r p c tx)"
  by (auto simp: consistent_def by_id_ins by_pre_ins)

lemma consistent_rem: "consistent r \<Longrightarrow> consistent (rem r p c)"
  by (fastforce simp: consistent_def by_id_rem by_pre_rem split: option.splits if_splits)

fun run :: "'tx route_op list \<Rightarrow> 'r" where
  "run [] = empty"
| "run (Register p c tx # ops) = ins (run ops) p c tx"
| "run (Unregister p c # ops) = rem (run ops) p c"

lemma consistent_run: "consistent (run ops)"
  by (induction ops rule: run.induct) (simp_all add: consistent_empty consistent_ins consistent_rem)

lemma by_id_run:
  "by_id (run ops) p =
     map_option (\<lambda>(c, tx). \<lparr>entry_connection = c, entry_peer = p, entry_tx = tx\<rparr>) (owner_after ops p)"
  by (induction ops rule: run.induct)
    (auto simp: by_id_empty by_id_ins by_id_rem split: option.splits)

lemma by_pre_run:
  assumes "by_pre (run ops) pre = Some e"
  shows "prefix_of (entry_peer e) = pre \<and> owner_after ops (entry_peer e) = Some (entry_connection e, entry_tx e)"
proof -
  from assms consistent_run [of ops]
  have "prefix_of (entry_peer e) = pre" "by_id (run ops) (entry_peer e) = Some e" by (auto simp: consistent_def)
  then show ?thesis by (cases e) (auto simp: by_id_run)
qed

text \<open>As long as no two peers with the same prefix ever register, the prefix finds every current route.\<close>

lemma by_id_registered: "by_id (run ops) p = Some e \<Longrightarrow> p \<in> registered ops"
  by (induction ops arbitrary: e rule: run.induct)
    (auto simp: by_id_empty by_id_ins by_id_rem split: option.splits if_splits)

lemma by_pre_complete:
  "inj_on prefix_of (registered ops) \<Longrightarrow> by_id (run ops) p = Some e \<Longrightarrow> by_pre (run ops) (prefix_of p) = Some e"
proof (induction ops arbitrary: p e rule: run.induct)
  case 1
  then show ?case by (simp add: by_id_empty)
next
  case (2 q c tx ops)
  then have "prefix_of p = prefix_of q \<Longrightarrow> p = q"
    using by_id_registered [of ops p] by (auto simp: by_id_ins inj_on_def split: if_splits)
  with 2 show ?case by (auto simp: by_id_ins by_pre_ins split: if_splits)
next
  case (3 q c ops)
  then have p: "by_id (run ops) p = Some e" by (auto simp: by_id_rem split: option.splits if_splits)
  with 3 have "prefix_of p = prefix_of q \<Longrightarrow> by_id (run ops) q = Some e' \<Longrightarrow> p = q" for e'
    using by_id_registered by (auto simp: inj_on_def)
  with 3 p show ?case by (auto simp: by_id_rem by_pre_rem split: if_splits)
qed

end

subsection \<open>The registry implements the contract\<close>

definition registry_ins :: "'tx RouteRegistryInner \<Rightarrow> bytes \<Rightarrow> u64 \<Rightarrow> 'tx \<Rightarrow> 'tx RouteRegistryInner" where
  "registry_ins r p c tx = snd (insert_route r p c tx)"

definition registry_rem :: "'tx RouteRegistryInner \<Rightarrow> bytes \<Rightarrow> u64 \<Rightarrow> 'tx RouteRegistryInner" where
  "registry_rem r p c = snd (remove_connection r p c)"

lemmas registry_defs = registry_ins_def registry_rem_def insert_route_def remove_connection_def
  get_by_peer_id_def get_by_prefix_def registry_new_def Let_def

interpretation registry: route_table registry_new registry_ins registry_rem get_by_peer_id get_by_prefix
  by unfold_locales (auto simp: registry_defs split: option.splits)

text \<open>The registry after a sequence of calls, newest first.\<close>

fun registry_after :: "'tx route_op list \<Rightarrow> 'tx RouteRegistryInner" where
  "registry_after [] = registry_new"
| "registry_after (Register p conn tx # ops) = snd (insert_route (registry_after ops) p conn tx)"
| "registry_after (Unregister p conn # ops) = snd (remove_connection (registry_after ops) p conn)"

lemma registry_after_run: "registry_after ops = registry.run ops"
  by (induction ops rule: registry_after.induct) (simp_all add: registry_ins_def [symmetric] registry_rem_def [symmetric])

subsection \<open>Properties\<close>

text \<open>C8: the registry routes to the latest registration. After any sequence of registrations and removals, the
  route of a peer is the one of the connection that registered it last, unless that very connection was removed
  since; a removal by a connection that has been replaced changes nothing. A prefix leads only to such a current
  route, of a peer with that prefix.\<close>

theorem registry_latest_wins:
  "get_by_peer_id (registry_after ops) p =
     map_option (\<lambda>(c, tx). \<lparr>entry_connection = c, entry_peer = p, entry_tx = tx\<rparr>) (owner_after ops p)
   \<and> (get_by_prefix (registry_after ops) pre = Some e \<longrightarrow> prefix_of (entry_peer e) = pre
        \<and> get_by_peer_id (registry_after ops) (entry_peer e) = Some e)"
  using registry.consistent_run [of ops]
  by (simp add: registry_after_run registry.by_id_run registry.consistent_def)

theorem registry_latest_wins_witness:
  "get_by_prefix (registry_after [Unregister (replicate 32 1) 5, Register (replicate 32 1) 6 (), Register (replicate 32 1) 5 ()])
      (replicate 16 1) = Some \<lparr>entry_connection = 6, entry_peer = replicate 32 1, entry_tx = ()\<rparr>
   \<and> get_by_peer_id (registry_after [Unregister (replicate 32 1) 5, Register (replicate 32 1) 6 (), Register (replicate 32 1) 5 ()])
      (replicate 32 1) = Some \<lparr>entry_connection = 6, entry_peer = replicate 32 1, entry_tx = ()\<rparr>"
proof -
  let ?r = "registry_after [Unregister (replicate 32 1) 5, Register (replicate 32 1) 6 (), Register (replicate 32 1) 5 ()]"
  have "get_by_prefix ?r (replicate 16 1) = Some \<lparr>entry_connection = 6, entry_peer = replicate 32 1, entry_tx = ()\<rparr>"
    by (simp add: registry_defs prefix_of_def)
  with registry_latest_wins [of _ _ "replicate 16 1" "\<lparr>entry_connection = 6, entry_peer = replicate 32 1, entry_tx = ()\<rparr>"]
  show ?thesis by fastforce
qed



text \<open>Without that assumption it is not: with two peers that share a prefix, the removal of one of them also
  deletes the other one's prefix route, although the other one stays registered.\<close>

theorem registry_prefix_collision:
  assumes "prefix_of p = prefix_of q" "p \<noteq> q"
  shows "get_by_peer_id (registry_after [Unregister p c, Register q d tx, Register p c ux]) q
      = Some \<lparr>entry_connection = d, entry_peer = q, entry_tx = tx\<rparr>
    \<and> get_by_prefix (registry_after [Unregister p c, Register q d tx, Register p c ux]) (prefix_of q) = None"
  using assms by (auto simp: registry_defs)

theorem registry_prefix_collision_witness:
  "get_by_prefix (registry_after [Unregister (replicate 32 0) 1, Register (replicate 31 0 @ [1]) 2 (), Register (replicate 32 0) 1 ()])
     (prefix_of (replicate 31 0 @ [1])) = None"
  using registry_prefix_collision [of "replicate 32 0" "replicate 31 0 @ [1]" 1 2 "()" "()"]
  by (simp add: prefix_of_def eval_nat_numeral)

end
