(* ===== verification/Routed_Session.thy ===== *)
theory Routed_Session
  imports Messages Route_Registry
begin

section \<open>The routed session\<close>

text \<open>
  The body of the frame loop of \<open>handle_routed_noise_session\<close> in \<open>src/server/routed_listener.rs\<close>. For a decrypted
  frame, \<open>handle_frame\<close> performs the registry access the code performs under its lock (a registration, or the lookup
  of the recipient) and returns what the code then awaits, in order, as a list of actions: the sends into connection
  channels, and the removal of a route whose channel turned out to be closed. The actions run in the theory
  \<open>Routed_World\<close>, interleaved with those of the other connections. The lemmas show what each kind of frame does, that
  the messages built always fit into frames, that a sender cannot forge its id or send to itself, and that every
  frame sent is well formed.
\<close>

subsection \<open>Actions and replies\<close>

definition ROUTE_REGISTRATION_ID :: bytes where "ROUTE_REGISTRATION_ID = replicate 16 0xF0"

definition ECHO_ROUTE_ID :: bytes where "ECHO_ROUTE_ID = replicate 16 0xEE"

text \<open>\<open>Send tx f cleanup\<close> is \<open>tx.send(f).await\<close>, where a failure is ignored (\<open>None\<close>) or removes the route of a
  connection (\<open>Some\<close>). \<open>SendGuarded\<close> is the send of the acknowledgement branch, during which the read guard of the
  registry is still held, because it is a temporary of the \<open>if let\<close> around it. \<open>Remove\<close> is
  \<open>routes.write().await.remove_connection(\<dots>)\<close>.\<close>

datatype 'tx action =
    Send 'tx Frame "(bytes \<times> u64) option"
  | SendGuarded 'tx Frame
  | Remove bytes u64

text \<open>The chain of \<open>if let Ok\<close> that wraps a server message into an envelope and a frame.\<close>

definition server_frame ::
    "ServerToClientMessage \<Rightarrow> u64 \<Rightarrow> u64 \<Rightarrow> u64 \<Rightarrow> bytes \<Rightarrow> bytes \<Rightarrow> Frame option" where
  "server_frame msg mid cid ts sid n =
     (case envelope_new (s2c_message_type msg) mid cid ts (s2c_encode msg) of
        Ok env \<Rightarrow> (case to_bytes env of
            Ok bs \<Rightarrow> (case frame_new sid n bs of Ok f \<Rightarrow> Some f | _ \<Rightarrow> None)
          | _ \<Rightarrow> None)
      | _ \<Rightarrow> None)"

definition send_some :: "'tx \<Rightarrow> Frame option \<Rightarrow> (bytes \<times> u64) option \<Rightarrow> 'tx action list" where
  "send_some tx fo cleanup = (case fo of Some f \<Rightarrow> [Send tx f cleanup] | None \<Rightarrow> [])"

subsection \<open>The branches\<close>

text \<open>A \<open>SendMessage\<close> from the registered peer \<open>source\<close>.\<close>

definition on_send_message ::
    "'tx \<Rightarrow> 'tx RouteRegistryInner \<Rightarrow> bytes \<Rightarrow> Frame \<Rightarrow> MessageEnvelope \<Rightarrow> bytes \<Rightarrow> bytes \<Rightarrow> 'tx action list" where
  "on_send_message out_tx routes source frame env recipient content =
     (let msg_id = message_id env; source_prefix = prefix_of source;
          reply = (\<lambda>ok. send_some out_tx (server_frame (S2C_SendMessageResponse msg_id ok) msg_id msg_id
            (timestamp env) source_prefix (replicate 8 0)) None) in
      if source = recipient then reply False
      else (case get_by_peer_id routes recipient of
          Some entry \<Rightarrow> reply True
            @ send_some (entry_tx entry) (server_frame (S2C_IncomingMessageEvent source content) msg_id 0
                (timestamp env) source_prefix (nonce frame)) (Some (entry_peer entry, entry_connection entry))
        | None \<Rightarrow> reply False))"

definition on_ack ::
    "'tx RouteRegistryInner \<Rightarrow> bytes \<Rightarrow> Frame \<Rightarrow> MessageEnvelope \<Rightarrow> u64 \<Rightarrow> 'tx action list" where
  "on_ack routes source frame env acked =
     (case get_by_prefix routes (session_id frame) of
        Some entry \<Rightarrow> (case server_frame (S2C_DeliveryStatusEvent acked Delivered) acked acked
            (timestamp env) (prefix_of source) (replicate 8 0) of
          Some f \<Rightarrow> [SendGuarded (entry_tx entry) f]
        | None \<Rightarrow> [])
      | None \<Rightarrow> [])"

definition on_heartbeat :: "'tx \<Rightarrow> bytes \<Rightarrow> MessageEnvelope \<Rightarrow> u64 \<Rightarrow> 'tx action list" where
  "on_heartbeat out_tx source env seq =
     send_some out_tx (server_frame (S2C_HeartbeatResponse seq) (message_id env) (message_id env)
       (timestamp env) (prefix_of source) (replicate 8 0)) None"

text \<open>A frame that is no \<open>SendMessage\<close>, \<open>Ack\<close> or \<open>Heartbeat\<close> envelope is forwarded as it is.\<close>

definition on_raw :: "'tx RouteRegistryInner \<Rightarrow> bytes \<Rightarrow> Frame \<Rightarrow> 'tx action list" where
  "on_raw routes source frame =
     (let source_prefix = prefix_of source; target = session_id frame in
      if source_prefix = target then []
      else (case get_by_prefix routes target of
          Some entry \<Rightarrow> [Send (entry_tx entry) (frame\<lparr>session_id := source_prefix\<rparr>)
            (Some (entry_peer entry, entry_connection entry))]
        | None \<Rightarrow> []))"

definition handle_frame ::
    "u64 \<Rightarrow> 'tx \<Rightarrow> 'tx RouteRegistryInner \<Rightarrow> bytes option \<Rightarrow> Frame
      \<Rightarrow> 'tx RouteRegistryInner \<times> bytes option \<times> 'tx action list" where
  "handle_frame connection_id out_tx routes registered_peer frame =
     (if session_id frame = ROUTE_REGISTRATION_ID then
        (if length (payload frame) \<noteq> 32 then (routes, registered_peer, [])
         else (snd (insert_route routes (payload frame) connection_id out_tx), Some (payload frame), []))
      else if session_id frame = ECHO_ROUTE_ID then (routes, registered_peer, [])
      else (case registered_peer of
          None \<Rightarrow> (routes, registered_peer, [])
        | Some source \<Rightarrow> (routes, registered_peer,
            (case decode_client_message (payload frame) of
               Ok (env, C2S_SendMessage recipient content) \<Rightarrow> on_send_message out_tx routes source frame env recipient content
             | Ok (env, C2S_Ack acked) \<Rightarrow> on_ack routes source frame env acked
             | Ok (env, C2S_Heartbeat seq) \<Rightarrow> on_heartbeat out_tx source env seq
             | _ \<Rightarrow> on_raw routes source frame))))"

subsection \<open>Replies always fit\<close>

lemma server_frame_Some:
  assumes "wf_s2c msg" "length (s2c_encode msg) \<le> MAX_ENVELOPE_PAYLOAD_SIZE"
  obtains f where "server_frame msg mid cid ts sid n = Some f" "session_id f = sid" "nonce f = n"
    "length (payload f) \<le> MAX_PAYLOAD_SIZE"
    "decode_server_message (payload f) = Ok (built_envelope (s2c_message_type msg) mid cid ts (s2c_encode msg), msg)"
proof -
  obtain bs where bs: "to_bytes (built_envelope (s2c_message_type msg) mid cid ts (s2c_encode msg)) = Ok bs"
    using envelope_codec.encode_defined assms(2) built_envelope_sel(7) by blast
  then have "length bs \<le> MAX_PAYLOAD_SIZE" "envelope_decode bs = Ok (built_envelope (s2c_message_type msg) mid cid ts (s2c_encode msg))"
    using assms(2) to_bytes_length [OF bs] envelope_codec.decode_encode [OF _ bs] by (simp_all add: frame_sizes)
  with bs assms show ?thesis
    by (intro that [of "\<lparr>session_id = sid, nonce = n, payload = bs\<rparr>"])
      (simp_all add: server_frame_def envelope_new_eq frame_new_def decode_server_message_def s2c_decode_encode)
qed

lemma server_frame_wf:
  "server_frame msg mid cid ts sid n = Some f \<Longrightarrow> length sid = 16 \<Longrightarrow> length n = 8 \<Longrightarrow> wf_frame f"
  by (auto simp: server_frame_def frame_new_def wf_frame_def frame_typed_def frame_sizes split: result.splits if_splits)

lemma server_frame_short:
  assumes "msg = S2C_SendMessageResponse i ok \<or> msg = S2C_HeartbeatResponse i \<or> msg = S2C_DeliveryStatusEvent i st"
  obtains f where "server_frame msg mid cid ts sid n = Some f" "session_id f = sid" "nonce f = n"
    "decode_server_message (payload f) = Ok (built_envelope (s2c_message_type msg) mid cid ts (s2c_encode msg), msg)"
  by (rule server_frame_Some [of msg mid cid ts sid n]) (use assms that in \<open>auto simp: frame_sizes\<close>)

text \<open>The event carries as many bytes as the request, so a message that arrived can always be delivered.\<close>

lemma c2s_send_message_size:
  assumes "decode_client_message bs = Ok (env, C2S_SendMessage recipient content)"
  shows "length recipient = 32 \<and> 32 + length content \<le> MAX_ENVELOPE_PAYLOAD_SIZE"
proof -
  obtain e where "envelope_decode bs = Ok e" "c2s_decode (message_type e) (env_payload e) = Ok (C2S_SendMessage recipient content)"
    using assms by (auto simp: decode_client_message_def and_then_Ok_iff)
  moreover have "wf_c2s (C2S_SendMessage recipient content)" using decode_client_typed [OF assms] by simp
  moreover have "message_type e = SendMessage" using calculation c2s_decode_typed by force
  ultimately show ?thesis using envelope_decode_wf [of bs e]
    by (auto simp: c2s_decode_def and_then_Ok_iff wf_envelope_def slice_to_def slice_from_def split: if_splits)
qed

subsection \<open>What a frame can do\<close>

abbreviation reserved_id :: "bytes \<Rightarrow> bool" where
  "reserved_id sid \<equiv> sid = ROUTE_REGISTRATION_ID \<or> sid = ECHO_ROUTE_ID"

lemma handle_frame_registered:
  "\<not> reserved_id (session_id frame) \<Longrightarrow>
   handle_frame conn out_tx routes (Some source) frame = (routes, Some source,
     (case decode_client_message (payload frame) of
        Ok (env, C2S_SendMessage recipient content) \<Rightarrow> on_send_message out_tx routes source frame env recipient content
      | Ok (env, C2S_Ack acked) \<Rightarrow> on_ack routes source frame env acked
      | Ok (env, C2S_Heartbeat seq) \<Rightarrow> on_heartbeat out_tx source env seq
      | _ \<Rightarrow> on_raw routes source frame))"
  by (simp add: handle_frame_def)

text \<open>An action of the handler of the peer \<open>source\<close>: it sends a well-formed frame that carries the sender's own
  prefix, either to its own channel or along a current route; what is forwarded to a route with cleanup never goes
  to a route of the sender.\<close>

fun permitted :: "'tx \<Rightarrow> 'tx RouteRegistryInner \<Rightarrow> bytes \<Rightarrow> 'tx action \<Rightarrow> bool" where
  "permitted out_tx routes source (Send tx f None) = (tx = out_tx \<and> wf_frame f \<and> session_id f = prefix_of source)"
| "permitted out_tx routes source (Send tx f (Some (p, c))) =
     (p \<noteq> source \<and> get_by_peer_id routes p = Some \<lparr>entry_connection = c, entry_peer = p, entry_tx = tx\<rparr>
      \<and> wf_frame f \<and> session_id f = prefix_of source)"
| "permitted out_tx routes source (SendGuarded tx f) =
     ((\<exists>p c. get_by_peer_id routes p = Some \<lparr>entry_connection = c, entry_peer = p, entry_tx = tx\<rparr>)
      \<and> wf_frame f \<and> session_id f = prefix_of source)"
| "permitted out_tx routes source (Remove p c) = False"

lemma server_frame_session_id: "server_frame msg mid cid ts sid n = Some f \<Longrightarrow> session_id f = sid"
  by (auto simp: server_frame_def frame_new_def split: result.splits if_splits)

lemma send_some_permitted:
  assumes "a \<in> set (send_some tx (server_frame msg mid cid ts (prefix_of source) n) cleanup)"
    "length source = 32" "length n = 8"
  obtains f where "a = Send tx f cleanup" "wf_frame f" "session_id f = prefix_of source"
  using assms server_frame_wf server_frame_session_id
  by (fastforce simp: send_some_def prefix_of_def split: option.splits)

lemma registry_entry:
  "registry.consistent routes \<Longrightarrow> get_by_peer_id routes p = Some e \<Longrightarrow> entry_peer e = p"
  "registry.consistent routes \<Longrightarrow> get_by_prefix routes pre = Some e \<Longrightarrow>
     prefix_of (entry_peer e) = pre \<and> get_by_peer_id routes (entry_peer e) = Some e"
  by (auto simp: registry.consistent_def)

lemma on_send_message_permitted:
  assumes "registry.consistent routes" "length source = 32" "wf_frame frame"
    and "a \<in> set (on_send_message out_tx routes source frame env recipient content)"
  shows "permitted out_tx routes source a"
proof -
  have nonce: "length (nonce frame) = 8" using assms(3) by (simp add: wf_frame_def frame_typed_def frame_sizes)
  have "a \<in> set (send_some out_tx (server_frame m i j t (prefix_of source) (replicate 8 0)) None) \<Longrightarrow> ?thesis" for m i j t
    using assms(2) by (elim send_some_permitted) auto
  moreover have "get_by_peer_id routes recipient = Some entry \<Longrightarrow> source \<noteq> recipient \<Longrightarrow>
      a \<in> set (send_some (entry_tx entry) (server_frame m i j t (prefix_of source) (nonce frame))
        (Some (entry_peer entry, entry_connection entry))) \<Longrightarrow> ?thesis" for entry m i j t
    using assms(2) nonce registry_entry(1) [OF assms(1)] by (elim send_some_permitted) (cases entry, auto)
  ultimately show ?thesis
    using assms(4) by (auto simp: on_send_message_def Let_def split: option.splits if_splits)
qed

lemma on_ack_permitted:
  assumes "registry.consistent routes" "length source = 32" "a \<in> set (on_ack routes source frame env acked)"
  shows "permitted out_tx routes source a"
proof -
  obtain e f where "get_by_prefix routes (session_id frame) = Some e" "a = SendGuarded (entry_tx e) f"
    "server_frame (S2C_DeliveryStatusEvent acked Delivered) acked acked (timestamp env) (prefix_of source) (replicate 8 0) = Some f"
    using assms(3) by (auto simp: on_ack_def split: option.splits dest!: sym [of "Some _"])
  with assms(1,2) show ?thesis
    using registry_entry(2) [OF assms(1)] server_frame_wf server_frame_session_id
    by (cases e) (fastforce simp: prefix_of_def)
qed

lemma on_raw_permitted:
  assumes "registry.consistent routes" "length source = 32" "wf_frame frame" "a \<in> set (on_raw routes source frame)"
  shows "permitted out_tx routes source a"
proof -
  obtain e where e: "get_by_prefix routes (session_id frame) = Some e" "prefix_of source \<noteq> session_id frame"
    "a = Send (entry_tx e) (frame\<lparr>session_id := prefix_of source\<rparr>) (Some (entry_peer e, entry_connection e))"
    using assms(4) by (auto simp: on_raw_def Let_def split: option.splits if_splits)
  then have "entry_peer e \<noteq> source" "get_by_peer_id routes (entry_peer e) = Some e"
    using registry_entry(2) [OF assms(1)] by auto
  with e assms(2,3) show ?thesis
    by (cases e) (auto simp: wf_frame_def frame_typed_def frame_sizes prefix_of_def)
qed

lemma handle_frame_permitted:
  assumes "registry.consistent routes" "length source = 32" "wf_frame frame"
    and "handle_frame conn out_tx routes (Some source) frame = (routes', registered', actions)" "a \<in> set actions"
  shows "permitted out_tx routes source a"
proof -
  have hb: "a \<in> set (on_heartbeat out_tx source env seq) \<Longrightarrow> ?thesis" for env seq
    using assms(2) unfolding on_heartbeat_def by (elim send_some_permitted) auto
  show ?thesis
    using assms(4,5) on_send_message_permitted [OF assms(1-3)] on_ack_permitted [OF assms(1,2)]
      on_raw_permitted [OF assms(1-3)] hb
    by (auto simp: handle_frame_def split: if_splits result.splits ClientToServerMessage.splits prod.splits)
qed

lemma send_message_actions:
  assumes "\<not> reserved_id (session_id frame)"
    and "decode_client_message (payload frame) = Ok (env, C2S_SendMessage recipient content)"
    and "length source = 32" "source \<noteq> recipient" "get_by_peer_id routes recipient = Some entry"
  shows "\<exists>resp evt env1 env2.
    handle_frame conn out_tx routes (Some source) frame = (routes, Some source,
      [Send out_tx resp None, Send (entry_tx entry) evt (Some (entry_peer entry, entry_connection entry))])
    \<and> decode_server_message (payload resp) = Ok (env1, S2C_SendMessageResponse (message_id env) True)
    \<and> correlation_id env1 = message_id env
    \<and> decode_server_message (payload evt) = Ok (env2, S2C_IncomingMessageEvent source content)
    \<and> message_id env2 = message_id env \<and> session_id evt = prefix_of source \<and> nonce evt = nonce frame"
proof -
  let ?resp = "S2C_SendMessageResponse (message_id env) True"
  obtain resp where resp: "server_frame ?resp (message_id env) (message_id env) (timestamp env) (prefix_of source) (replicate 8 0) = Some resp"
    "decode_server_message (payload resp) = Ok (built_envelope (s2c_message_type ?resp) (message_id env) (message_id env) (timestamp env) (s2c_encode ?resp), ?resp)"
    by (rule server_frame_short [where msg = ?resp]) auto
  let ?evt = "S2C_IncomingMessageEvent source content"
  obtain evt where evt: "server_frame ?evt (message_id env) 0 (timestamp env) (prefix_of source) (nonce frame) = Some evt"
    "session_id evt = prefix_of source" "nonce evt = nonce frame"
    "decode_server_message (payload evt) = Ok (built_envelope (s2c_message_type ?evt) (message_id env) 0 (timestamp env) (s2c_encode ?evt), ?evt)"
    by (rule server_frame_Some [where msg = ?evt]) (use assms(3) c2s_send_message_size [OF assms(2)] in auto)
  show ?thesis
    using assms resp evt by (simp add: handle_frame_registered on_send_message_def send_some_def Let_def)
qed

subsection \<open>Properties\<close>

text \<open>C2: a message from a registered peer to another registered peer is accepted and delivered: the handler leaves the
  registry and the registration alone and sends exactly two frames, first to the sender's own channel a frame that
  decodes to the acceptance of that message id, then along the recipient's current route a frame that decodes to the
  event with the sender's registered id and the message's bytes unchanged, under the sender's prefix and nonce. No
  size check on the way can drop either of them.\<close>

theorem send_message_delivered:
  assumes "\<not> reserved_id (session_id frame)"
    and "decode_client_message (payload frame) = Ok (env, C2S_SendMessage recipient content)"
    and "length source = 32" "source \<noteq> recipient" "get_by_peer_id routes recipient = Some entry"
  shows "\<exists>resp evt env1 env2.
    handle_frame conn out_tx routes (Some source) frame = (routes, Some source,
      [Send out_tx resp None, Send (entry_tx entry) evt (Some (entry_peer entry, entry_connection entry))])
    \<and> decode_server_message (payload resp) = Ok (env1, S2C_SendMessageResponse (message_id env) True)
    \<and> correlation_id env1 = message_id env
    \<and> decode_server_message (payload evt) = Ok (env2, S2C_IncomingMessageEvent source content)
    \<and> message_id env2 = message_id env \<and> session_id evt = prefix_of source \<and> nonce evt = nonce frame"
  using assms by (rule send_message_actions)

definition sample_frame :: Frame where
  "sample_frame = \<lparr>session_id = replicate 16 2, nonce = replicate 8 9,
     payload = (case encode_client_message (C2S_SendMessage (replicate 32 2) [104, 105]) 7 0 1 of Ok bs \<Rightarrow> bs | _ \<Rightarrow> [])\<rparr>"

lemma sample_frame_decodes:
  "\<exists>env. decode_client_message (payload sample_frame) = Ok (env, C2S_SendMessage (replicate 32 2) [104, 105])"
proof -
  obtain bs where "encode_client_message (C2S_SendMessage (replicate 32 2) [104, 105]) 7 0 1 = Ok bs"
    "envelope_decode bs = Ok (built_envelope SendMessage 7 0 1 (replicate 32 2 @ [104, 105]))"
    using encode_client_fits [of "C2S_SendMessage (replicate 32 2) [104, 105]" 7 0 1] by (auto simp: frame_sizes)
  then show ?thesis
    using c2s_decode_encode [of "C2S_SendMessage (replicate 32 2) [104, 105]"]
    by (simp add: sample_frame_def decode_client_message_def)
qed

theorem send_message_delivered_witness:
  "\<exists>resp evt env2. handle_frame 1 (10::nat) (registry_after [Register (replicate 32 2) 5 (20::nat)]) (Some (replicate 32 1)) sample_frame
     = (registry_after [Register (replicate 32 2) 5 20], Some (replicate 32 1),
        [Send 10 resp None, Send 20 evt (Some (replicate 32 2, 5))])
   \<and> decode_server_message (payload evt) = Ok (env2, S2C_IncomingMessageEvent (replicate 32 1) [104, 105])"
proof -
  let ?e = "\<lparr>entry_connection = 5, entry_peer = replicate 32 2, entry_tx = 20 :: nat\<rparr>"
  obtain env where "decode_client_message (payload sample_frame) = Ok (env, C2S_SendMessage (replicate 32 2) [104, 105])"
    using sample_frame_decodes by blast
  moreover have "\<not> reserved_id (session_id sample_frame)"
    by (simp add: sample_frame_def ROUTE_REGISTRATION_ID_def ECHO_ROUTE_ID_def)
  moreover have "get_by_peer_id (registry_after [Register (replicate 32 2) 5 20]) (replicate 32 2) = Some ?e"
    by (simp add: registry_defs)
  ultimately show ?thesis
    using send_message_delivered [of sample_frame env "replicate 32 2" "[104, 105]" "replicate 32 1" _ ?e 1 10] by fastforce
qed

text \<open>C24: a message to oneself or to a peer without a route is refused: the only effect is one frame to the sender's own
  channel, which decodes to the refusal of that message id. Nothing is echoed.\<close>

theorem send_message_refused:
  assumes "\<not> reserved_id (session_id frame)"
    and "decode_client_message (payload frame) = Ok (env, C2S_SendMessage recipient content)"
    and "source = recipient \<or> get_by_peer_id routes recipient = None"
  shows "\<exists>resp env1. handle_frame conn out_tx routes (Some source) frame = (routes, Some source, [Send out_tx resp None])
    \<and> decode_server_message (payload resp) = Ok (env1, S2C_SendMessageResponse (message_id env) False)
    \<and> correlation_id env1 = message_id env"
proof -
  let ?resp = "S2C_SendMessageResponse (message_id env) False"
  obtain resp where "server_frame ?resp (message_id env) (message_id env) (timestamp env) (prefix_of source) (replicate 8 0) = Some resp"
    "decode_server_message (payload resp) = Ok (built_envelope (s2c_message_type ?resp) (message_id env) (message_id env) (timestamp env) (s2c_encode ?resp), ?resp)"
    by (rule server_frame_short [where msg = ?resp]) auto
  with assms show ?thesis
    by (auto simp: handle_frame_registered on_send_message_def send_some_def Let_def)
qed

theorem send_message_refused_witness:
  "\<exists>resp env1 (env :: MessageEnvelope). handle_frame 1 (10::nat) registry_new (Some (replicate 32 1)) sample_frame
     = (registry_new, Some (replicate 32 1), [Send 10 resp None])
   \<and> decode_server_message (payload resp) = Ok (env1, S2C_SendMessageResponse (message_id env) False)"
proof -
  obtain env where "decode_client_message (payload sample_frame) = Ok (env, C2S_SendMessage (replicate 32 2) [104, 105])"
    using sample_frame_decodes by blast
  moreover have "\<not> reserved_id (session_id sample_frame)"
    by (simp add: sample_frame_def ROUTE_REGISTRATION_ID_def ECHO_ROUTE_ID_def)
  moreover have "get_by_peer_id (registry_new :: nat RouteRegistryInner) (replicate 32 2) = None"
    by (simp add: registry_defs)
  ultimately show ?thesis
    using send_message_refused [of sample_frame env "replicate 32 2" "[104, 105]" "replicate 32 1" registry_new 1 "10 :: nat"]
    by blast
qed

text \<open>A session that has not registered a peer id cannot use the relay: whatever frame it sends, nothing is sent on
  any channel, and the registry changes only if the frame is a registration. No session can use the echo route.\<close>

theorem unregistered_is_inert:
  "\<exists>routes' reg'. handle_frame conn out_tx routes None frame = (routes', reg', [])
     \<and> (session_id frame \<noteq> ROUTE_REGISTRATION_ID \<longrightarrow> routes' = routes \<and> reg' = None)
     \<and> (session_id frame = ECHO_ROUTE_ID \<longrightarrow> handle_frame conn out_tx routes reg frame = (routes, reg, []))"
  by (auto simp: handle_frame_def ROUTE_REGISTRATION_ID_def ECHO_ROUTE_ID_def)

theorem unregistered_is_inert_witness:
  "\<exists>reg'. handle_frame 1 () registry_new None sample_frame = (registry_new, reg', [])"
  using unregistered_is_inert [of 1 "()" registry_new sample_frame]
  by (auto simp: sample_frame_def ROUTE_REGISTRATION_ID_def)



text \<open>C36: the payload of a forwarded frame is not protected in the same way: a registered peer can send any other
  online peer a raw frame whose payload decodes to an incoming message from a sender of its choosing, because the
  raw-routing branch forwards a server-to-client envelope unchanged.\<close>

theorem raw_frame_forges_sender:
  assumes "length victim = 32" "32 + length content \<le> MAX_ENVELOPE_PAYLOAD_SIZE"
    and "get_by_prefix routes target = Some entry" "prefix_of source \<noteq> target" "\<not> reserved_id target"
  shows "\<exists>p env. handle_frame conn out_tx routes (Some source) \<lparr>session_id = target, nonce = n, payload = p\<rparr>
      = (routes, Some source, [Send (entry_tx entry) \<lparr>session_id = prefix_of source, nonce = n, payload = p\<rparr>
          (Some (entry_peer entry, entry_connection entry))])
    \<and> decode_server_message p = Ok (env, S2C_IncomingMessageEvent victim content)"
proof -
  let ?m = "S2C_IncomingMessageEvent victim content"
  obtain p where p: "envelope_decode p = Ok (built_envelope (s2c_message_type ?m) 0 0 0 (s2c_encode ?m))"
    using assms(2) assms(1) encode_server_fits [of ?m 0 0 0] by auto
  then have "decode_server_message p = Ok (built_envelope (s2c_message_type ?m) 0 0 0 (s2c_encode ?m), ?m)"
    using s2c_decode_encode [of ?m] assms(1) by (simp add: decode_server_message_def)
  moreover have "decode_client_message p = Err UnexpectedDirection"
    using p by (simp add: decode_client_message_def c2s_decode_def)
  ultimately show ?thesis
    using assms by (intro exI [of _ p] exI) (simp add: handle_frame_def on_raw_def Let_def)
qed

theorem raw_frame_forges_sender_witness:
  "\<exists>p env. handle_frame 1 (10::nat) (registry_after [Register (replicate 32 2) 5 20]) (Some (replicate 32 1))
      \<lparr>session_id = replicate 16 2, nonce = replicate 8 0, payload = p\<rparr>
    = (registry_after [Register (replicate 32 2) 5 20], Some (replicate 32 1),
       [Send 20 \<lparr>session_id = replicate 16 1, nonce = replicate 8 0, payload = p\<rparr> (Some (replicate 32 2, 5))])
    \<and> decode_server_message p = Ok (env, S2C_IncomingMessageEvent (replicate 32 3) [1])"
  using raw_frame_forges_sender [of "replicate 32 3" "[1]" "registry_after [Register (replicate 32 2) 5 20]" "replicate 16 2"
      "\<lparr>entry_connection = 5, entry_peer = replicate 32 2, entry_tx = 20\<rparr>" "replicate 32 1" 1 "10::nat" "replicate 8 0"]
  by (simp add: registry_defs prefix_of_def frame_sizes ROUTE_REGISTRATION_ID_def ECHO_ROUTE_ID_def)

end
