(* ===== verification/Routed_World.thy ===== *)
theory Routed_World
  imports Routed_Session Transition
begin

section \<open>The routed relay as a transition system\<close>

text \<open>
  All sessions of the routed listener together (\<open>src/server/routed_listener.rs\<close>): the shared registry behind its
  lock, and per connection the reading loop of \<open>handle_routed_noise_session\<close>, the bounded channel of 256 frames and
  the writer task that drains it. One step is one await point of one task: a frame received and handled up to its
  first send, one send, one removal, one frame written, the end of a session. Which task moves, what arrives, and
  whether a socket fails is left to the environment. The channel of the \<open>i\<close>-th connection is named \<open>i\<close>. The
  lemmas show the invariants of every reachable state.
\<close>

subsection \<open>State\<close>

text \<open>How the session function stands: in its loop, returned \<open>Ok\<close> after the end of the stream, or returned an error.\<close>

datatype phase = Reading | Closed | Errored

record session =
  conn_id :: u64
  registered_peer :: "bytes option"
  phase :: phase
  todo :: "nat action list"
  queue :: "Frame list"
  rx_open :: bool
  written :: "Frame list"

record world =
  routes :: "nat RouteRegistryInner"
  NEXT_CONNECTION_ID :: u64
  sessions :: "session list"

definition CHANNEL_CAPACITY :: nat where "CHANNEL_CAPACITY = 256"

definition new_session :: "u64 \<Rightarrow> session" where
  "new_session c = \<lparr>conn_id = c, registered_peer = None, phase = Reading, todo = [], queue = [], rx_open = True, written = []\<rparr>"

definition initial_world :: "world \<Rightarrow> bool" where
  "initial_world w \<longleftrightarrow> w = \<lparr>routes = registry_new, NEXT_CONNECTION_ID = 1, sessions = []\<rparr>"

text \<open>The target, frame and cleanup of a send.\<close>

fun send_of :: "'tx action \<Rightarrow> ('tx \<times> Frame \<times> 'tx action list) option" where
  "send_of (Send tx f None) = Some (tx, f, [])"
| "send_of (Send tx f (Some (p, c))) = Some (tx, f, [Remove p c])"
| "send_of (SendGuarded tx f) = Some (tx, f, [])"
| "send_of (Remove p c) = None"

fun holds_guard :: "'tx action list \<Rightarrow> bool" where
  "holds_guard (SendGuarded tx f # _) = True"
| "holds_guard _ = False"

definition guard_held :: "world \<Rightarrow> bool" where
  "guard_held w \<longleftrightarrow> (\<exists>s \<in> set (sessions w). holds_guard (todo s))"

definition is_registration :: "Frame \<Rightarrow> bool" where
  "is_registration f \<longleftrightarrow> session_id f = ROUTE_REGISTRATION_ID \<and> length (payload f) = 32"

definition upd :: "nat \<Rightarrow> (session \<Rightarrow> session) \<Rightarrow> session list \<Rightarrow> session list" where
  "upd i g ss = ss[i := g (ss ! i)]"

definition tx_held :: "world \<Rightarrow> nat \<Rightarrow> bool" where
  "tx_held w i \<longleftrightarrow> (\<exists>p e. by_peer_id (routes w) p = Some e \<and> entry_tx e = i)
     \<or> (\<exists>pre e. by_prefix (routes w) pre = Some e \<and> entry_tx e = i)
     \<or> (\<exists>s \<in> set (sessions w). \<exists>a \<in> set (todo s). \<exists>f c. send_of a = Some (i, f, c))"

subsection \<open>Steps\<close>

datatype label = Accept | Receive nat Frame | Act nat | WriterSent nat | WriterFailed nat | WriterDone nat
  | Eof nat | Broken nat

inductive wstep :: "world \<Rightarrow> label \<Rightarrow> world \<Rightarrow> bool" where
  accept: "wstep w Accept (w\<lparr>sessions := sessions w @ [new_session (NEXT_CONNECTION_ID w)],
      NEXT_CONNECTION_ID := NEXT_CONNECTION_ID w + 1\<rparr>)"
| receive: "i < length (sessions w) \<Longrightarrow> s = sessions w ! i \<Longrightarrow> phase s = Reading \<Longrightarrow> todo s = [] \<Longrightarrow> wf_frame f \<Longrightarrow>
    \<not> (is_registration f \<and> guard_held w) \<Longrightarrow>
    handle_frame (conn_id s) i (routes w) (registered_peer s) f = (r', reg', actions) \<Longrightarrow>
    wstep w (Receive i f) (w\<lparr>routes := r', sessions := upd i (\<lambda>s. s\<lparr>registered_peer := reg', todo := actions\<rparr>) (sessions w)\<rparr>)"
| send_ok: "i < length (sessions w) \<Longrightarrow> todo (sessions w ! i) = a # rest \<Longrightarrow> send_of a = Some (tx, f, cleanup) \<Longrightarrow>
    tx < length (sessions w) \<Longrightarrow> rx_open (sessions w ! tx) \<Longrightarrow> length (queue (sessions w ! tx)) < CHANNEL_CAPACITY \<Longrightarrow>
    wstep w (Act i) (w\<lparr>sessions := upd tx (\<lambda>s. s\<lparr>queue := queue s @ [f]\<rparr>) (upd i (\<lambda>s. s\<lparr>todo := rest\<rparr>) (sessions w))\<rparr>)"
| send_closed: "i < length (sessions w) \<Longrightarrow> todo (sessions w ! i) = a # rest \<Longrightarrow> send_of a = Some (tx, f, cleanup) \<Longrightarrow>
    tx < length (sessions w) \<Longrightarrow> \<not> rx_open (sessions w ! tx) \<Longrightarrow>
    wstep w (Act i) (w\<lparr>sessions := upd i (\<lambda>s. s\<lparr>todo := cleanup @ rest\<rparr>) (sessions w)\<rparr>)"
| remove: "i < length (sessions w) \<Longrightarrow> todo (sessions w ! i) = Remove p c # rest \<Longrightarrow> \<not> guard_held w \<Longrightarrow>
    wstep w (Act i) (w\<lparr>routes := snd (remove_connection (routes w) p c),
      sessions := upd i (\<lambda>s. s\<lparr>todo := rest\<rparr>) (sessions w)\<rparr>)"
| writer_sent: "i < length (sessions w) \<Longrightarrow> rx_open (sessions w ! i) \<Longrightarrow> queue (sessions w ! i) = f # q \<Longrightarrow>
    wstep w (WriterSent i) (w\<lparr>sessions := upd i (\<lambda>s. s\<lparr>queue := q, written := written s @ [f]\<rparr>) (sessions w)\<rparr>)"
| writer_failed: "i < length (sessions w) \<Longrightarrow> rx_open (sessions w ! i) \<Longrightarrow> queue (sessions w ! i) \<noteq> [] \<Longrightarrow>
    wstep w (WriterFailed i) (w\<lparr>sessions := upd i (\<lambda>s. s\<lparr>queue := [], rx_open := False\<rparr>) (sessions w)\<rparr>)"
| writer_done: "i < length (sessions w) \<Longrightarrow> rx_open (sessions w ! i) \<Longrightarrow> queue (sessions w ! i) = [] \<Longrightarrow>
    phase (sessions w ! i) \<noteq> Reading \<Longrightarrow> \<not> tx_held w i \<Longrightarrow>
    wstep w (WriterDone i) (w\<lparr>sessions := upd i (\<lambda>s. s\<lparr>rx_open := False\<rparr>) (sessions w)\<rparr>)"
| eof: "i < length (sessions w) \<Longrightarrow> phase (sessions w ! i) = Reading \<Longrightarrow> todo (sessions w ! i) = [] \<Longrightarrow>
    wstep w (Eof i) (w\<lparr>sessions := upd i (\<lambda>s. s\<lparr>phase := Closed, todo :=
      (case registered_peer s of Some p \<Rightarrow> [Remove p (conn_id s)] | None \<Rightarrow> [])\<rparr>) (sessions w)\<rparr>)"
| broken: "i < length (sessions w) \<Longrightarrow> phase (sessions w ! i) = Reading \<Longrightarrow> todo (sessions w ! i) = [] \<Longrightarrow>
    wstep w (Broken i) (w\<lparr>sessions := upd i (\<lambda>s. s\<lparr>phase := Errored\<rparr>) (sessions w)\<rparr>)"

abbreviation reachable_world :: "world \<Rightarrow> bool" where
  "reachable_world \<equiv> reachable_from initial_world wstep"

subsection \<open>Invariants\<close>

lemma length_upd [simp]: "length (upd i g ss) = length ss"
  by (simp add: upd_def)

lemma nth_upd: "j < length ss \<Longrightarrow> upd i g ss ! j = (if i = j then g (ss ! j) else ss ! j)"
  by (simp add: upd_def nth_list_update)

text \<open>Connection ids count the sessions, modulo the width of the counter.\<close>

definition ids_ok :: "world \<Rightarrow> bool" where
  "ids_ok w \<longleftrightarrow> NEXT_CONNECTION_ID w = of_nat (Suc (length (sessions w)))
     \<and> (\<forall>i < length (sessions w). conn_id (sessions w ! i) = of_nat (Suc i))"

text \<open>What a session may have pending: well-formed frames for existing channels.\<close>

definition action_ok :: "nat \<Rightarrow> nat action \<Rightarrow> bool" where
  "action_ok n a \<longleftrightarrow> (\<forall>tx f c. send_of a = Some (tx, f, c) \<longrightarrow> tx < n \<and> wf_frame f)"

definition session_ok :: "nat \<Rightarrow> session \<Rightarrow> bool" where
  "session_ok n s \<longleftrightarrow> length (queue s) \<le> CHANNEL_CAPACITY \<and> (\<forall>f \<in> set (queue s) \<union> set (written s). wf_frame f)
     \<and> (\<forall>p. registered_peer s = Some p \<longrightarrow> length p = 32) \<and> (\<forall>a \<in> set (todo s). action_ok n a)"

text \<open>A route belongs to an existing connection: its channel is that connection's channel.\<close>

definition routes_ok :: "world \<Rightarrow> bool" where
  "routes_ok w \<longleftrightarrow> registry.consistent (routes w) \<and>
     (\<forall>p e. get_by_peer_id (routes w) p = Some e \<longrightarrow> length p = 32 \<and> entry_tx e < length (sessions w)
        \<and> entry_connection e = conn_id (sessions w ! entry_tx e))"

definition world_inv :: "world \<Rightarrow> bool" where
  "world_inv w \<longleftrightarrow> ids_ok w \<and> routes_ok w \<and> (\<forall>s \<in> set (sessions w). session_ok (length (sessions w)) s)"

lemma set_upd: "(\<forall>s \<in> set ss. P s) \<Longrightarrow> (i < length ss \<Longrightarrow> P (g (ss ! i))) \<Longrightarrow> \<forall>s \<in> set (upd i g ss). P s"
  by (auto simp: all_set_conv_all_nth nth_upd)

lemma conn_id_upd: "(\<And>s. conn_id (g s) = conn_id s) \<Longrightarrow> j < length ss \<Longrightarrow> conn_id (upd i g ss ! j) = conn_id (ss ! j)"
  by (simp add: nth_upd)

lemma ids_ok_step: "ids_ok w \<Longrightarrow> wstep w l w' \<Longrightarrow> ids_ok w'"
  by (cases rule: wstep.cases [of w l w']) (auto simp: ids_ok_def conn_id_upd new_session_def nth_append less_Suc_eq)

lemma action_ok_mono: "action_ok n a \<Longrightarrow> n \<le> m \<Longrightarrow> action_ok m a"
  by (fastforce simp: action_ok_def)

lemma session_ok_mono: "session_ok n s \<Longrightarrow> n \<le> m \<Longrightarrow> session_ok m s"
  by (auto simp: session_ok_def intro: action_ok_mono)

lemma registered_length: "handle_frame c tx r reg f = (r', Some p, acts) \<Longrightarrow> reg = Some p \<or> length p = 32"
  by (auto simp: handle_frame_def split: if_splits option.splits)

lemma handle_frame_routes:
  assumes "handle_frame c tx r reg f = (r', reg', acts)"
  shows "if is_registration f then r' = registry_ins r (payload f) c tx \<and> reg' = Some (payload f) \<and> acts = []
    else r' = r \<and> reg' = reg"
  using assms
  by (auto simp: handle_frame_def is_registration_def registry_ins_def ROUTE_REGISTRATION_ID_def ECHO_ROUTE_ID_def
      split: if_splits option.splits)

lemma permitted_action_ok:
  assumes "permitted i r p a" "i < n"
    and "\<And>q e. get_by_peer_id r q = Some e \<Longrightarrow> entry_tx e < n"
  shows "action_ok n a"
  using assms by (cases "(i, r, p, a)" rule: permitted.cases) (fastforce simp: action_ok_def)+

lemma handle_frame_action_ok:
  assumes "routes_ok w" "i < length (sessions w)" "wf_frame f" "\<And>p. reg = Some p \<Longrightarrow> length p = 32"
    and "handle_frame c i (routes w) reg f = (r', reg', acts)" "a \<in> set acts"
  shows "action_ok (length (sessions w)) a"
proof (cases reg)
  case None
  with assms(5,6) show ?thesis by (auto simp: handle_frame_def split: if_splits)
next
  case (Some p)
  with assms have "permitted i (routes w) p a"
    using handle_frame_permitted [of "routes w" p f c i r' reg' acts a] by (simp add: routes_ok_def)
  with assms(1,2) show ?thesis by (auto intro!: permitted_action_ok simp: routes_ok_def)
qed

lemma send_of_cleanup: "send_of a = Some (tx, f, c) \<Longrightarrow> b \<in> set c \<Longrightarrow> action_ok n b"
  by (cases a rule: send_of.cases) (auto simp: action_ok_def)

abbreviation sessions_ok :: "nat \<Rightarrow> session list \<Rightarrow> bool" where
  "sessions_ok n ss \<equiv> \<forall>s \<in> set ss. session_ok n s"

lemma sessions_upd:
  "sessions_ok n ss \<Longrightarrow> i < length ss \<Longrightarrow> (session_ok n (ss ! i) \<Longrightarrow> session_ok n (g (ss ! i))) \<Longrightarrow> sessions_ok n (upd i g ss)"
  by (rule set_upd) auto

lemma sessions_ok_receive:
  assumes "sessions_ok (length (sessions w)) (sessions w)" "routes_ok w" "i < length (sessions w)" "wf_frame f"
    and "handle_frame (conn_id (sessions w ! i)) i (routes w) (registered_peer (sessions w ! i)) f = (r', reg', actions)"
  shows "sessions_ok (length (sessions w)) (upd i (\<lambda>s. s\<lparr>registered_peer := reg', todo := actions\<rparr>) (sessions w))"
proof (rule sessions_upd [OF assms(1,3)])
  assume s: "session_ok (length (sessions w)) (sessions w ! i)"
  then have p: "registered_peer (sessions w ! i) = Some p \<Longrightarrow> length p = 32" for p by (simp add: session_ok_def)
  have "reg' = Some p \<Longrightarrow> length p = 32" for p
    using registered_length [of _ _ _ "registered_peer (sessions w ! i)" f r' p actions] assms(5) p by auto
  with s handle_frame_action_ok [OF assms(2-4) p assms(5)]
  show "session_ok (length (sessions w)) ((sessions w ! i)\<lparr>registered_peer := reg', todo := actions\<rparr>)"
    by (simp add: session_ok_def)
qed

lemma sessions_ok_step:
  assumes "sessions_ok (length (sessions w)) (sessions w)" "routes_ok w" "wstep w l w'"
  shows "sessions_ok (length (sessions w')) (sessions w')"
  using assms(3)
proof (cases rule: wstep.cases)
  case accept
  have "session_ok n (new_session c)" for n c by (simp add: session_ok_def new_session_def)
  with accept show ?thesis
    using assms(1) by (auto intro: session_ok_mono)
next
  case (receive i s f r' reg' actions)
  then show ?thesis using sessions_ok_receive [OF assms(1,2), of i f r' reg' actions] by simp
next
  case (send_ok i a rest tx f cleanup)
  have "action_ok (length (sessions w)) a"
    using assms(1) send_ok by (auto simp: session_ok_def dest!: bspec [of _ _ "sessions w ! i"])
  then have f: "wf_frame f" using send_ok by (auto simp: action_ok_def)
  have "sessions_ok (length (sessions w)) (upd i (\<lambda>s. s\<lparr>todo := rest\<rparr>) (sessions w))"
    using assms(1) send_ok by (intro sessions_upd) (auto simp: session_ok_def)
  then have "sessions_ok (length (sessions w))
      (upd tx (\<lambda>s. s\<lparr>queue := queue s @ [f]\<rparr>) (upd i (\<lambda>s. s\<lparr>todo := rest\<rparr>) (sessions w)))"
    using send_ok f by (rule_tac sessions_upd) (auto simp: session_ok_def nth_upd)
  then show ?thesis using send_ok by simp
next
  case (send_closed i a rest tx f cleanup)
  have "sessions_ok (length (sessions w)) (upd i (\<lambda>s. s\<lparr>todo := cleanup @ rest\<rparr>) (sessions w))"
    using assms(1) send_closed by (rule_tac sessions_upd) (auto simp: session_ok_def dest: send_of_cleanup)
  then show ?thesis using send_closed by simp
next
  case (eof i)
  have "sessions_ok (length (sessions w)) (upd i (\<lambda>s. s\<lparr>phase := Closed, todo :=
      (case registered_peer s of Some p \<Rightarrow> [Remove p (conn_id s)] | None \<Rightarrow> [])\<rparr>) (sessions w))"
    using assms(1) eof by (rule_tac sessions_upd) (auto simp: session_ok_def action_ok_def split: option.splits)
  then show ?thesis using eof by simp
qed (use assms(1) in \<open>simp, rule_tac sessions_upd; auto simp: session_ok_def\<close>)+

lemma routes_ok_keep:
  assumes "routes_ok w" "routes w' = routes w" "length (sessions w) \<le> length (sessions w')"
    "\<And>i. i < length (sessions w) \<Longrightarrow> conn_id (sessions w' ! i) = conn_id (sessions w ! i)"
  shows "routes_ok w'"
  using assms by (fastforce simp: routes_ok_def)

lemma routes_ok_step:
  assumes "routes_ok w" "wstep w l w'"
  shows "routes_ok w'"
  using assms(2)
proof (cases rule: wstep.cases)
  case (receive i s f r' reg' actions)
  show ?thesis
  proof (cases "is_registration f")
    case True
    with receive have "r' = registry_ins (routes w) (payload f) (conn_id s) i" "length (payload f) = 32"
      using handle_frame_routes [of "conn_id s" i] by (auto simp: is_registration_def)
    with assms(1) receive show ?thesis
      by (auto simp: routes_ok_def registry.consistent_ins registry.by_id_ins conn_id_upd)
  next
    case False
    with receive have "r' = routes w" using handle_frame_routes [of "conn_id s" i] by auto
    with assms(1) receive show ?thesis by (auto intro!: routes_ok_keep [of w] simp: conn_id_upd)
  qed
next
  case (remove i p c rest)
  then have "routes w' = registry_rem (routes w) p c" by (simp add: registry_rem_def)
  with assms(1) remove show ?thesis
    by (auto simp: routes_ok_def registry.consistent_rem registry.by_id_rem conn_id_upd split: option.splits if_splits)
qed (auto intro!: routes_ok_keep [OF assms(1)] simp: conn_id_upd nth_append)

interpretation world_sys: invariant_system initial_world wstep world_inv
proof unfold_locales
  fix w show "initial_world w \<Longrightarrow> world_inv w"
    by (simp add: initial_world_def world_inv_def ids_ok_def routes_ok_def registry.consistent_empty registry.by_id_empty)
next
  fix w l w' show "world_inv w \<Longrightarrow> wstep w l w' \<Longrightarrow> world_inv w'"
    unfolding world_inv_def using ids_ok_step routes_ok_step sessions_ok_step by blast
qed
subsection \<open>A closed session leaves no route\<close>

text \<open>While connection ids are unique, a session that reached the end of its stream owns no route of the peer it
  registered last, unless the removal is still pending.\<close>

definition closed_ok :: "world \<Rightarrow> bool" where
  "closed_ok w \<longleftrightarrow> (length (sessions w) < 2 ^ 64 - 1 \<longrightarrow>
     (\<forall>i < length (sessions w). \<forall>p e. phase (sessions w ! i) = Closed \<longrightarrow> registered_peer (sessions w ! i) = Some p \<longrightarrow>
        Remove p (conn_id (sessions w ! i)) \<notin> set (todo (sessions w ! i)) \<longrightarrow>
        get_by_peer_id (routes w) p = Some e \<longrightarrow> entry_connection e \<noteq> conn_id (sessions w ! i)))"

lemma conn_id_inj:
  assumes "ids_ok w" "length (sessions w) < 2 ^ 64 - 1" "i < length (sessions w)" "j < length (sessions w)"
    "conn_id (sessions w ! i) = conn_id (sessions w ! j)"
  shows "i = j"
proof -
  have "(of_nat (Suc i) :: u64) = of_nat (Suc j)" using assms by (simp add: ids_ok_def)
  then have "unat (of_nat (Suc i) :: u64) = unat (of_nat (Suc j) :: u64)" by simp
  then show ?thesis using assms(2-4) by (simp add: unat_of_nat del: of_nat_Suc)
qed

text \<open>The steps that touch neither the registry nor a session's identity keep the property.\<close>

lemma closed_ok_keep:
  assumes "closed_ok w" "routes w' = routes w" "length (sessions w') = length (sessions w)"
    "\<And>i. i < length (sessions w) \<Longrightarrow> conn_id (sessions w' ! i) = conn_id (sessions w ! i)
       \<and> registered_peer (sessions w' ! i) = registered_peer (sessions w ! i)
       \<and> (phase (sessions w' ! i) = Closed \<longrightarrow> phase (sessions w ! i) = Closed)
       \<and> (\<forall>p c. Remove p c \<in> set (todo (sessions w ! i)) \<longrightarrow> Remove p c \<in> set (todo (sessions w' ! i)))"
  shows "closed_ok w'"
  using assms unfolding closed_ok_def by metis

lemma closed_ok_receive:
  assumes "closed_ok w" "world_inv w" "i < length (sessions w)" "phase (sessions w ! i) = Reading"
    and "handle_frame (conn_id (sessions w ! i)) i (routes w) (registered_peer (sessions w ! i)) f = (r', reg', actions)"
    and w': "w' = w\<lparr>routes := r', sessions := upd i (\<lambda>s. s\<lparr>registered_peer := reg', todo := actions\<rparr>) (sessions w)\<rparr>"
  shows "closed_ok w'"
proof -
  have frame: "sessions w' ! j = sessions w ! j" if "j < length (sessions w)" "phase (sessions w' ! j) = Closed" for j
    using assms(3,4) that by (auto simp: w' nth_upd split: if_splits)
  have r: "get_by_peer_id r' p = get_by_peer_id (routes w) p
      \<or> get_by_peer_id r' p = Some \<lparr>entry_connection = conn_id (sessions w ! i), entry_peer = p, entry_tx = i\<rparr>" for p
    using handle_frame_routes [OF assms(5)] by (auto simp: registry.by_id_ins split: if_splits)
  have other: "conn_id (sessions w ! i) \<noteq> conn_id (sessions w ! j)"
    if "length (sessions w) < 2 ^ 64 - 1" "j < length (sessions w)" "phase (sessions w ! j) = Closed" for j
    using conn_id_inj [of w i j] that assms(2-4) by (auto simp: world_inv_def)
  show ?thesis unfolding closed_ok_def
  proof (intro impI allI, goal_cases)
    case (1 j p e)
    then have j: "j < length (sessions w)" "length (sessions w) < 2 ^ 64 - 1" by (simp_all add: w')
    note eq = frame [OF j(1) 1(3)]
    have e: "get_by_peer_id r' p = Some e" using 1(6) by (simp add: w')
    show ?case
      using r [of p] e other [OF j(2,1)] assms(1) j 1(3-5) unfolding closed_ok_def eq by auto
  qed
qed

lemma closed_ok_remove:
  assumes "closed_ok w" "i < length (sessions w)" "todo (sessions w ! i) = Remove p c # rest"
    and w': "w' = w\<lparr>routes := snd (remove_connection (routes w) p c), sessions := upd i (\<lambda>s. s\<lparr>todo := rest\<rparr>) (sessions w)\<rparr>"
  shows "closed_ok w'"
proof -
  have routes: "routes w' = registry_rem (routes w) p c" by (simp add: w' registry_rem_def)
  have same: "conn_id (sessions w' ! j) = conn_id (sessions w ! j)" "phase (sessions w' ! j) = phase (sessions w ! j)"
    "registered_peer (sessions w' ! j) = registered_peer (sessions w ! j)"
    "set (todo (sessions w ! j)) \<subseteq> insert (Remove p c) (set (todo (sessions w' ! j)))"
    if "j < length (sessions w)" for j
    using assms(2,3) that by (auto simp: w' nth_upd)
  show ?thesis unfolding closed_ok_def
  proof (intro impI allI notI, goal_cases)
    case (1 j q e)
    then have j: "j < length (sessions w)" "length (sessions w) < 2 ^ 64 - 1" by (simp_all add: w')
    have e: "get_by_peer_id (routes w) q = Some e" "\<not> (q = p \<and> entry_connection e = c)"
      using 1(6) unfolding routes by (auto simp: registry.by_id_rem split: option.splits if_splits)
    have "Remove q (conn_id (sessions w ! j)) \<notin> set (todo (sessions w ! j))"
      using same [OF j(1)] 1(5,7) e(2) by auto
    with assms(1) j e(1) 1(3,4,7) show False by (auto simp: closed_ok_def same [OF j(1)])
  qed
qed

lemma closed_ok_step:
  assumes "closed_ok w" "world_inv w" "wstep w l w'"
  shows "closed_ok w'"
  using assms(3)
proof (cases rule: wstep.cases)
  case accept
  then show ?thesis using assms(1)
    by (auto simp: closed_ok_def new_session_def nth_append less_Suc_eq)
next
  case (receive i s f r' reg' actions)
  then show ?thesis using closed_ok_receive [OF assms(1,2)] by blast
next
  case (remove i p c rest)
  then show ?thesis using closed_ok_remove [OF assms(1)] by blast
next
  case (eof i)
  then show ?thesis using assms(1)
    by (auto simp: closed_ok_def nth_upd split: option.splits)
qed (intro closed_ok_keep [OF assms(1)]; auto simp: nth_upd)+

interpretation closed_sys: invariant_system initial_world wstep "\<lambda>w. world_inv w \<and> closed_ok w"
proof unfold_locales
  fix w show "initial_world w \<Longrightarrow> world_inv w \<and> closed_ok w"
    using world_sys.inv_init by (auto simp: closed_ok_def initial_world_def)
next
  fix w l w' show "world_inv w \<and> closed_ok w \<Longrightarrow> wstep w l w' \<Longrightarrow> world_inv w' \<and> closed_ok w'"
    using world_sys.inv_step closed_ok_step by blast
qed

subsection \<open>Channels are queues\<close>

text \<open>How the frames of one channel develop in a step: some are appended, and the channel either keeps all of them, in
  order, or is closed and has lost the ones not yet written.\<close>

definition extends :: "session \<Rightarrow> session \<Rightarrow> Frame list \<Rightarrow> bool" where
  "extends s s' sent \<longleftrightarrow> (\<exists>lost. (written s' @ queue s') @ lost = (written s @ queue s) @ sent
     \<and> (lost = [] \<or> \<not> rx_open s') \<and> (\<not> rx_open s \<longrightarrow> \<not> rx_open s' \<and> sent = []))"

lemma extends_trans:
  assumes "extends s s' xs" "extends s' s'' ys"
  shows "extends s s'' (xs @ ys)"
proof -
  obtain l1 where 1: "(written s' @ queue s') @ l1 = (written s @ queue s) @ xs" "l1 = [] \<or> \<not> rx_open s'"
    "\<not> rx_open s \<longrightarrow> \<not> rx_open s' \<and> xs = []"
    using assms(1) by (auto simp: extends_def)
  obtain l2 where 2: "(written s'' @ queue s'') @ l2 = (written s' @ queue s') @ ys" "l2 = [] \<or> \<not> rx_open s''"
    "\<not> rx_open s' \<longrightarrow> \<not> rx_open s'' \<and> ys = []"
    using assms(2) by (auto simp: extends_def)
  have "(written s'' @ queue s'') @ (l2 @ l1) = (written s @ queue s) @ (xs @ ys)"
  proof (cases "rx_open s'")
    case True
    with 1 2 show ?thesis by (metis append.right_neutral append_assoc)
  next
    case False
    with 1 2 show ?thesis by (metis append.right_neutral append_assoc)
  qed
  with 1 2 show ?thesis unfolding extends_def by (intro exI [of _ "l2 @ l1"]) auto
qed

lemma wstep_extends:
  assumes "wstep w l w'" "i < length (sessions w)"
  shows "\<exists>sent. extends (sessions w ! i) (sessions w' ! i) sent"
  using assms(1)
proof (cases rule: wstep.cases)
  case (send_ok j a rest tx f cleanup)
  show ?thesis
  proof (cases "tx = i")
    case True
    with send_ok assms(2) show ?thesis by (intro exI [of _ "[f]"]) (auto simp: extends_def nth_upd)
  next
    case False
    with send_ok assms(2) show ?thesis by (intro exI [of _ "[]"]) (auto simp: extends_def nth_upd)
  qed
next
  case (writer_failed j)
  with assms(2) show ?thesis by (intro exI [of _ "[]"]) (auto simp: extends_def nth_upd)
qed (use assms(2) in \<open>intro exI [of _ "[]"]; auto simp: extends_def nth_upd nth_append\<close>)+

lemma wstep_length: "wstep w l w' \<Longrightarrow> length (sessions w) \<le> length (sessions w')"
  by (cases rule: wstep.cases) auto

lemma runs_extends:
  "runs wstep w ls w' \<Longrightarrow> i < length (sessions w) \<Longrightarrow> \<exists>sent. extends (sessions w ! i) (sessions w' ! i) sent"
proof (induction rule: runs.induct)
  case (runs_nil w)
  then show ?case by (intro exI [of _ "[]"]) (simp add: extends_def)
next
  case (runs_cons w l w1 ls w2)
  obtain xs where "extends (sessions w ! i) (sessions w1 ! i) xs" using wstep_extends runs_cons by blast
  moreover obtain ys where "extends (sessions w1 ! i) (sessions w2 ! i) ys"
    using runs_cons wstep_length by fastforce
  ultimately show ?case using extends_trans by blast
qed


subsection \<open>A blocked acknowledgement freezes the registry\<close>

text \<open>Session \<open>i\<close> waits to acknowledge into the full channel \<open>tx\<close>, holding the read guard.\<close>

definition ack_blocked :: "nat \<Rightarrow> nat \<Rightarrow> world \<Rightarrow> bool" where
  "ack_blocked i tx w \<longleftrightarrow> i < length (sessions w) \<and> tx < length (sessions w)
     \<and> (\<exists>f rest. todo (sessions w ! i) = SendGuarded tx f # rest)
     \<and> rx_open (sessions w ! tx) \<and> length (queue (sessions w ! tx)) \<ge> CHANNEL_CAPACITY"

lemma ack_blocked_guard: "ack_blocked i tx w \<Longrightarrow> guard_held w"
  unfolding ack_blocked_def guard_held_def by (metis holds_guard.simps(1) nth_mem)

lemma ack_blocked_step:
  assumes "ack_blocked i tx w" "wstep w l w'" "l \<noteq> WriterSent tx" "l \<noteq> WriterFailed tx"
  shows "ack_blocked i tx w' \<and> routes w' = routes w"
proof -
  note guard = ack_blocked_guard [OF assms(1)]
  obtain f0 rest0 where b: "i < length (sessions w)" "tx < length (sessions w)" "todo (sessions w ! i) = SendGuarded tx f0 # rest0"
    "rx_open (sessions w ! tx)" "length (queue (sessions w ! tx)) \<ge> CHANNEL_CAPACITY" "CHANNEL_CAPACITY > 0"
    using assms(1) by (auto simp: ack_blocked_def CHANNEL_CAPACITY_def)
  from assms(2) show ?thesis
  proof (cases rule: wstep.cases)
    case accept
    with b show ?thesis by (auto simp: ack_blocked_def nth_append)
  next
    case (receive j s f r' reg' actions)
    then have "j \<noteq> i" "\<not> is_registration f" using b guard by auto
    with handle_frame_routes [OF receive(9)] receive b show ?thesis by (auto simp: ack_blocked_def nth_upd)
  next
    case (send_ok j a rest tx' f cleanup)
    then have "j \<noteq> i" using b by auto
    with send_ok b show ?thesis by (auto simp: ack_blocked_def nth_upd)
  next
    case (send_closed j a rest tx' f cleanup)
    then have "j \<noteq> i" using b by auto
    with send_closed b show ?thesis by (auto simp: ack_blocked_def nth_upd)
  next
    case (remove j p c rest)
    with guard show ?thesis by simp
  next
    case (writer_done j)
    then have "j \<noteq> tx" using b by auto
    with writer_done b show ?thesis by (auto simp: ack_blocked_def nth_upd)
  qed (use assms(3,4) b in \<open>auto simp: ack_blocked_def nth_upd\<close>)
qed

lemma ack_blocked_runs:
  "runs wstep w ls w' \<Longrightarrow> ack_blocked i tx w \<Longrightarrow> WriterSent tx \<notin> set ls \<Longrightarrow> WriterFailed tx \<notin> set ls \<Longrightarrow>
     ack_blocked i tx w' \<and> routes w' = routes w"
  by (induction rule: runs.induct) (auto dest: ack_blocked_step)

subsection \<open>Sample runs\<close>

definition registration_frame :: "bytes \<Rightarrow> Frame" where
  "registration_frame p = \<lparr>session_id = ROUTE_REGISTRATION_ID, nonce = replicate 8 0, payload = p\<rparr>"

lemma register_step:
  assumes "i < length (sessions w)" "phase (sessions w ! i) = Reading" "todo (sessions w ! i) = []" "\<not> guard_held w" "length p = 32"
  shows "wstep w (Receive i (registration_frame p))
    (w\<lparr>routes := registry_ins (routes w) p (conn_id (sessions w ! i)) i,
       sessions := upd i (\<lambda>s. s\<lparr>registered_peer := Some p, todo := []\<rparr>) (sessions w)\<rparr>)"
  using assms
  by (intro receive [OF assms(1) refl])
    (auto simp: registration_frame_def handle_frame_def registry_ins_def wf_frame_def frame_typed_def frame_sizes
      ROUTE_REGISTRATION_ID_def)

definition world0 :: world where
  "world0 = \<lparr>routes = registry_new, NEXT_CONNECTION_ID = 1, sessions = []\<rparr>"

text \<open>The worlds of a run in which one client connects, registers under \<open>p\<close> and then under \<open>q\<close>.\<close>

definition sample_session :: "bytes \<Rightarrow> session" where
  "sample_session p = (new_session 1)\<lparr>registered_peer := Some p\<rparr>"

definition registered_world :: "bytes \<Rightarrow> world" where
  "registered_world p = \<lparr>routes = registry_ins registry_new p 1 0, NEXT_CONNECTION_ID = 2, sessions = [sample_session p]\<rparr>"

definition twice_registered_world :: "bytes \<Rightarrow> bytes \<Rightarrow> world" where
  "twice_registered_world p q = \<lparr>routes = registry_ins (registry_ins registry_new p 1 0) q 1 0,
     NEXT_CONNECTION_ID = 2, sessions = [sample_session q]\<rparr>"

lemma registered_world_reachable:
  assumes "length p = 32" shows "reachable_world (registered_world p)"
proof -
  let ?w1 = "world0\<lparr>sessions := sessions world0 @ [new_session (NEXT_CONNECTION_ID world0)],
      NEXT_CONNECTION_ID := NEXT_CONNECTION_ID world0 + 1\<rparr>"
  have "reachable_world world0" by (rule reach_init) (simp add: initial_world_def world0_def)
  then have "reachable_world ?w1" by (rule reach_step) (rule accept)
  moreover have "wstep ?w1 (Receive 0 (registration_frame p)) (registered_world p)"
    using register_step [of 0 ?w1 p] assms
    by (simp add: world0_def registered_world_def sample_session_def new_session_def guard_held_def upd_def)
  ultimately show ?thesis by (rule reach_step)
qed

lemma twice_registered_world_reachable:
  assumes "length p = 32" "length q = 32" shows "reachable_world (twice_registered_world p q)"
proof -
  have "wstep (registered_world p) (Receive 0 (registration_frame q)) (twice_registered_world p q)"
    using register_step [of 0 "registered_world p" q] assms
    by (simp add: registered_world_def twice_registered_world_def sample_session_def new_session_def guard_held_def upd_def)
  with registered_world_reachable [OF assms(1)] show ?thesis by (rule reach_step)
qed

definition routed_to_finished :: "phase \<Rightarrow> bytes \<Rightarrow> world \<Rightarrow> bool" where
  "routed_to_finished ph p w \<longleftrightarrow> phase (sessions w ! 0) = ph \<and> todo (sessions w ! 0) = []
     \<and> (\<exists>e. get_by_peer_id (routes w) p = Some e \<and> entry_tx e = 0)"

lemma stale_closed_route:
  assumes "length p = 32" "length q = 32" "p \<noteq> q"
  shows "\<exists>w. reachable_world w \<and> routed_to_finished Closed p w"
proof -
  let ?w = "twice_registered_world p q"
  let ?w1 = "?w\<lparr>sessions := [(sample_session q)\<lparr>phase := Closed, todo := [Remove q 1]\<rparr>]\<rparr>"
  let ?w2 = "?w\<lparr>routes := registry_rem (routes ?w) q 1, sessions := [(sample_session q)\<lparr>phase := Closed\<rparr>]\<rparr>"
  have s1: "wstep ?w (Eof 0) ?w1"
    using eof [of 0 ?w] by (simp add: twice_registered_world_def sample_session_def new_session_def upd_def)
  have s2: "wstep ?w1 (Act 0) ?w2"
    using remove [of 0 ?w1 q 1 "[]"]
    by (simp add: twice_registered_world_def sample_session_def new_session_def upd_def guard_held_def registry_rem_def)
  have "reachable_world ?w2"
    by (rule reach_step [OF reach_step [OF twice_registered_world_reachable [OF assms(1,2)] s1] s2])
  moreover have "routed_to_finished Closed p ?w2"
    using assms(3) by (simp add: routed_to_finished_def twice_registered_world_def sample_session_def new_session_def
        registry.by_id_rem registry.by_id_ins)
  ultimately show ?thesis by blast
qed

lemma stale_errored_route:
  assumes "length p = 32"
  shows "\<exists>w. reachable_world w \<and> routed_to_finished Errored p w"
proof -
  let ?w = "(registered_world p)\<lparr>sessions := [(sample_session p)\<lparr>phase := Errored\<rparr>]\<rparr>"
  have "wstep (registered_world p) (Broken 0) ?w"
    using broken [of 0 "registered_world p"] by (simp add: registered_world_def sample_session_def new_session_def upd_def)
  then have "reachable_world ?w" by (rule reach_step [OF registered_world_reachable [OF assms]])
  moreover have "routed_to_finished Errored p ?w"
    by (simp add: routed_to_finished_def registered_world_def sample_session_def new_session_def registry.by_id_ins)
  ultimately show ?thesis by blast
qed

lemma send_enabled:
  assumes "i < length (sessions w)" "todo (sessions w ! i) = a # rest" "send_of a = Some (tx, f, cleanup)" "tx < length (sessions w)"
    and "\<not> rx_open (sessions w ! tx) \<or> length (queue (sessions w ! tx)) < CHANNEL_CAPACITY"
  shows "\<exists>w'. wstep w (Act i) w' \<and> todo (sessions w' ! i) \<in> {rest, cleanup @ rest}"
proof (cases "rx_open (sessions w ! tx)")
  case True
  let ?w = "w\<lparr>sessions := upd tx (\<lambda>s. s\<lparr>queue := queue s @ [f]\<rparr>) (upd i (\<lambda>s. s\<lparr>todo := rest\<rparr>) (sessions w))\<rparr>"
  have "wstep w (Act i) ?w" using send_ok [OF assms(1-4) True] assms(5) True by blast
  moreover have "todo (sessions ?w ! i) = rest" using assms(1) by (simp add: nth_upd)
  ultimately show ?thesis by blast
next
  case False
  let ?w = "w\<lparr>sessions := upd i (\<lambda>s. s\<lparr>todo := cleanup @ rest\<rparr>) (sessions w)\<rparr>"
  have "wstep w (Act i) ?w" using send_closed [OF assms(1-4) False] .
  moreover have "todo (sessions ?w ! i) = cleanup @ rest" using assms(1) by (simp add: nth_upd)
  ultimately show ?thesis by blast
qed

text \<open>A heartbeat leaves a pending send behind.\<close>

lemma heartbeat_pending:
  fixes p :: bytes
  assumes "length p = 32"
  shows "\<exists>w f rest. reachable_world w \<and> length (sessions w) = 1 \<and> todo (sessions w ! 0) = Send 0 f None # rest"
proof -
  obtain bs where bs: "length bs \<le> MAX_PAYLOAD_SIZE" "envelope_decode bs = Ok (built_envelope Heartbeat 1 0 0 (put_u64 5))"
    using encode_client_fits [of "C2S_Heartbeat 5" 1 0 0] by (auto simp: frame_sizes)
  let ?f = "\<lparr>session_id = replicate 16 0, nonce = replicate 8 0, payload = bs\<rparr>"
  obtain f where f: "server_frame (S2C_HeartbeatResponse 5) 1 1 0 (prefix_of p) (replicate 8 0) = Some f"
    using server_frame_short [of "S2C_HeartbeatResponse 5" 5] by blast
  have "decode_client_message bs = Ok (built_envelope Heartbeat 1 0 0 (put_u64 5), C2S_Heartbeat 5)"
    using bs c2s_decode_encode [of "C2S_Heartbeat 5"] by (simp add: decode_client_message_def)
  then have "handle_frame 1 0 (routes (registered_world p)) (Some p) ?f = (routes (registered_world p), Some p, [Send 0 f None])"
    using f by (simp add: handle_frame_def on_heartbeat_def send_some_def ROUTE_REGISTRATION_ID_def ECHO_ROUTE_ID_def)
  then have "wstep (registered_world p) (Receive 0 ?f) ((registered_world p)\<lparr>routes := routes (registered_world p),
      sessions := upd 0 (\<lambda>s. s\<lparr>registered_peer := Some p, todo := [Send 0 f None]\<rparr>) (sessions (registered_world p))\<rparr>)"
    using bs(1) by (intro receive) (auto simp: registered_world_def sample_session_def new_session_def guard_held_def
      wf_frame_def frame_typed_def frame_sizes)
  from reach_step [OF registered_world_reachable [OF assms] this] show ?thesis
    by (rule_tac exI, rule_tac exI [of _ f], rule_tac exI [of _ "[]"], rule_tac conjI, assumption)
      (simp add: registered_world_def nth_upd)
qed

subsection \<open>Properties\<close>

text \<open>C4: invariants of every reachable state of the relay, whatever the interleaving of its tasks: connection ids are
  the counter values, every route belongs to an existing connection and leads to that connection's channel, prefix
  routes are current routes, no channel holds more than 256 frames, every frame queued or written is well formed, and
  every pending send has an existing channel as its target.\<close>

theorem relay_invariant:
  assumes "reachable_world w"
  shows "world_inv w"
  using assms by (rule world_sys.reachable_inv)

theorem relay_invariant_witness: "world_inv (registered_world (replicate 32 7))"
  using relay_invariant registered_world_reachable by simp

text \<open>C17: a session whose stream ended in order, and whose cleanup has run, owns no route of the peer id it registered
  last, neither under the id nor under its prefix, however its end interleaved with other sessions and however often
  the peer reconnected; a newer route of the same peer is kept. The assumption on the number of sessions is that the
  64-bit connection counter has not wrapped around.\<close>

theorem closed_session_unrouted:
  assumes "reachable_world w" "length (sessions w) < 2 ^ 64 - 1" "i < length (sessions w)"
    and "phase (sessions w ! i) = Closed" "todo (sessions w ! i) = []" "registered_peer (sessions w ! i) = Some p"
  shows "(\<forall>e. get_by_peer_id (routes w) p = Some e \<longrightarrow> entry_connection e \<noteq> conn_id (sessions w ! i) \<and> entry_tx e \<noteq> i)
    \<and> (\<forall>pre e. get_by_prefix (routes w) pre = Some e \<longrightarrow> entry_peer e = p \<longrightarrow> entry_tx e \<noteq> i)"
proof -
  have inv: "world_inv w" "closed_ok w" using closed_sys.reachable_inv [OF assms(1)] by auto
  then have id: "get_by_peer_id (routes w) p = Some e \<Longrightarrow> entry_connection e \<noteq> conn_id (sessions w ! i) \<and> entry_tx e \<noteq> i" for e
    using assms by (auto simp: closed_ok_def world_inv_def routes_ok_def)
  moreover have "get_by_prefix (routes w) pre = Some e \<Longrightarrow> entry_peer e = p \<Longrightarrow> entry_tx e \<noteq> i" for pre e
    using id registry_entry(2) [of "routes w" pre e] inv(1) by (auto simp: world_inv_def routes_ok_def)
  ultimately show ?thesis by blast
qed

definition closed_world :: "bytes \<Rightarrow> world" where
  "closed_world p = \<lparr>routes = registry_rem (registry_ins registry_new p 1 0) p 1, NEXT_CONNECTION_ID = 2,
     sessions = [(sample_session p)\<lparr>phase := Closed\<rparr>]\<rparr>"

lemma closed_world_reachable:
  assumes "length p = 32" shows "reachable_world (closed_world p)"
proof -
  let ?w = "(registered_world p)\<lparr>sessions := [(sample_session p)\<lparr>phase := Closed, todo := [Remove p 1]\<rparr>]\<rparr>"
  have s1: "wstep (registered_world p) (Eof 0) ?w"
    using eof [of 0 "registered_world p"] by (simp add: registered_world_def sample_session_def new_session_def upd_def)
  have s2: "wstep ?w (Act 0) (closed_world p)"
    using remove [of 0 ?w p 1 "[]"]
    by (simp add: registered_world_def closed_world_def sample_session_def new_session_def upd_def guard_held_def registry_rem_def)
  show ?thesis by (rule reach_step [OF reach_step [OF registered_world_reachable [OF assms] s1] s2])
qed

theorem closed_session_unrouted_witness:
  "\<nexists>e. get_by_peer_id (routes (closed_world (replicate 32 7))) (replicate 32 7) = Some e \<and> entry_tx e = 0"
  using closed_session_unrouted [OF closed_world_reachable, of "replicate 32 7" 0 "replicate 32 7"]
  by (simp add: closed_world_def sample_session_def new_session_def)

text \<open>C33: a route can nevertheless outlive its session. When a client registers a second id, the cleanup at the end of
  the stream removes only the second one; and when the session ends with an error there is no cleanup at all. In both
  cases a reachable state has a finished session, with nothing left to do, that the registry still routes to.\<close>

theorem route_outlives_session:
  "(\<exists>w. reachable_world w \<and> routed_to_finished Closed (replicate 32 1) w)
   \<and> (\<exists>w. reachable_world w \<and> routed_to_finished Errored (replicate 32 1) w)"
  using stale_closed_route [of "replicate 32 1" "replicate 32 2"] stale_errored_route [of "replicate 32 1"] by simp




definition blocked_world :: world where
  "blocked_world = \<lparr>routes = registry_new, NEXT_CONNECTION_ID = 2,
     sessions = [(sample_session (replicate 32 1))\<lparr>todo := [SendGuarded 0 sample_frame], queue := replicate 256 sample_frame\<rparr>]\<rparr>"



end
