(* ===== verification/Spec2Isabelle.thy ===== *)
theory Spec2Isabelle
  imports Debug_Output Pipeline_Relay Connect Transports Listener_Tasks Server_Pipeline Routed_World Obfuscation Messages
begin

text \<open>
  Verification of the EchoMesh relay, a Rust program that relays encrypted messages between clients and hides behind a
  TLS camouflage. This theory imports the development and holds the properties that span its components.

  \<^bold>\<open>The program.\<close> A client connects over TCP and sends a pseudo-TLS ClientHello that carries a secret token
  (\<open>src/transport/obfuscation.rs\<close>). The listener parses it, checks the token and either passes the connection on to a
  disguise site or performs a Noise NK handshake (\<open>src/transport/noise.rs\<close>). From then on both sides exchange frames of
  1420 bytes (\<open>src/protocol/frame.rs\<close>), one per Noise message. A frame's payload is an envelope
  (\<open>src/protocol/envelope.rs\<close>) with a typed message (\<open>src/protocol/messages/\<close>) or raw bytes. There are two listeners.
  The routed one (\<open>src/server/routed_listener.rs\<close>), which the binary runs, keeps a registry of peers and forwards
  messages between the bounded channels of their connections. The older one (\<open>src/server/listener.rs\<close>) gives every
  frame to a pipeline of handlers (\<open>src/server/networking/\<close>, \<open>routing/\<close>, \<open>handlers/\<close>) and keeps tables of connections
  and sessions. The client (\<open>src/client/\<close>) numbers its requests and matches responses with them. At start-up
  (\<open>src/main.rs\<close>, \<open>src/server/config.rs\<close>, \<open>src/crypto/keys.rs\<close>) the relay loads or generates its keys and token.

  \<^bold>\<open>Conventions.\<close> Integers keep their width as words. Strings and byte buffers are lists of 8-bit words; a string is
  its UTF-8 text. A fallible function returns \<open>Ok\<close>, \<open>Err\<close> or \<open>Panic\<close>, so that a panic of the source (a slice out
  of range, an \<open>unwrap\<close>) is a value. A function that changes its receiver takes and returns the state. A function
  that awaits between changes of shared state is split into the steps of a relation, one step per await point, and
  the environment chooses which task moves next. Constants, error variants and field names are those of the source.

  \<^bold>\<open>Theories, from the bottom up.\<close>
  \<^item> \<open>Relay_Prelude\<close>: results, big-endian integers, buffers, computations with a state. \<open>Rust_Strings\<close>: what is used of
    the standard library's strings, and the hexadecimal codec. \<open>Transition\<close>: reachability and the locale
    \<open>invariant_system\<close>. \<open>Wire_Codec\<close>: the locale of an encoder and a decoder, interpreted for frames,
    envelopes and messages.
  \<^item> \<open>Relay_Errors\<close>: \<open>src/error.rs\<close>.
  \<^item> \<open>Frame\<close>, \<open>Envelope\<close>, \<open>Messages\<close>: \<open>src/protocol/\<close>. Round trips, exact characterisation of what is accepted, no
    panic on any input, and the sizes that make every message fit one frame.
  \<^item> \<open>Obfuscation\<close>: parser, token validator and builder of hellos. The parser never panics, terminates, and asks for
    more data within its limit only; it inverts the builder; the condition of acceptance is exact.
  \<^item> \<open>Listener\<close>: \<open>handle_connection\<close>, \<open>PrefixedStream\<close> and the proxy of both listeners: when a session starts; that
    the routed listener loses and invents no byte on the way to the session or the disguise site, where the older one
    loses those of a hello cut short; and what the log shows of a client's token.
  \<^item> \<open>Route_Registry\<close>: the registry's two maps (locale of a keyed table with two indices) against the history of its
    operations. \<open>Routed_Session\<close>: the body of the frame loop, as the actions it leads to. \<open>Routed_World\<close>: all sessions
    and writers of the routed listener as a step relation, with the invariants of every reachable state: unique
    connection ids, routes that lead to existing sessions, bounded channels, first-in first-out delivery, progress of
    pending sends, cleanup.
  \<^item> \<open>Server_Managers\<close>, \<open>Server_Pipeline\<close> (locale \<open>inbound_handler\<close>, interpreted on the four handlers),
    \<open>Listener_Tasks\<close> (the accept loops with their permits and the watch channel that stops them, and the session loop of
    the older listener), \<open>Pipeline_Relay\<close> (its sessions together, one step for each lock they take).
  \<^item> \<open>Noise\<close>: the encrypted stream and the handshake, over the interface of the crate \<open>snow\<close>. \<open>Transports\<close>: the
    trait \<open>Transport\<close> as the locale \<open>packet_transport\<close>, interpreted for TCP and memory, and \<open>SecureTransport\<close> over it.
  \<^item> \<open>Client\<close>: routers, requests and the life of the network task, up to its end by \<open>disconnect\<close>, by the stream or by a
    panic, as a step relation. \<open>Connect\<close>: \<open>connect\<close> against the routed listener.
  \<^item> \<open>Base64\<close>, \<open>Key_Files\<close>, \<open>Relay_Config\<close>: keys, files, secrets, configuration and start-up over an explicit file
    system. \<open>Debug_Output\<close>: what debug output contains.

  \<^bold>\<open>What the environment decides.\<close> The time, random bytes, fresh keys and the results of connecting are arguments.
  How bytes are split into reads, when a stream ends or fails, and which task moves are arguments or choices of the
  step relations, and the theorems hold for all of them. Of \<open>snow\<close>, which is not part of the repository, three
  documented facts are hypotheses where they are needed: messages within the limits are delivered in order and are 16
  bytes longer than their text (\<open>snow_transport\<close>, \<open>snow_tag\<close>), and the two sides of an NK handshake with matching
  keys agree (\<open>snow_nk\<close>); a concrete instance shows that they can hold. Secrecy and authenticity of the cryptography
  are not claimed.

  \<^bold>\<open>Bounds.\<close> No model has fuel: every function terminates for all arguments. Message and connection ids are 64-bit
  counters that wrap around; the theorems that need unique ids assume fewer than \<open>2\<^sup>64 - 1\<close> requests or connections.
  \<open>usize\<close> has 64 bits where the source parses it; lengths are natural numbers elsewhere, since they are bounded by
  buffers that exist.

  \<^bold>\<open>Not modelled.\<close> Module files, which only declare and re-export; log output; binding of sockets, the set-up of the
  runtime and the signal handler; accessors that return a field; the parts of \<open>cfg(not(unix))\<close>; the crate \<open>snow\<close>.
  In the file system two paths are the same file exactly if they are equal, so links and \<open>..\<close> are not resolved, and
  the relay is the only program that writes its files. Memory ordering does not matter to the model: the shared
  counters are only incremented, and everything else is behind locks or in channels.
\<close>

section \<open>Properties that span components\<close>

subsection \<open>A request and its answer\<close>

lemma answer_wakes:
  assumes "decode_server_message (payload f) = Ok (env, msg)" "s2c_is_response msg" "correlation_id env = mid" "mid \<noteq> 0"
  shows "client_on_frame f (register_pending mid k r) = Ok ([Wake k msg], r\<lparr>pending_requests := (pending_requests r)(mid := None)\<rparr>)"
  using assms by (simp add: client_on_frame_def client_dispatch_def register_pending_def Let_def)

lemma event_reaches_handlers:
  assumes "decode_server_message (payload f) = Ok (env, S2C_IncomingMessageEvent sender content)"
  shows "client_on_frame f r = Ok (map (\<lambda>h. OnIncomingMessage h sender content) (event_handlers r), r)"
  using assms by (simp add: client_on_frame_def client_dispatch_def s2c_is_response_def is_response_def)

text \<open>C12: a request through the pipeline listener comes back to its caller. Whatever request a client sends with the
  session its \<open>connect\<close> sets up, the pipeline answers with exactly one frame, and that frame, arriving at the client,
  wakes the caller waiting for this request, and nobody else, with what the handler of the request answered, or with
  the error with code 500 if the request has no handler. A ping returns the number it sent.\<close>

theorem request_answered:
  assumes "request_ok m" "counter \<noteq> 0" "length (sn_session_id (pl_session p)) = 16"
  shows "\<exists>f p' g resp env.
    client_send_message True now (cs_session_id (client_session_new addr)) m counter = (Ok (counter, f), counter + 1)
    \<and> process_frame standard_relay instant server_now p f = ((Ok () :: ('snow EchoMeshError, unit) result), p') \<and> pl_sent p' = pl_sent p @ [g]
    \<and> client_on_frame g (register_pending counter k r) = Ok ([Wake k resp], r\<lparr>pending_requests := (pending_requests r)(counter := None)\<rparr>)
    \<and> (if c2s_message_type m \<in> handled_types then message_id env = counter \<and> dispatch standard_relay env m (pl_session p) = Ok (Some resp)
       else resp = S2C_ErrorResponse 500 (lit ''internal processing error''))
    \<and> (\<forall>seq. m = C2S_Heartbeat seq \<longrightarrow> ping_result show_message (Some (Ok resp)) = (Ok seq :: ('snow EchoMeshError, u64) result))"
proof -
  obtain f where f: "client_send_message True now (cs_session_id (client_session_new addr)) m counter = (Ok (counter, f), counter + 1)"
    "session_id f = cs_session_id (client_session_new addr)"
    "decode_client_message (payload f) = Ok (built_envelope (c2s_message_type m) counter 0 now (c2s_encode m), m)"
    using assms(1) by (rule_tac client_send_message_fits) (auto simp: request_ok_def)
  let ?p = "\<lambda>g. p\<lparr>pl_sessions := snd (touch_session (sn_session_id (pl_session p)) instant (pl_sessions p)),
      pl_counter := pl_counter p + 1, pl_sent := pl_sent p @ [g]\<rparr>"
  let ?env = "built_envelope (c2s_message_type m) counter 0 now (c2s_encode m)"
  have "session_id f = take 16 ECHO_SERVICE_PEER_ID" using f(2) by (simp add: client_session_new_def)
  then obtain g env' resp where g: "process_frame standard_relay instant server_now p f = ((Ok () :: ('snow EchoMeshError, unit) result), ?p g)"
    "decode_server_message (payload g) = Ok (env', resp)" "correlation_id env' = message_id ?env" "is_response (message_type env')"
    "resp = S2C_ErrorResponse 500 (lit ''internal processing error'') \<longleftrightarrow> c2s_message_type m \<notin> handled_types"
    "c2s_message_type m \<in> handled_types \<longrightarrow> dispatch standard_relay ?env m (pl_session p) = Ok (Some resp)"
    using pipeline_answers [OF _ f(3) assms(3), where 'snow = 'snow and instant = instant and now = server_now] by blast
  have "s2c_is_response resp" using g(4) decode_server_typed [OF g(2)] by (simp add: s2c_is_response_def)
  then have "client_on_frame g (register_pending counter k r) = Ok ([Wake k resp], r\<lparr>pending_requests := (pending_requests r)(counter := None)\<rparr>)"
    using g(3) assms(2) by (intro answer_wakes [OF g(2)]) simp_all
  moreover have "resp = S2C_HeartbeatResponse seq" if "m = C2S_Heartbeat seq" for seq
    using g(6) that by (simp add: dispatch_def standard_relay_eq handled_types_def)
  then have "\<forall>seq. m = C2S_Heartbeat seq \<longrightarrow> ping_result show_message (Some (Ok resp)) = (Ok seq :: ('snow EchoMeshError, u64) result)"
    by (simp add: ping_result_def await_response_def)
  ultimately show ?thesis using f(1) g(1,5,6)
    by (intro exI [of _ f] exI [of _ "?p g"] exI [of _ g] exI [of _ resp] exI [of _ ?env]) simp
qed


theorem request_answered_witness:
  "\<exists>f p' g. client_send_message True 0 (cs_session_id (client_session_new ())) (C2S_Heartbeat 42) 1 = (Ok (1, f), 2)
    \<and> process_frame standard_relay 1 0 sample_pipeline f = ((Ok () :: (unit EchoMeshError, unit) result), p') \<and> pl_sent p' = [g]
    \<and> (\<exists>resp. client_on_frame g (register_pending 1 0 client_inbound_new) = Ok ([Wake 0 resp], client_inbound_new :: nat ClientInboundRouter)
        \<and> ping_result (\<lambda>_. []) (Some (Ok resp)) = (Ok 42 :: (unit EchoMeshError, u64) result))"
  using request_answered [of "C2S_Heartbeat 42" 1 sample_pipeline 0 "()" 1 0 0 "client_inbound_new :: nat ClientInboundRouter" "\<lambda>_. []", where 'snow = unit]
  by (auto simp: request_ok_def frame_sizes sample_pipeline_def server_pipeline_new_def session_new_def client_inbound_new_def)

subsection \<open>A message from one client to another\<close>

lemma send_runs:
  assumes "i < length (sessions w)" "j < length (sessions w)" "i \<noteq> j" "phase (sessions w ! i) = Reading" "todo (sessions w ! i) = []"
    and "rx_open (sessions w ! i)" "length (queue (sessions w ! i)) < CHANNEL_CAPACITY"
    and "rx_open (sessions w ! j)" "length (queue (sessions w ! j)) < CHANNEL_CAPACITY"
    and "wf_frame f" "\<not> is_registration f"
    and "handle_frame (conn_id (sessions w ! i)) i (routes w) (registered_peer (sessions w ! i)) f
      = (routes w, registered_peer (sessions w ! i), [Send i resp None, Send j evt (Some (p, c))])"
  shows "\<exists>w'. runs wstep w [Receive i f, Act i, Act i] w' \<and> routes w' = routes w
    \<and> queue (sessions w' ! i) = queue (sessions w ! i) @ [resp] \<and> queue (sessions w' ! j) = queue (sessions w ! j) @ [evt]"
proof -
  let ?ss = "sessions w"
  let ?w1 = "w\<lparr>sessions := upd i (\<lambda>s. s\<lparr>registered_peer := registered_peer (?ss ! i), todo := [Send i resp None, Send j evt (Some (p, c))]\<rparr>) ?ss\<rparr>"
  let ?w2 = "?w1\<lparr>sessions := upd i (\<lambda>s. s\<lparr>queue := queue s @ [resp]\<rparr>) (upd i (\<lambda>s. s\<lparr>todo := [Send j evt (Some (p, c))]\<rparr>) (sessions ?w1))\<rparr>"
  let ?w3 = "?w2\<lparr>sessions := upd j (\<lambda>s. s\<lparr>queue := queue s @ [evt]\<rparr>) (upd i (\<lambda>s. s\<lparr>todo := []\<rparr>) (sessions ?w2))\<rparr>"
  have "wstep w (Receive i f) (w\<lparr>routes := routes w, sessions := sessions ?w1\<rparr>)"
    using receive [OF assms(1) refl assms(4,5,10) _ assms(12)] assms(11) by simp
  then have s1: "wstep w (Receive i f) ?w1" by simp
  have s2: "wstep ?w1 (Act i) ?w2"
    by (rule send_ok [where a = "Send i resp None"]) (use assms in \<open>simp_all add: nth_upd\<close>)
  have s3: "wstep ?w2 (Act i) ?w3"
    by (rule send_ok [where a = "Send j evt (Some (p, c))"]) (use assms in \<open>simp_all add: nth_upd\<close>)
  have "runs wstep w [Receive i f, Act i, Act i] ?w3" by (rule runs_cons, rule s1, rule runs_cons, rule s2, rule runs_cons, rule s3, rule runs_nil)
  then show ?thesis using assms(1-3) by (intro exI [of _ ?w3]) (simp add: nth_upd)
qed

text \<open>C1: a message gets from one client to another. When Alice's session is registered and idle, Bob has a route and
  both channels have room, the frame that Alice's client sends for her message leads, in three steps of the relay, to
  one frame in Alice's channel and one in Bob's; the first, arriving at Alice's client, wakes the caller waiting for this
  message with its acceptance, and the second, arriving at Bob's client, calls each of his event handlers once with
  Alice's registered id and the message's bytes.\<close>

theorem message_reaches_peer:
  assumes "i < length (sessions w)" "j < length (sessions w)" "i \<noteq> j" "phase (sessions w ! i) = Reading" "todo (sessions w ! i) = []"
    and "rx_open (sessions w ! i)" "length (queue (sessions w ! i)) < CHANNEL_CAPACITY"
    and "rx_open (sessions w ! j)" "length (queue (sessions w ! j)) < CHANNEL_CAPACITY"
    and "registered_peer (sessions w ! i) = Some alice" "length alice = 32"
    and "get_by_peer_id (routes w) bob = Some \<lparr>entry_connection = c, entry_peer = bob, entry_tx = j\<rparr>" "length bob = 32" "alice \<noteq> bob"
    and "length sid = 16" "\<not> reserved_id sid" "32 + length content \<le> MAX_ENVELOPE_PAYLOAD_SIZE" "counter \<noteq> 0"
  shows "\<exists>f resp evt w'. client_send_message True now sid (C2S_SendMessage bob content) counter = (Ok (counter, f), counter + 1)
    \<and> runs wstep w [Receive i f, Act i, Act i] w'
    \<and> queue (sessions w' ! i) = queue (sessions w ! i) @ [resp] \<and> queue (sessions w' ! j) = queue (sessions w ! j) @ [evt]
    \<and> client_on_frame resp (register_pending counter k ra)
        = Ok ([Wake k (S2C_SendMessageResponse counter True)], ra\<lparr>pending_requests := (pending_requests ra)(counter := None)\<rparr>)
    \<and> client_on_frame evt rb = Ok (map (\<lambda>h. OnIncomingMessage h alice content) (event_handlers rb), rb)"
proof -
  obtain f where f: "client_send_message True now sid (C2S_SendMessage bob content) counter = (Ok (counter, f), counter + 1)"
    "session_id f = sid" "length sid = 16 \<longrightarrow> wf_frame f"
    "decode_client_message (payload f) = Ok (built_envelope SendMessage counter 0 now (bob @ content), C2S_SendMessage bob content)"
    using client_send_message_fits [of "C2S_SendMessage bob content" now sid counter] assms(13,17) by auto
  obtain resp evt env1 env2 where sent:
      "handle_frame (conn_id (sessions w ! i)) i (routes w) (Some alice) f = (routes w, Some alice, [Send i resp None, Send j evt (Some (bob, c))])"
    and resp: "decode_server_message (payload resp) = Ok (env1, S2C_SendMessageResponse counter True)" "correlation_id env1 = counter"
    and evt: "decode_server_message (payload evt) = Ok (env2, S2C_IncomingMessageEvent alice content)"
    using send_message_actions [OF _ f(4) assms(11,14,12)] f(2) assms(16) by fastforce
  have "\<not> is_registration f" using f(2) assms(16) by (auto simp: is_registration_def)
  then obtain w' where "runs wstep w [Receive i f, Act i, Act i] w'"
    "queue (sessions w' ! i) = queue (sessions w ! i) @ [resp]" "queue (sessions w' ! j) = queue (sessions w ! j) @ [evt]"
    using send_runs [OF assms(1-9), of f resp evt bob c] f(3) assms(15) sent assms(10) by auto
  moreover have "client_on_frame resp (register_pending counter k ra)
      = Ok ([Wake k (S2C_SendMessageResponse counter True)], ra\<lparr>pending_requests := (pending_requests ra)(counter := None)\<rparr>)"
    using resp(2) assms(18) by (intro answer_wakes [OF resp(1)]) (simp_all add: s2c_is_response_def is_response_def)
  ultimately show ?thesis
    using f(1) event_reaches_handlers [OF evt, of rb] by blast
qed

definition sample_world :: world where
  "sample_world = \<lparr>routes = registry_after [Register (replicate 32 2) 2 1], NEXT_CONNECTION_ID = 3,
     sessions = [(new_session 1)\<lparr>registered_peer := Some (replicate 32 1)\<rparr>, new_session 2]\<rparr>"

theorem message_reaches_peer_witness:
  "\<exists>f evt w'. runs wstep sample_world [Receive 0 f, Act 0, Act 0] w' \<and> queue (sessions w' ! 1) = [evt]
    \<and> client_on_frame evt (add_event_handler 7 client_inbound_new) = Ok ([OnIncomingMessage (7 :: nat) (replicate 32 1) [104, 105]], add_event_handler 7 client_inbound_new)"
proof -
  have "get_by_peer_id (routes sample_world) (replicate 32 2) = Some \<lparr>entry_connection = 2, entry_peer = replicate 32 2, entry_tx = 1\<rparr>"
    by (simp add: sample_world_def registry_defs)
  then show ?thesis
    using message_reaches_peer [of 0 sample_world 1 "replicate 32 1" "replicate 32 2" 2 "replicate 16 2" "[104, 105]" 1 0 0
        "client_inbound_new :: nat ClientInboundRouter" "add_event_handler (7 :: nat) client_inbound_new"]
    by (auto simp: sample_world_def new_session_def CHANNEL_CAPACITY_def frame_sizes ROUTE_REGISTRATION_ID_def ECHO_ROUTE_ID_def
        client_inbound_new_def add_event_handler_def)
qed

text \<open>C37: the client of this crate cannot use the listener that the relay runs. The session id that \<open>connect\<close> gives its
  client, and with it every request, is the echo route; the routed listener drops every frame for that route, whoever
  is registered, so no request is ever answered.\<close>

theorem default_client_ignored:
  assumes "client_send_message is_open now (cs_session_id (client_session_new addr)) m counter = (Ok (mid, f), counter')"
  shows "handle_frame conn out_tx rs peer f = (rs, peer, [])"
proof -
  have "session_id f = cs_session_id (client_session_new addr)"
    using assms by (auto simp: client_send_message_def frame_new_def next_message_id_def and_then_Ok_iff split: if_splits)
  then have "session_id f = ECHO_ROUTE_ID" by (simp add: client_session_new_def ECHO_ROUTE_ID_def ECHO_SERVICE_PEER_ID_def)
  then show ?thesis by (simp add: handle_frame_def ECHO_ROUTE_ID_def ROUTE_REGISTRATION_ID_def)
qed

theorem default_client_ignored_witness:
  "\<exists>f. client_send_message True 0 (cs_session_id (client_session_new ())) (C2S_Heartbeat 42) 1 = (Ok (1, f), 2)
    \<and> handle_frame 1 (0 :: nat) registry_new (Some (replicate 32 1)) f = (registry_new, Some (replicate 32 1), [])"
proof -
  obtain f where "client_send_message True 0 (cs_session_id (client_session_new ())) (C2S_Heartbeat 42) 1 = (Ok (1, f), 1 + 1)"
    using client_send_message_fits [of "C2S_Heartbeat 42" 0 "cs_session_id (client_session_new ())" 1] by (auto simp: frame_sizes)
  then show ?thesis using default_client_ignored by fastforce
qed

end
